theory Spec2Isabelle
  imports Main "HOL-Library.Sublist"
begin

section \<open>The browser driver as an environment\<close>

text \<open>
  \<^verbatim>\<open>capture.py\<close> drives a browser through Playwright. The driver is outside the
  repository, so it is a parameter of the model: a \<open>world\<close> says, for the calls made so
  far (the trace) and the call made now, whether the call raises and which value it
  returns. Every driver call and every log record is appended to the trace, so the
  order of effects can be read off the result. An exception is the text of its message.
\<close>

type_synonym exn = string
type_synonym handle = nat

datatype script =
    PerformanceScript | AccessibilityScript | OverflowScript
  | ScrollHeightScript | ClientHeightScript

datatype event =
    NewPage
  | SetViewportSize "(string \<times> int) list"
  | OnConsole
  | Goto string
  | Title
  | Screenshot
  | Content
  | QuerySelectorAll string
  | TextContent handle
  | IsVisible handle
  | GetAttribute handle string
  | Evaluate script
  | WaitForTimeout int
  | Click string
  | MouseClick int int
  | Fill string string
  | MouseWheel int int
  | KeyboardPress string
  | PageClose
  | ContextClose
  | BrowserClose
  | PlaywrightStop
  | LogInfo string
  | LogError string
  | LogDebug string

type_synonym trace = "event list"

text \<open>The parsed markup, as BeautifulSoup holds it: a tag has a name, its single-valued
  attributes (text), its multi-valued attributes such as \<open>class\<close> and \<open>rel\<close> (lists of
  tokens) and its contents; a string node holds text.\<close>

datatype node =
    Tag string "(string \<times> string) list" "(string \<times> string list) list" "node list"
  | NavStr string

text \<open>What the scripts evaluated in the page read from the live document.\<close>

record js_image =
  img_alt :: string
  img_aria_label :: "string option"

record js_input =
  inp_id :: string
  inp_tag :: string
  inp_has_label_for :: bool
  inp_aria_label :: "string option"

datatype js_number = NaN | Num int

record js_document =
  doc_images :: "js_image list"
  doc_inputs :: "js_input list"
  doc_headings :: "nat list"
  doc_navigation :: "(int \<times> int) option"
  doc_paint :: "(string \<times> int) list"
  doc_scroll_width :: int
  doc_client_width :: int
  doc_scroll_height :: int
  doc_client_height :: int

record world =
  raises :: "trace \<Rightarrow> event \<Rightarrow> exn option"
  now :: "trace \<Rightarrow> int"
  page_title :: "trace \<Rightarrow> string"
  page_url :: "trace \<Rightarrow> string"
  viewport_size :: "trace \<Rightarrow> (int \<times> int) option"
  console :: "trace \<Rightarrow> string list"
  screenshot_b64 :: "trace \<Rightarrow> string"
  html :: "trace \<Rightarrow> string"
  parse :: "string \<Rightarrow> node"
  repr_list :: "string list \<Rightarrow> string"
  selected :: "trace \<Rightarrow> string \<Rightarrow> handle list"
  text_content :: "trace \<Rightarrow> handle \<Rightarrow> string option"
  is_visible :: "trace \<Rightarrow> handle \<Rightarrow> bool"
  get_attribute :: "trace \<Rightarrow> handle \<Rightarrow> string \<Rightarrow> string option"
  document :: "trace \<Rightarrow> js_document"
  upper_beyond_ascii :: "char \<Rightarrow> string"

text \<open>One driver call: the call is recorded, and it raises when the world says so.
  A call that returns a value reads it from the world as it is when the call is made.\<close>

definition call :: "world \<Rightarrow> event \<Rightarrow> trace \<Rightarrow> (exn + unit) \<times> trace" where
  "call w ev tr =
     (case raises w tr ev of None \<Rightarrow> (Inr (), tr @ [ev]) | Some e \<Rightarrow> (Inl e, tr @ [ev]))"

definition call_value ::
  "world \<Rightarrow> event \<Rightarrow> (trace \<Rightarrow> 'a) \<Rightarrow> trace \<Rightarrow> (exn + 'a) \<times> trace" where
  "call_value w ev f tr =
     (case raises w tr ev of None \<Rightarrow> (Inr (f tr), tr @ [ev]) | Some e \<Rightarrow> (Inl e, tr @ [ev]))"

text \<open>Sequencing inside a \<^verbatim>\<open>try\<close> block: an exception skips the rest of the block.\<close>

definition and_then ::
  "(exn + 'a) \<times> trace \<Rightarrow> ('a \<Rightarrow> trace \<Rightarrow> (exn + 'b) \<times> trace) \<Rightarrow> (exn + 'b) \<times> trace" where
  "and_then m f = (case m of (Inl e, tr) \<Rightarrow> (Inl e, tr) | (Inr x, tr) \<Rightarrow> f x tr)"

text \<open>Python truthiness of an optional string and of an optional dictionary: \<^verbatim>\<open>None\<close>
  and the empty value are false.\<close>

fun truthy_str :: "string option \<Rightarrow> string option" where
  "truthy_str None = None"
| "truthy_str (Some s) = (if s = [] then None else Some s)"

fun truthy_dict :: "(string \<times> int) list option \<Rightarrow> (string \<times> int) list option" where
  "truthy_dict None = None"
| "truthy_dict (Some d) = (if d = [] then None else Some d)"

text \<open>\<^verbatim>\<open>d[k]\<close>: a missing key raises KeyError, whose text is the quoted key.\<close>

definition dict_item :: "(string \<times> int) list \<Rightarrow> string \<Rightarrow> trace \<Rightarrow> (exn + int) \<times> trace" where
  "dict_item d k tr =
     (case map_of d k of None \<Rightarrow> (Inl ([CHR 0x27] @ k @ [CHR 0x27]), tr) | Some v \<Rightarrow> (Inr v, tr))"

section \<open>Session teardown\<close>

record FrontendCapture =
  s_playwright :: "handle option"
  s_browser :: "handle option"
  s_context :: "handle option"

text \<open>\<^verbatim>\<open>cleanup\<close>: one \<^verbatim>\<open>try\<close> block around the three close steps, each guarded by
  whether the field is set; the handler logs. The first component of the result is the
  exception that leaves the function.\<close>

definition cleanup_body :: "world \<Rightarrow> FrontendCapture \<Rightarrow> trace \<Rightarrow> (exn + unit) \<times> trace" where
  "cleanup_body w s tr =
     and_then (if s_context s \<noteq> None then call w ContextClose tr else (Inr (), tr)) (\<lambda>_ tr.
     and_then (if s_browser s \<noteq> None then call w BrowserClose tr else (Inr (), tr)) (\<lambda>_ tr.
     and_then (if s_playwright s \<noteq> None then call w PlaywrightStop tr else (Inr (), tr)) (\<lambda>_ tr.
     (Inr (), tr @ [LogInfo ''Capture system cleaned up'']))))"

definition cleanup :: "world \<Rightarrow> FrontendCapture \<Rightarrow> trace \<Rightarrow> exn option \<times> trace" where
  "cleanup w s tr =
     (case cleanup_body w s tr of
        (Inr _, tr') \<Rightarrow> (None, tr')
      | (Inl e, tr') \<Rightarrow> (None, tr' @ [LogError (''Error during cleanup: '' @ e)]))"

section \<open>Interaction replay\<close>

record InteractionAction =
  a_type :: string
  a_selector :: "string option"
  a_value :: "string option"
  a_coordinates :: "(string \<times> int) list option"
  a_duration :: "int option"
  a_url :: "string option"

record InteractionResult =
  r_action :: string
  r_success :: bool
  r_error :: "string option"
  r_result_data :: "(string \<times> string) list option"
  r_timestamp :: int

text \<open>The body of the inner \<^verbatim>\<open>try\<close> of \<^verbatim>\<open>interact_with_page\<close>: the branch for the action
  type, returning the result record as the branch leaves it.\<close>

definition try_action ::
  "world \<Rightarrow> InteractionAction \<Rightarrow> InteractionResult \<Rightarrow> trace \<Rightarrow> (exn + InteractionResult) \<times> trace" where
  "try_action w a r tr =
     (if a_type a = ''click'' then
        and_then
          (case truthy_str (a_selector a) of
             Some s \<Rightarrow> call w (Click s) tr
           | None \<Rightarrow>
               (case truthy_dict (a_coordinates a) of
                  Some c \<Rightarrow>
                    and_then (dict_item c ''x'' tr) (\<lambda>x tr.
                    and_then (dict_item c ''y'' tr) (\<lambda>y tr.
                    call w (MouseClick x y) tr))
                | None \<Rightarrow> (Inr (), tr)))
          (\<lambda>_ tr. (Inr (r\<lparr>r_success := True\<rparr>), tr))
      else if a_type a = ''fill'' then
        (case (truthy_str (a_selector a), truthy_str (a_value a)) of
           (Some s, Some v) \<Rightarrow>
             and_then (call w (Fill s v) tr) (\<lambda>_ tr. (Inr (r\<lparr>r_success := True\<rparr>), tr))
         | _ \<Rightarrow> (Inr r, tr))
      else if a_type a = ''wait'' then
        (let duration = (case a_duration a of
                           None \<Rightarrow> 1000
                         | Some d \<Rightarrow> if d = 0 then 1000 else d)
         in and_then (call w (WaitForTimeout duration) tr)
              (\<lambda>_ tr. (Inr (r\<lparr>r_success := True\<rparr>), tr)))
      else if a_type a = ''scroll'' then
        and_then
          (case truthy_dict (a_coordinates a) of
             Some c \<Rightarrow>
               and_then (dict_item c ''x'' tr) (\<lambda>x tr.
               and_then (dict_item c ''y'' tr) (\<lambda>y tr.
               call w (MouseWheel x y) tr))
           | None \<Rightarrow> call w (KeyboardPress ''PageDown'') tr)
          (\<lambda>_ tr. (Inr (r\<lparr>r_success := True\<rparr>), tr))
      else if a_type a = ''navigate'' then
        (case truthy_str (a_url a) of
           Some u \<Rightarrow>
             and_then (call w (Goto u) tr) (\<lambda>_ tr. (Inr (r\<lparr>r_success := True\<rparr>), tr))
         | None \<Rightarrow> (Inr r, tr))
      else (Inr (r\<lparr>r_error := Some (''Unknown action type: '' @ a_type a)\<rparr>), tr))"

text \<open>One iteration up to \<^verbatim>\<open>results.append(result)\<close>: the fresh result, the inner
  \<^verbatim>\<open>try\<close>, and its handler, which stores the message and logs. No branch changes the
  result before its last driver call, so a raised exception finds it as created.\<close>

definition perform_action ::
  "world \<Rightarrow> InteractionAction \<Rightarrow> trace \<Rightarrow> InteractionResult \<times> trace" where
  "perform_action w a tr =
     (let r = \<lparr>r_action = a_type a, r_success = False, r_error = None,
               r_result_data = None, r_timestamp = now w tr\<rparr>
      in case try_action w a r tr of
           (Inr r', tr') \<Rightarrow> (r', tr')
         | (Inl e, tr') \<Rightarrow>
             (r\<lparr>r_error := Some e\<rparr>,
              tr' @ [LogError (''Action '' @ a_type a @ '' failed: '' @ e)]))"

text \<open>The \<^verbatim>\<open>for action in actions\<close> loop. The delay after each action is outside the
  inner \<^verbatim>\<open>try\<close>: when it raises, the loop is left with the results so far.\<close>

fun action_loop ::
  "world \<Rightarrow> InteractionAction list \<Rightarrow> InteractionResult list \<Rightarrow> trace
     \<Rightarrow> (exn + unit) \<times> InteractionResult list \<times> trace" where
  "action_loop w [] results tr = (Inr (), results, tr)"
| "action_loop w (a # rest) results tr =
     (case perform_action w a tr of
        (r, tr1) \<Rightarrow>
          (case call w (WaitForTimeout 500) tr1 of
             (Inl e, tr2) \<Rightarrow> (Inl e, results @ [r], tr2)
           | (Inr _, tr2) \<Rightarrow> action_loop w rest (results @ [r]) tr2))"

text \<open>\<^verbatim>\<open>interact_with_page\<close>: the page is requested outside the \<^verbatim>\<open>try\<close>; the outer
  handler logs and swallows; \<^verbatim>\<open>finally\<close> closes the page; the results collected so far
  are returned.\<close>

definition interaction_session ::
  "world \<Rightarrow> string \<Rightarrow> InteractionAction list \<Rightarrow> trace \<Rightarrow> InteractionResult list \<times> trace" where
  "interaction_session w url actions tr =
     (case call w (Goto url) tr of
        (Inl e, tr1) \<Rightarrow> ([], tr1 @ [LogError (''Interaction session failed: '' @ e)])
      | (Inr _, tr1) \<Rightarrow>
          (case action_loop w actions [] tr1 of
             (Inl e, results, tr2) \<Rightarrow>
               (results, tr2 @ [LogError (''Interaction session failed: '' @ e)])
           | (Inr _, results, tr2) \<Rightarrow> (results, tr2)))"

definition interact_with_page ::
  "world \<Rightarrow> string \<Rightarrow> InteractionAction list \<Rightarrow> trace
     \<Rightarrow> (exn + InteractionResult list) \<times> trace" where
  "interact_with_page w url actions tr =
     (case call w NewPage tr of
        (Inl e, tr1) \<Rightarrow> (Inl e, tr1)
      | (Inr _, tr1) \<Rightarrow>
          (case interaction_session w url actions tr1 of
             (results, tr2) \<Rightarrow>
               (case call w PageClose tr2 of
                  (Inl e, tr3) \<Rightarrow> (Inl e, tr3)
                | (Inr _, tr3) \<Rightarrow> (Inr results, tr3))))"

section \<open>Data model of a capture\<close>

record DOMElement =
  de_tag :: string
  de_id :: "string option"
  de_classes :: "string list"
  de_text :: "string option"
  de_attributes :: "(string \<times> string) list"
  de_children_count :: nat
  de_xpath :: "string option"
  de_selector :: "string option"

record FormElement =
  fe_action :: "string option"
  fe_method :: string
  fe_inputs :: "DOMElement list"
  fe_submit_buttons :: "DOMElement list"
  fe_selector :: "string option"

record InteractiveElement =
  ie_type :: string
  ie_text :: "string option"
  ie_href :: "string option"
  ie_selector :: string
  ie_clickable :: bool
  ie_focusable :: bool
  ie_visible :: bool

text \<open>Clock readings and durations are kept as integers (ticks); the rounding of the
  source's floats is not modelled.\<close>

record PerformanceMetrics =
  pm_load_time :: int
  pm_first_contentful_paint :: "js_number option"
  pm_largest_contentful_paint :: "js_number option"
  pm_dom_content_loaded :: "js_number option"
  pm_errors :: "string list"
  pm_warnings :: "string list"

record a11y_issue =
  ai_type :: string
  ai_severity :: string
  ai_description :: string
  ai_element :: string

record a11y_result =
  ar_issues :: "a11y_issue list"
  ar_score :: int

record breakpoint_result =
  bp_name :: string
  bp_width :: int
  bp_height :: int
  bp_has_horizontal_scroll :: bool

record responsive_issue =
  ri_breakpoint :: string
  ri_issue :: string
  ri_description :: string

record responsive_result =
  rr_breakpoints :: "breakpoint_result list"
  rr_issues :: "responsive_issue list"

record interaction_summary =
  is_clickable_count :: nat
  is_focusable_count :: nat
  is_form_count :: nat
  is_navigation_links :: "(string \<times> string) list"
  is_can_scroll :: bool

text \<open>The three fields typed \<^verbatim>\<open>Dict[str, Any]\<close> default to the empty dictionary, which is
  \<open>None\<close> here; a filled dictionary is \<open>Some\<close> of its record.\<close>

record FrontendContext =
  fc_timestamp :: int
  fc_url :: string
  fc_title :: string
  fc_viewport :: "(string \<times> int) list"
  fc_screenshot :: "string option"
  fc_elements :: "DOMElement list"
  fc_forms :: "FormElement list"
  fc_buttons :: "DOMElement list"
  fc_links :: "DOMElement list"
  fc_inputs :: "DOMElement list"
  fc_interactive :: "InteractiveElement list"
  fc_interactions :: "interaction_summary option"
  fc_performance :: "PerformanceMetrics option"
  fc_accessibility :: "a11y_result option"
  fc_responsive :: "responsive_result option"
  fc_raw_html :: "string option"
  fc_console_logs :: "string list"

section \<open>Reading the parsed markup\<close>

fun tag_name :: "node \<Rightarrow> string" where
  "tag_name (Tag n _ _ _) = n"
| "tag_name (NavStr _) = []"

fun is_tag :: "node \<Rightarrow> bool" where
  "is_tag (Tag _ _ _ _) = True"
| "is_tag (NavStr _) = False"

text \<open>\<^verbatim>\<open>tag.get(k)\<close> for a single-valued attribute, and \<^verbatim>\<open>tag.get('class', [])\<close>.\<close>

fun attr_get :: "node \<Rightarrow> string \<Rightarrow> string option" where
  "attr_get (Tag _ a _ _) k = map_of a k"
| "attr_get (NavStr _) k = None"

fun class_list :: "node \<Rightarrow> string list" where
  "class_list (Tag _ _ m _) = (case map_of m ''class'' of None \<Rightarrow> [] | Some cs \<Rightarrow> cs)"
| "class_list (NavStr _) = []"

text \<open>\<^verbatim>\<open>{k: str(v) for k, v in tag.attrs.items()}\<close>: a text value is itself, a list value
  is its \<^verbatim>\<open>repr\<close>, which the world supplies. The result is a dictionary; the order of its
  keys is not part of the model.\<close>

fun attrs_str :: "world \<Rightarrow> node \<Rightarrow> (string \<times> string) list" where
  "attrs_str w (Tag _ a m _) = a @ map (\<lambda>(k, v). (k, repr_list w v)) m"
| "attrs_str w (NavStr _) = []"

fun attrs_str_no_class :: "world \<Rightarrow> node \<Rightarrow> (string \<times> string) list" where
  "attrs_str_no_class w (Tag _ a m _) =
     a @ map (\<lambda>(k, v). (k, repr_list w v)) (filter (\<lambda>(k, v). k \<noteq> ''class'') m)"
| "attrs_str_no_class w (NavStr _) = []"

text \<open>The descendants of a node in document order.\<close>

fun descendants :: "node \<Rightarrow> node list" where
  "descendants (Tag n a m cs) = concat (map (\<lambda>c. c # descendants c) cs)"
| "descendants (NavStr s) = []"

definition find_all :: "string list \<Rightarrow> node \<Rightarrow> node list" where
  "find_all names n = filter (\<lambda>d. is_tag d \<and> tag_name d \<in> set names) (descendants n)"

definition find_all_tags :: "node \<Rightarrow> node list" where
  "find_all_tags n = filter is_tag (descendants n)"

text \<open>\<^verbatim>\<open>str.strip()\<close> removes Python's whitespace characters at both ends (those below
  256 are listed); \<^verbatim>\<open>get_text(strip=True)\<close> joins the stripped, non-empty strings below
  a tag.\<close>

definition py_space :: "char \<Rightarrow> bool" where
  "py_space c = (c \<in> set [CHR 0x20, CHR 0x09, CHR 0x0A, CHR 0x0B, CHR 0x0C, CHR 0x0D,
                            CHR 0x1C, CHR 0x1D, CHR 0x1E, CHR 0x1F, CHR 0x85, CHR 0xA0])"

definition strip :: "string \<Rightarrow> string" where
  "strip s = rev (dropWhile py_space (rev (dropWhile py_space s)))"

fun node_strings :: "node \<Rightarrow> string list" where
  "node_strings (NavStr s) = [s]"
| "node_strings (Tag _ _ _ _) = []"

definition get_text_strip :: "node \<Rightarrow> string" where
  "get_text_strip n =
     concat (filter (\<lambda>s. s \<noteq> []) (map strip (concat (map node_strings (descendants n)))))"

text \<open>\<^verbatim>\<open>str.upper()\<close> maps every character by itself and joins the results. An ASCII
  letter a to z becomes A to Z, and every other ASCII character is kept. What a character
  beyond ASCII becomes is read from the Unicode tables of the language, which are not
  part of the repository: it may be another character (e with an acute accent gives its
  capital), several characters (the sharp s gives \<open>SS\<close>) or the character itself, so the
  world supplies it, as a text. Text is held in the 256 characters of the logic, read as
  code points; text with characters beyond them is outside the model.\<close>

definition upper_char :: "world \<Rightarrow> char \<Rightarrow> string" where
  "upper_char w c =
     (let n = (of_char c :: nat)
      in if 97 \<le> n \<and> n \<le> 122 then [char_of (n - 32)]
         else if n < 128 then [c]
         else upper_beyond_ascii w c)"

definition upper :: "world \<Rightarrow> string \<Rightarrow> string" where
  "upper w s = concat (map (upper_char w) s)"

fun join :: "string \<Rightarrow> string list \<Rightarrow> string" where
  "join sep [] = []"
| "join sep [x] = x"
| "join sep (x # y # ys) = x @ sep @ join sep (y # ys)"

section \<open>DOM extraction from the parsed markup\<close>

definition important_tags :: "string list" where
  "important_tags =
     [''h1'', ''h2'', ''h3'', ''h4'', ''h5'', ''h6'', ''p'', ''div'', ''span'', ''section'',
      ''article'', ''nav'', ''header'', ''footer'', ''main'', ''aside'',
      ''button'', ''input'', ''textarea'', ''select'', ''option'', ''label'', ''form'', ''a'',
      ''img'', ''video'', ''audio'', ''canvas'', ''svg'',
      ''ul'', ''ol'', ''li'', ''table'', ''thead'', ''tbody'', ''tr'', ''td'', ''th'',
      ''blockquote'', ''pre'', ''code'', ''strong'', ''em'', ''small'', ''mark'', ''del'',
      ''ins'', ''sub'', ''sup'']"

text \<open>The element record built in \<^verbatim>\<open>_extract_dom_elements\<close>, with its generated
  selector. Every argument has the type its field asks for, so the constructor does not
  raise and the handler around it is never entered.\<close>

definition dom_element :: "world \<Rightarrow> string \<Rightarrow> node \<Rightarrow> DOMElement" where
  "dom_element w t n =
     (let i = attr_get n ''id''; cs = class_list n; txt = get_text_strip n
      in \<lparr>de_tag = t, de_id = i, de_classes = cs,
          de_text = (if txt \<noteq> [] then Some (take 200 txt) else None),
          de_attributes = attrs_str_no_class w n,
          de_children_count = length (find_all_tags n),
          de_xpath = None,
          de_selector =
            (case truthy_str i of
               Some x \<Rightarrow> Some (''#'' @ x)
             | None \<Rightarrow> if cs \<noteq> [] then Some (t @ ''.'' @ join ''.'' cs) else None)\<rparr>)"

text \<open>The inner loop over the matches of one tag name: \<^verbatim>\<open>break\<close> leaves this loop only,
  so the loop over the tag names goes on.\<close>

fun dom_elements_of_tag :: "world \<Rightarrow> string \<Rightarrow> node list \<Rightarrow> DOMElement list \<Rightarrow> DOMElement list" where
  "dom_elements_of_tag w t [] elements = elements"
| "dom_elements_of_tag w t (n # ns) elements =
     (let elements' = elements @ [dom_element w t n]
      in if length elements' \<ge> 100 then elements' else dom_elements_of_tag w t ns elements')"

definition extract_dom_elements :: "world \<Rightarrow> node \<Rightarrow> DOMElement list" where
  "extract_dom_elements w soup =
     take 100 (fold (\<lambda>t elements. dom_elements_of_tag w t (find_all [t] soup) elements)
                    important_tags [])"

definition id_selector :: "node \<Rightarrow> string option" where
  "id_selector n = (case truthy_str (attr_get n ''id'') of Some x \<Rightarrow> Some (''#'' @ x) | None \<Rightarrow> None)"

text \<open>\<^verbatim>\<open>a or b\<close> on the stripped text and the \<^verbatim>\<open>value\<close> attribute.\<close>

definition text_or_value :: "node \<Rightarrow> string option" where
  "text_or_value n = (if get_text_strip n \<noteq> [] then Some (get_text_strip n) else attr_get n ''value'')"

definition form_input :: "world \<Rightarrow> node \<Rightarrow> DOMElement" where
  "form_input w n =
     \<lparr>de_tag = tag_name n, de_id = attr_get n ''id'', de_classes = [], de_text = None,
      de_attributes = attrs_str w n, de_children_count = 0, de_xpath = None,
      de_selector = id_selector n\<rparr>"

definition form_submit_button :: "world \<Rightarrow> node \<Rightarrow> DOMElement" where
  "form_submit_button w n =
     \<lparr>de_tag = tag_name n, de_id = None, de_classes = [], de_text = text_or_value n,
      de_attributes = attrs_str w n, de_children_count = 0, de_xpath = None,
      de_selector = None\<rparr>"

definition is_submit_control :: "node \<Rightarrow> bool" where
  "is_submit_control n =
     (attr_get n ''type'' \<in> {Some ''submit'', Some ''button''} \<or> tag_name n = ''button'')"

definition form_element :: "world \<Rightarrow> node \<Rightarrow> FormElement" where
  "form_element w form =
     \<lparr>fe_action = attr_get form ''action'',
      fe_method = upper w (case attr_get form ''method'' of None \<Rightarrow> ''GET'' | Some m \<Rightarrow> m),
      fe_inputs = map (form_input w) (find_all [''input'', ''textarea'', ''select''] form),
      fe_submit_buttons =
        map (form_submit_button w)
            (filter is_submit_control (find_all [''button'', ''input''] form)),
      fe_selector = None\<rparr>"

definition extract_forms :: "world \<Rightarrow> node \<Rightarrow> FormElement list" where
  "extract_forms w soup = map (form_element w) (find_all [''form''] soup)"

definition button_element :: "world \<Rightarrow> node \<Rightarrow> DOMElement" where
  "button_element w n =
     \<lparr>de_tag = tag_name n, de_id = attr_get n ''id'', de_classes = class_list n,
      de_text = text_or_value n, de_attributes = attrs_str w n, de_children_count = 0,
      de_xpath = None, de_selector = id_selector n\<rparr>"

definition extract_buttons :: "world \<Rightarrow> node \<Rightarrow> DOMElement list" where
  "extract_buttons w soup =
     take 20 (map (button_element w)
       (filter (\<lambda>n. \<not> (tag_name n = ''input''
                          \<and> attr_get n ''type'' \<notin> {Some ''button'', Some ''submit''}))
               (find_all [''button'', ''input''] soup)))"

definition link_element :: "node \<Rightarrow> DOMElement" where
  "link_element n =
     \<lparr>de_tag = ''a'', de_id = attr_get n ''id'', de_classes = class_list n,
      de_text = Some (get_text_strip n),
      de_attributes = (case attr_get n ''href'' of None \<Rightarrow> [] | Some h \<Rightarrow> [(''href'', h)]),
      de_children_count = 0, de_xpath = None, de_selector = id_selector n\<rparr>"

definition extract_links :: "world \<Rightarrow> node \<Rightarrow> DOMElement list" where
  "extract_links w soup =
     take 30 (map link_element
       (filter (\<lambda>n. attr_get n ''href'' \<noteq> None) (find_all [''a''] soup)))"

definition input_element :: "world \<Rightarrow> node \<Rightarrow> DOMElement" where
  "input_element w n =
     \<lparr>de_tag = tag_name n, de_id = attr_get n ''id'', de_classes = class_list n,
      de_text = None, de_attributes = attrs_str w n, de_children_count = 0,
      de_xpath = None, de_selector = id_selector n\<rparr>"

definition extract_inputs :: "world \<Rightarrow> node \<Rightarrow> DOMElement list" where
  "extract_inputs w soup =
     map (input_element w) (find_all [''input'', ''textarea'', ''select''] soup)"

section \<open>Live extraction of interactive elements\<close>

text \<open>A double-quoted word inside a selector.\<close>

definition dq :: "string \<Rightarrow> string" where
  "dq s = [CHR 0x22] @ s @ [CHR 0x22]"

definition clickable_selectors :: "string list" where
  "clickable_selectors =
     [''button'', ''a[href]'', ''input[type='' @ dq ''button'' @ '']'',
      ''input[type='' @ dq ''submit'' @ '']'', ''[onclick]'', ''[role='' @ dq ''button'' @ '']'']"

text \<open>\<^verbatim>\<open>text_content.strip() if text_content else None\<close>.\<close>

definition stripped_text :: "string option \<Rightarrow> string option" where
  "stripped_text t = (case truthy_str t of None \<Rightarrow> None | Some s \<Rightarrow> Some (strip s))"

text \<open>The loop over the first ten matches of one selector: an element whose text or
  visibility cannot be read is skipped.\<close>

fun interactive_of_selector ::
  "world \<Rightarrow> string \<Rightarrow> handle list \<Rightarrow> InteractiveElement list \<Rightarrow> trace
     \<Rightarrow> InteractiveElement list \<times> trace" where
  "interactive_of_selector w sel [] interactive tr = (interactive, tr)"
| "interactive_of_selector w sel (h # hs) interactive tr =
     (case and_then (call_value w (TextContent h) (\<lambda>t. text_content w t h) tr) (\<lambda>txt tr.
           and_then (call_value w (IsVisible h) (\<lambda>t. is_visible w t h) tr) (\<lambda>vis tr.
           (Inr \<lparr>ie_type = ''clickable'', ie_text = stripped_text txt, ie_href = None,
                 ie_selector = sel, ie_clickable = True, ie_focusable = False,
                 ie_visible = vis\<rparr>, tr))) of
        (Inr e, tr') \<Rightarrow> interactive_of_selector w sel hs (interactive @ [e]) tr'
      | (Inl _, tr') \<Rightarrow> interactive_of_selector w sel hs interactive tr')"

text \<open>The loop over the selectors: a query that raises is skipped.\<close>

fun interactive_of_selectors ::
  "world \<Rightarrow> string list \<Rightarrow> InteractiveElement list \<Rightarrow> trace
     \<Rightarrow> InteractiveElement list \<times> trace" where
  "interactive_of_selectors w [] interactive tr = (interactive, tr)"
| "interactive_of_selectors w (sel # sels) interactive tr =
     (case call_value w (QuerySelectorAll sel) (\<lambda>t. selected w t sel) tr of
        (Inl _, tr') \<Rightarrow> interactive_of_selectors w sels interactive tr'
      | (Inr elements, tr') \<Rightarrow>
          (case interactive_of_selector w sel (take 10 elements) interactive tr' of
             (interactive', tr'') \<Rightarrow> interactive_of_selectors w sels interactive' tr''))"

definition extract_interactive_elements ::
  "world \<Rightarrow> trace \<Rightarrow> InteractiveElement list \<times> trace" where
  "extract_interactive_elements w tr =
     (case interactive_of_selectors w clickable_selectors [] tr of
        (interactive, tr') \<Rightarrow> (take 30 interactive, tr'))"

section \<open>The analysis stages\<close>

definition capture_screenshot :: "world \<Rightarrow> trace \<Rightarrow> string \<times> trace" where
  "capture_screenshot w tr =
     (case call_value w Screenshot (screenshot_b64 w) tr of
        (Inr s, tr') \<Rightarrow> (s, tr')
      | (Inl e, tr') \<Rightarrow> ([], tr' @ [LogError (''Screenshot capture failed: '' @ e)]))"

text \<open>\<^verbatim>\<open>_analyze_dom\<close>: the markup is fetched, stored and parsed, and the six
  collections are assigned. The extractors do not raise, so the handler is entered only
  when fetching the markup raises.\<close>

definition analyze_dom :: "world \<Rightarrow> FrontendContext \<Rightarrow> trace \<Rightarrow> FrontendContext \<times> trace" where
  "analyze_dom w ctx tr =
     (case call_value w Content (html w) tr of
        (Inl e, tr') \<Rightarrow> (ctx, tr' @ [LogError (''DOM analysis failed: '' @ e)])
      | (Inr html_content, tr') \<Rightarrow>
          (let soup = parse w html_content
           in case extract_interactive_elements w tr' of
                (interactive, tr'') \<Rightarrow>
                  (ctx\<lparr>fc_raw_html := Some html_content,
                       fc_elements := extract_dom_elements w soup,
                       fc_forms := extract_forms w soup,
                       fc_buttons := extract_buttons w soup,
                       fc_links := extract_links w soup,
                       fc_inputs := extract_inputs w soup,
                       fc_interactive := interactive\<rparr>, tr'')))"

text \<open>The performance script: the difference of two fields of a missing navigation
  entry is NaN; a paint entry that is not found gives no value.\<close>

definition performance_script :: "js_document \<Rightarrow> js_number \<times> js_number option" where
  "performance_script d =
     ((case doc_navigation d of None \<Rightarrow> NaN | Some (e, s) \<Rightarrow> Num (e - s)),
      (case map_of (doc_paint d) ''first-contentful-paint'' of
         None \<Rightarrow> None | Some t \<Rightarrow> Some (Num t)))"

definition analyze_performance :: "world \<Rightarrow> int \<Rightarrow> trace \<Rightarrow> PerformanceMetrics \<times> trace" where
  "analyze_performance w load_time tr =
     (case call_value w (Evaluate PerformanceScript) (\<lambda>t. performance_script (document w t)) tr of
        (Inr (dcl, fcp), tr') \<Rightarrow>
          (\<lparr>pm_load_time = load_time, pm_first_contentful_paint = fcp,
            pm_largest_contentful_paint = None, pm_dom_content_loaded = Some dcl,
            pm_errors = [], pm_warnings = []\<rparr>, tr')
      | (Inl e, tr') \<Rightarrow>
          (\<lparr>pm_load_time = load_time, pm_first_contentful_paint = None,
            pm_largest_contentful_paint = None, pm_dom_content_loaded = None,
            pm_errors = [], pm_warnings = []\<rparr>,
           tr' @ [LogError (''Performance analysis failed: '' @ e)]))"

text \<open>The accessibility script. A number in a template string is written in decimal.\<close>

fun show_nat :: "nat \<Rightarrow> string" where
  "show_nat n =
     (if n < 10 then [char_of (48 + n)] else show_nat (n div 10) @ [char_of (48 + n mod 10)])"

definition js_truthy :: "string option \<Rightarrow> bool" where
  "js_truthy s = (s \<noteq> None \<and> s \<noteq> Some [])"

fun image_issues :: "js_image list \<Rightarrow> nat \<Rightarrow> a11y_issue list" where
  "image_issues [] index = []"
| "image_issues (img # imgs) index =
     (if img_alt img = [] \<and> \<not> js_truthy (img_aria_label img)
      then [\<lparr>ai_type = ''missing_alt_text'', ai_severity = ''medium'',
             ai_description = ''Image missing alternative text'',
             ai_element = ''img:nth-child('' @ show_nat (index + 1) @ '')''\<rparr>]
      else []) @ image_issues imgs (index + 1)"

fun input_issues :: "js_input list \<Rightarrow> nat \<Rightarrow> a11y_issue list" where
  "input_issues [] index = []"
| "input_issues (inp # inps) index =
     (if \<not> (inp_id inp \<noteq> [] \<and> inp_has_label_for inp) \<and> \<not> js_truthy (inp_aria_label inp)
      then [\<lparr>ai_type = ''missing_form_label'', ai_severity = ''high'',
             ai_description = ''Form input missing label'',
             ai_element = inp_tag inp @
               (if inp_id inp \<noteq> [] then ''#'' @ inp_id inp
                else '':nth-child('' @ show_nat (index + 1) @ '')'')\<rparr>]
      else []) @ input_issues inps (index + 1)"

fun heading_issues :: "nat list \<Rightarrow> nat \<Rightarrow> a11y_issue list" where
  "heading_issues [] lastLevel = []"
| "heading_issues (level # levels) lastLevel =
     (if level > lastLevel + 1
      then [\<lparr>ai_type = ''heading_hierarchy'', ai_severity = ''medium'',
             ai_description = ''Improper heading hierarchy'',
             ai_element = ''h'' @ show_nat level\<rparr>]
      else []) @ heading_issues levels level"

definition accessibility_script :: "js_document \<Rightarrow> a11y_result" where
  "accessibility_script d =
     (let issues = image_issues (doc_images d) 0 @ input_issues (doc_inputs d) 0
                   @ heading_issues (doc_headings d) 0
      in \<lparr>ar_issues = issues, ar_score = max 0 (100 - int (length issues) * 10)\<rparr>)"

definition analyze_accessibility :: "world \<Rightarrow> trace \<Rightarrow> a11y_result \<times> trace" where
  "analyze_accessibility w tr =
     (case call_value w (Evaluate AccessibilityScript) (\<lambda>t. accessibility_script (document w t)) tr of
        (Inr a11y_data, tr') \<Rightarrow> (a11y_data, tr')
      | (Inl e, tr') \<Rightarrow>
          (\<lparr>ar_issues = [], ar_score = 0\<rparr>,
           tr' @ [LogError (''Accessibility analysis failed: '' @ e)]))"

text \<open>The responsive sweep: one \<^verbatim>\<open>try\<close> around the loop, so an exception ends the sweep
  and the data collected so far is returned.\<close>

definition breakpoints :: "(string \<times> int \<times> int) list" where
  "breakpoints = [(''mobile'', 375, 667), (''tablet'', 768, 1024), (''desktop'', 1280, 720)]"

fun responsive_loop ::
  "world \<Rightarrow> (string \<times> int \<times> int) list \<Rightarrow> responsive_result \<Rightarrow> trace
     \<Rightarrow> (exn + unit) \<times> responsive_result \<times> trace" where
  "responsive_loop w [] data tr = (Inr (), data, tr)"
| "responsive_loop w ((name, width, height) # bps) data tr =
     (case and_then (call w (SetViewportSize [(''width'', width), (''height'', height)]) tr) (\<lambda>_ tr.
           and_then (call w (WaitForTimeout 1000) tr) (\<lambda>_ tr.
           call_value w (Evaluate OverflowScript)
             (\<lambda>t. doc_scroll_width (document w t) > doc_client_width (document w t)) tr)) of
        (Inl e, tr') \<Rightarrow> (Inl e, data, tr')
      | (Inr overflow_check, tr') \<Rightarrow>
          responsive_loop w bps
            \<lparr>rr_breakpoints = rr_breakpoints data @
               [\<lparr>bp_name = name, bp_width = width, bp_height = height,
                 bp_has_horizontal_scroll = overflow_check\<rparr>],
             rr_issues = rr_issues data @
               (if overflow_check
                then [\<lparr>ri_breakpoint = name, ri_issue = ''horizontal_overflow'',
                       ri_description = ''Page has horizontal overflow at '' @ name @ '' viewport''\<rparr>]
                else [])\<rparr> tr')"

definition test_responsive :: "world \<Rightarrow> trace \<Rightarrow> responsive_result \<times> trace" where
  "test_responsive w tr =
     (case responsive_loop w breakpoints \<lparr>rr_breakpoints = [], rr_issues = []\<rparr> tr of
        (Inr _, data, tr') \<Rightarrow> (data, tr')
      | (Inl e, data, tr') \<Rightarrow> (data, tr' @ [LogError (''Responsive testing failed: '' @ e)]))"

text \<open>The interaction summary. The dictionary is filled step by step inside one
  \<^verbatim>\<open>try\<close>; what was filled before an exception stays, and the dictionary is stored in
  the context in every case.\<close>

definition clickable_query :: string where
  "clickable_query =
     ''button, a[href], input[type='' @ dq ''button'' @ ''], input[type='' @ dq ''submit''
       @ ''], [onclick], [role='' @ dq ''button'' @ '']''"

definition focusable_query :: string where
  "focusable_query =
     ''input, textarea, select, button, a[href], [tabindex]:not([tabindex='' @ dq ''-1'' @ ''])''"

definition nav_query :: string where
  "nav_query = ''nav a[href], header a[href], .nav a[href], .navigation a[href]''"

fun navigation_links ::
  "world \<Rightarrow> handle list \<Rightarrow> (string \<times> string) list \<Rightarrow> trace \<Rightarrow> (string \<times> string) list \<times> trace" where
  "navigation_links w [] links tr = (links, tr)"
| "navigation_links w (h # hs) links tr =
     (case and_then (call_value w (GetAttribute h ''href'') (\<lambda>t. get_attribute w t h ''href'') tr) (\<lambda>href tr.
           and_then (call_value w (TextContent h) (\<lambda>t. text_content w t h) tr) (\<lambda>txt tr.
           (Inr (href, txt), tr))) of
        (Inl _, tr') \<Rightarrow> navigation_links w hs links tr'
      | (Inr (href, txt), tr') \<Rightarrow>
          (case (truthy_str href, truthy_str txt) of
             (Some h', Some t') \<Rightarrow> navigation_links w hs (links @ [(strip t', h')]) tr'
           | _ \<Rightarrow> navigation_links w hs links tr'))"

definition interactions_failed ::
  "FrontendContext \<Rightarrow> interaction_summary \<Rightarrow> exn \<Rightarrow> trace \<Rightarrow> FrontendContext \<times> trace" where
  "interactions_failed ctx interactions e tr =
     (ctx\<lparr>fc_interactions := Some interactions\<rparr>,
      tr @ [LogError (''Interaction analysis failed: '' @ e)])"

definition analyze_interactions ::
  "world \<Rightarrow> FrontendContext \<Rightarrow> trace \<Rightarrow> FrontendContext \<times> trace" where
  "analyze_interactions w ctx tr =
     (let i0 = \<lparr>is_clickable_count = 0, is_focusable_count = 0,
                is_form_count = length (fc_forms ctx), is_navigation_links = [],
                is_can_scroll = False\<rparr>
      in case call_value w (QuerySelectorAll clickable_query) (\<lambda>t. selected w t clickable_query) tr of
           (Inl e, tr1) \<Rightarrow> interactions_failed ctx i0 e tr1
         | (Inr clickable, tr1) \<Rightarrow>
      (let i1 = i0\<lparr>is_clickable_count := length clickable\<rparr>
       in case call_value w (QuerySelectorAll focusable_query) (\<lambda>t. selected w t focusable_query) tr1 of
            (Inl e, tr2) \<Rightarrow> interactions_failed ctx i1 e tr2
          | (Inr focusable, tr2) \<Rightarrow>
      (let i2 = i1\<lparr>is_focusable_count := length focusable\<rparr>
       in case call_value w (Evaluate ScrollHeightScript) (\<lambda>t. doc_scroll_height (document w t)) tr2 of
            (Inl e, tr3) \<Rightarrow> interactions_failed ctx i2 e tr3
          | (Inr scroll_height, tr3) \<Rightarrow>
      (case call_value w (Evaluate ClientHeightScript) (\<lambda>t. doc_client_height (document w t)) tr3 of
            (Inl e, tr4) \<Rightarrow> interactions_failed ctx i2 e tr4
          | (Inr client_height, tr4) \<Rightarrow>
      (let i3 = i2\<lparr>is_can_scroll := scroll_height > client_height\<rparr>
       in case call_value w (QuerySelectorAll nav_query) (\<lambda>t. selected w t nav_query) tr4 of
            (Inl e, tr5) \<Rightarrow> interactions_failed ctx i3 e tr5
          | (Inr nav_links, tr5) \<Rightarrow>
              (case navigation_links w (take 10 nav_links) [] tr5 of
                 (links, tr6) \<Rightarrow>
                   (ctx\<lparr>fc_interactions := Some (i3\<lparr>is_navigation_links := links\<rparr>)\<rparr>, tr6)))))))"

section \<open>The capture\<close>

text \<open>\<^verbatim>\<open>options.get(key, default)\<close>; the default option set.\<close>

definition option_get :: "(string \<times> bool) list \<Rightarrow> string \<Rightarrow> bool \<Rightarrow> bool" where
  "option_get options k d = (case map_of options k of None \<Rightarrow> d | Some b \<Rightarrow> b)"

definition default_options :: "(string \<times> bool) list" where
  "default_options =
     [(''screenshot'', True), (''dom_analysis'', True), (''performance'', True),
      (''accessibility'', True), (''responsive'', False), (''console_logs'', True)]"

text \<open>The stages, in the order of the source; each is guarded by its option, the
  interaction summary by none.\<close>

definition screenshot_stage ::
  "world \<Rightarrow> (string \<times> bool) list \<Rightarrow> FrontendContext \<times> trace \<Rightarrow> FrontendContext \<times> trace" where
  "screenshot_stage w options s =
     (case s of (ctx, tr) \<Rightarrow>
        if option_get options ''screenshot'' True
        then (case capture_screenshot w tr of (shot, tr') \<Rightarrow> (ctx\<lparr>fc_screenshot := Some shot\<rparr>, tr'))
        else (ctx, tr))"

definition dom_stage ::
  "world \<Rightarrow> (string \<times> bool) list \<Rightarrow> FrontendContext \<times> trace \<Rightarrow> FrontendContext \<times> trace" where
  "dom_stage w options s =
     (case s of (ctx, tr) \<Rightarrow>
        if option_get options ''dom_analysis'' True then analyze_dom w ctx tr else (ctx, tr))"

definition performance_stage ::
  "world \<Rightarrow> (string \<times> bool) list \<Rightarrow> int \<Rightarrow> FrontendContext \<times> trace \<Rightarrow> FrontendContext \<times> trace" where
  "performance_stage w options load_time s =
     (case s of (ctx, tr) \<Rightarrow>
        if option_get options ''performance'' True
        then (case analyze_performance w load_time tr of
                (pm, tr') \<Rightarrow> (ctx\<lparr>fc_performance := Some pm\<rparr>, tr'))
        else (ctx, tr))"

definition accessibility_stage ::
  "world \<Rightarrow> (string \<times> bool) list \<Rightarrow> FrontendContext \<times> trace \<Rightarrow> FrontendContext \<times> trace" where
  "accessibility_stage w options s =
     (case s of (ctx, tr) \<Rightarrow>
        if option_get options ''accessibility'' True
        then (case analyze_accessibility w tr of
                (a11y, tr') \<Rightarrow> (ctx\<lparr>fc_accessibility := Some a11y\<rparr>, tr'))
        else (ctx, tr))"

definition responsive_stage ::
  "world \<Rightarrow> (string \<times> bool) list \<Rightarrow> FrontendContext \<times> trace \<Rightarrow> FrontendContext \<times> trace" where
  "responsive_stage w options s =
     (case s of (ctx, tr) \<Rightarrow>
        if option_get options ''responsive'' False
        then (case test_responsive w tr of
                (data, tr') \<Rightarrow> (ctx\<lparr>fc_responsive := Some data\<rparr>, tr'))
        else (ctx, tr))"

definition interactions_stage ::
  "world \<Rightarrow> FrontendContext \<times> trace \<Rightarrow> FrontendContext \<times> trace" where
  "interactions_stage w s = (case s of (ctx, tr) \<Rightarrow> analyze_interactions w ctx tr)"

definition run_stages ::
  "world \<Rightarrow> (string \<times> bool) list \<Rightarrow> int \<Rightarrow> FrontendContext \<times> trace \<Rightarrow> FrontendContext \<times> trace" where
  "run_stages w options load_time s =
     interactions_stage w
       (responsive_stage w options
         (accessibility_stage w options
           (performance_stage w options load_time
             (dom_stage w options
               (screenshot_stage w options s)))))"

text \<open>The context as it is created after the navigation: the fields that are not
  passed to the constructor hold their declared defaults.\<close>

definition initial_context ::
  "int \<Rightarrow> string \<Rightarrow> string \<Rightarrow> int \<times> int \<Rightarrow> string list \<Rightarrow> FrontendContext" where
  "initial_context ts current_url title vp console_logs =
     \<lparr>fc_timestamp = ts, fc_url = current_url, fc_title = title,
      fc_viewport = [(''width'', fst vp), (''height'', snd vp)],
      fc_screenshot = None, fc_elements = [], fc_forms = [], fc_buttons = [], fc_links = [],
      fc_inputs = [], fc_interactive = [], fc_interactions = None, fc_performance = None,
      fc_accessibility = None, fc_responsive = None, fc_raw_html = None,
      fc_console_logs = console_logs\<rparr>"

text \<open>The body of the \<^verbatim>\<open>try\<close> of \<^verbatim>\<open>capture_frontend\<close>. Attaching the console listener is
  local and is only recorded. A page without a viewport makes the subscript on
  \<^verbatim>\<open>viewport_size\<close> raise.\<close>

definition capture_body ::
  "world \<Rightarrow> string \<Rightarrow> (string \<times> bool) list \<Rightarrow> trace \<Rightarrow> (exn + FrontendContext) \<times> trace" where
  "capture_body w url options tr0 =
     (let tr = tr0 @ [OnConsole]; start_time = now w tr
      in and_then (call w (Goto url) tr) (\<lambda>_ tr.
         let load_time = now w tr - start_time
         in and_then (call_value w Title (page_title w) tr) (\<lambda>title tr.
            case viewport_size w tr of
              None \<Rightarrow> (Inl ([CHR 0x27] @ ''NoneType'' @ [CHR 0x27] @ '' object is not subscriptable''), tr)
            | Some vp \<Rightarrow>
                (case run_stages w options load_time
                        (initial_context (now w tr) (page_url w tr) title vp (console w tr), tr) of
                   (ctx, tr') \<Rightarrow>
                     (Inr ctx, tr' @ [LogInfo (''Successfully captured context for '' @ url)])))))"

text \<open>\<^verbatim>\<open>capture_frontend\<close>: the page is requested and the viewport is set before the
  \<^verbatim>\<open>try\<close>; the handler logs and raises again; \<^verbatim>\<open>finally\<close> closes the page, and an
  exception of the close replaces the outcome.\<close>

definition capture_frontend ::
  "world \<Rightarrow> string \<Rightarrow> (string \<times> bool) list option \<Rightarrow> (string \<times> int) list option \<Rightarrow> trace
     \<Rightarrow> (exn + FrontendContext) \<times> trace" where
  "capture_frontend w url options viewport tr =
     (let options = (case options of None \<Rightarrow> default_options | Some os \<Rightarrow> os)
      in case call w NewPage tr of
           (Inl e, tr1) \<Rightarrow> (Inl e, tr1)
         | (Inr _, tr1) \<Rightarrow>
             (case (case truthy_dict viewport of
                      Some v \<Rightarrow> call w (SetViewportSize v) tr1
                    | None \<Rightarrow> (Inr (), tr1)) of
                (Inl e, tr2) \<Rightarrow> (Inl e, tr2)
              | (Inr _, tr2) \<Rightarrow>
                  (case capture_body w url options tr2 of
                     (Inr ctx, tr3) \<Rightarrow>
                       (case call w PageClose tr3 of
                          (Inl e', tr4) \<Rightarrow> (Inl e', tr4)
                        | (Inr _, tr4) \<Rightarrow> (Inr ctx, tr4))
                   | (Inl e, tr3) \<Rightarrow>
                       (case call w PageClose
                               (tr3 @ [LogError (''Error capturing frontend context: '' @ e)]) of
                          (Inl e', tr4) \<Rightarrow> (Inl e', tr4)
                        | (Inr _, tr4) \<Rightarrow> (Inl e, tr4)))))"

section \<open>Reading results, and concrete pages\<close>

text \<open>The value a call returns; \<open>None\<close> when an exception leaves it.\<close>

definition returned :: "(exn + 'a) \<times> trace \<Rightarrow> 'a option" where
  "returned r = (case fst r of Inr x \<Rightarrow> Some x | Inl _ \<Rightarrow> None)"

text \<open>The close steps of \<^verbatim>\<open>cleanup\<close> that a trace holds, and those a session is due.\<close>

definition close_steps :: "trace \<Rightarrow> event list" where
  "close_steps tr = filter (\<lambda>ev. ev = ContextClose \<or> ev = BrowserClose \<or> ev = PlaywrightStop) tr"

definition due_steps :: "FrontendCapture \<Rightarrow> event list" where
  "due_steps s =
     (if s_context s \<noteq> None then [ContextClose] else [])
     @ (if s_browser s \<noteq> None then [BrowserClose] else [])
     @ (if s_playwright s \<noteq> None then [PlaywrightStop] else [])"

text \<open>The events that closing a list of handles in turn adds to a trace. Each close is
  tried in the trace that the closes before it left. The first close that raises is
  followed by the logged error and ends the teardown; when none raises, success is
  logged.\<close>

fun teardown_events :: "world \<Rightarrow> event list \<Rightarrow> trace \<Rightarrow> event list" where
  "teardown_events w [] tr = [LogInfo ''Capture system cleaned up'']"
| "teardown_events w (ev # evs) tr =
     (case raises w tr ev of
        None \<Rightarrow> ev # teardown_events w evs (tr @ [ev])
      | Some e \<Rightarrow> [ev, LogError (''Error during cleanup: '' @ e)])"

text \<open>The fixed delay after each action of a list does not raise; each delay is tried
  in the trace that its action left.\<close>

fun delays_succeed :: "world \<Rightarrow> InteractionAction list \<Rightarrow> trace \<Rightarrow> bool" where
  "delays_succeed w [] tr = True"
| "delays_succeed w (a # rest) tr =
     (raises w (snd (perform_action w a tr)) (WaitForTimeout 500) = None
      \<and> delays_succeed w rest (snd (perform_action w a tr) @ [WaitForTimeout 500]))"

text \<open>A record of the live extraction holds what was read from a matched element: \<open>h\<close>
  is one of the first ten handles that the query for the pattern \<open>sel\<close> returned when it
  was made in the trace \<open>t\<close>, and the text and the visibility of \<open>h\<close> were read in the
  trace \<open>t1\<close>, after that query.\<close>

definition read_from_match ::
  "world \<Rightarrow> string \<Rightarrow> trace \<Rightarrow> handle \<Rightarrow> trace \<Rightarrow> InteractiveElement \<Rightarrow> bool" where
  "read_from_match w sel t h t1 e =
     (raises w t (QuerySelectorAll sel) = None \<and> h \<in> set (take 10 (selected w t sel))
      \<and> prefix (t @ [QuerySelectorAll sel]) t1
      \<and> raises w t1 (TextContent h) = None
      \<and> raises w (t1 @ [TextContent h]) (IsVisible h) = None
      \<and> e = \<lparr>ie_type = ''clickable'', ie_text = stripped_text (text_content w t1 h),
               ie_href = None, ie_selector = sel, ie_clickable = True, ie_focusable = False,
               ie_visible = is_visible w (t1 @ [TextContent h]) h\<rparr>)"

text \<open>The trace in which the \<^verbatim>\<open>try\<close> of \<^verbatim>\<open>capture_frontend\<close> is entered, and the condition
  under which the capture reaches its stages: the page is obtained, a requested viewport
  is set, the navigation and the reading of the title do not raise, and the page reports
  a viewport size.\<close>

definition entry_trace :: "(string \<times> int) list option \<Rightarrow> trace \<Rightarrow> trace" where
  "entry_trace viewport tr =
     (case truthy_dict viewport of
        None \<Rightarrow> tr @ [NewPage]
      | Some v \<Rightarrow> tr @ [NewPage, SetViewportSize v])"

definition reaches_stages ::
  "world \<Rightarrow> string \<Rightarrow> (string \<times> int) list option \<Rightarrow> trace \<Rightarrow> bool" where
  "reaches_stages w url viewport tr =
     (raises w tr NewPage = None
      \<and> (case truthy_dict viewport of
            None \<Rightarrow> True
          | Some v \<Rightarrow> raises w (tr @ [NewPage]) (SetViewportSize v) = None)
      \<and> raises w (entry_trace viewport tr @ [OnConsole]) (Goto url) = None
      \<and> raises w (entry_trace viewport tr @ [OnConsole, Goto url]) Title = None
      \<and> viewport_size w (entry_trace viewport tr @ [OnConsole, Goto url, Title]) \<noteq> None)"

text \<open>The breakpoints of a sweep that are completed before its first failing call: a
  breakpoint is completed when the resize, the wait and the overflow check all return,
  each tried in the trace that the call before it left. The issues are those of the
  completed breakpoints that overflow.\<close>

fun completed_breakpoints ::
  "world \<Rightarrow> (string \<times> int \<times> int) list \<Rightarrow> trace \<Rightarrow> breakpoint_result list" where
  "completed_breakpoints w [] tr = []"
| "completed_breakpoints w ((name, width, height) # bps) tr =
     (let t1 = tr @ [SetViewportSize [(''width'', width), (''height'', height)]];
          t2 = t1 @ [WaitForTimeout 1000]
      in if raises w tr (SetViewportSize [(''width'', width), (''height'', height)]) = None
            \<and> raises w t1 (WaitForTimeout 1000) = None
            \<and> raises w t2 (Evaluate OverflowScript) = None
         then \<lparr>bp_name = name, bp_width = width, bp_height = height,
               bp_has_horizontal_scroll =
                 (doc_scroll_width (document w t2) > doc_client_width (document w t2))\<rparr>
              # completed_breakpoints w bps (t2 @ [Evaluate OverflowScript])
         else [])"

definition overflow_issues :: "breakpoint_result list \<Rightarrow> responsive_issue list" where
  "overflow_issues bs =
     map (\<lambda>b. \<lparr>ri_breakpoint = bp_name b, ri_issue = ''horizontal_overflow'',
                ri_description = ''Page has horizontal overflow at '' @ bp_name b @ '' viewport''\<rparr>)
         (filter bp_has_horizontal_scroll bs)"

text \<open>The interaction summary as it is filled before the first failing call of its
  stage: an entry holds what was read when all the calls up to its own returned, each
  tried in the trace that the call before it left, and its initial value otherwise. The
  form count is set before the first call.\<close>

definition summary_filled :: "world \<Rightarrow> nat \<Rightarrow> trace \<Rightarrow> interaction_summary" where
  "summary_filled w form_count tr =
     (let t1 = tr @ [QuerySelectorAll clickable_query];
          t2 = t1 @ [QuerySelectorAll focusable_query];
          t3 = t2 @ [Evaluate ScrollHeightScript];
          t4 = t3 @ [Evaluate ClientHeightScript];
          t5 = t4 @ [QuerySelectorAll nav_query];
          ok1 = (raises w tr (QuerySelectorAll clickable_query) = None);
          ok2 = (ok1 \<and> raises w t1 (QuerySelectorAll focusable_query) = None);
          ok3 = (ok2 \<and> raises w t2 (Evaluate ScrollHeightScript) = None);
          ok4 = (ok3 \<and> raises w t3 (Evaluate ClientHeightScript) = None);
          ok5 = (ok4 \<and> raises w t4 (QuerySelectorAll nav_query) = None)
      in \<lparr>is_clickable_count = (if ok1 then length (selected w tr clickable_query) else 0),
          is_focusable_count = (if ok2 then length (selected w t1 focusable_query) else 0),
          is_form_count = form_count,
          is_navigation_links =
            (if ok5 then fst (navigation_links w (take 10 (selected w t4 nav_query)) [] t5) else []),
          is_can_scroll =
            (if ok4 then doc_scroll_height (document w t2) > doc_client_height (document w t3)
             else False)\<rparr>)"

text \<open>The collection caps of a context.\<close>

definition within_caps :: "FrontendContext \<Rightarrow> bool" where
  "within_caps ctx =
     (length (fc_elements ctx) \<le> 100 \<and> length (fc_buttons ctx) \<le> 20
      \<and> length (fc_links ctx) \<le> 30 \<and> length (fc_interactive ctx) \<le> 30)"

definition from_selector :: "string \<Rightarrow> InteractiveElement list \<Rightarrow> InteractiveElement list" where
  "from_selector sel es = filter (\<lambda>e. ie_selector e = sel) es"




text \<open>A small sign-up page: its parsed markup and what its scripts read.\<close>

definition sample_soup :: node where
  "sample_soup =
     Tag ''[document]'' [] []
       [Tag ''html'' [] []
         [Tag ''body'' [] []
           [Tag ''h1'' [] [] [NavStr ''Sign up''],
            Tag ''form'' [(''action'', ''/join'')] []
              [Tag ''input'' [(''type'', ''text''), (''id'', ''name'')] [] [],
               Tag ''button'' [(''type'', ''submit'')] [(''class'', [''btn'', ''primary''])]
                 [NavStr '' Join '']],
            Tag ''form'' [(''method'', ''post'')] [] [],
            Tag ''a'' [(''href'', ''/about'')] [] [NavStr ''About'']]]]"

definition sample_document :: js_document where
  "sample_document =
     \<lparr>doc_images = [\<lparr>img_alt = [], img_aria_label = None\<rparr>],
      doc_inputs = [\<lparr>inp_id = ''name'', inp_tag = ''input'', inp_has_label_for = False,
                     inp_aria_label = None\<rparr>],
      doc_headings = [1, 3],
      doc_navigation = Some (120, 100),
      doc_paint = [(''first-paint'', 80), (''first-contentful-paint'', 95)],
      doc_scroll_width = 1280, doc_client_width = 1280,
      doc_scroll_height = 2000, doc_client_height = 720\<rparr>"

text \<open>A world in which no driver call raises, and worlds that differ from it only in
  the calls that raise.\<close>

definition quiet_world :: world where
  "quiet_world =
     \<lparr>raises = (\<lambda>tr ev. None),
      now = (\<lambda>tr. int (length tr)),
      page_title = (\<lambda>tr. ''Sign up''),
      page_url = (\<lambda>tr. ''http://localhost:3000/''),
      viewport_size = (\<lambda>tr. Some (1280, 720)),
      console = (\<lambda>tr. []),
      screenshot_b64 = (\<lambda>tr. ''iVBORw0KGgo=''),
      html = (\<lambda>tr. ''<html></html>''),
      parse = (\<lambda>h. sample_soup),
      repr_list = (\<lambda>xs. ''['' @ join '', '' (map (\<lambda>x. [CHR 0x27] @ x @ [CHR 0x27]) xs) @ '']''),
      selected = (\<lambda>tr sel. if sel = ''button'' then [1]
                           else if sel = ''a[href]'' then [2]
                           else if sel = clickable_query then [1, 2]
                           else if sel = focusable_query then [0, 1, 2]
                           else []),
      text_content = (\<lambda>tr h. if h = 1 then Some '' Join '' else Some ''About''),
      is_visible = (\<lambda>tr h. True),
      get_attribute = (\<lambda>tr h k. None),
      document = (\<lambda>tr. sample_document),
      upper_beyond_ascii = (\<lambda>c. if c = CHR 0xDF then ''SS'' else [c])\<rparr>"

definition failing_on :: "event list \<Rightarrow> exn \<Rightarrow> world" where
  "failing_on evs msg = quiet_world\<lparr>raises := (\<lambda>tr ev. if ev \<in> set evs then Some msg else None)\<rparr>"

definition local_url :: string where
  "local_url = ''http://localhost:3000/''"

definition offline_world :: world where
  "offline_world = failing_on [Goto local_url] ''net::ERR_CONNECTION_REFUSED''"

definition missing_element_world :: world where
  "missing_element_world =
     failing_on [Click ''#missing'', Fill ''#missing'' ''Ada''] ''Timeout 5000ms exceeded''"

definition audit_failure_world :: world where
  "audit_failure_world = failing_on [Evaluate AccessibilityScript] ''Execution context was destroyed''"

definition stage_failure_world :: world where
  "stage_failure_world =
     failing_on [Screenshot, Content, Evaluate PerformanceScript, Evaluate AccessibilityScript,
                 SetViewportSize [(''width'', 375), (''height'', 667)],
                 QuerySelectorAll clickable_query] ''Target crashed''"

definition viewport_failure_world :: world where
  "viewport_failure_world =
     failing_on [SetViewportSize [(''width'', 1280)]] ''viewportSize.height: expected integer''"

definition context_stuck_world :: world where
  "context_stuck_world = failing_on [ContextClose] ''Connection closed''"

text \<open>A world in which the screenshot, the performance script, the resize to the tablet
  breakpoint and the query for focusable elements raise.\<close>

definition partial_failure_world :: world where
  "partial_failure_world =
     failing_on [Screenshot, Evaluate PerformanceScript,
                 SetViewportSize [(''width'', 768), (''height'', 1024)],
                 QuerySelectorAll focusable_query] ''Target crashed''"

text \<open>A world that depends on the calls made so far: a wait of 500 ms raises when it is
  the first call after the navigation, and a navigation to the local address raises once
  the page has been loaded.\<close>

definition flaky_world :: world where
  "flaky_world =
     quiet_world\<lparr>raises := (\<lambda>tr ev.
        if (ev = WaitForTimeout 500 \<and> length tr = 2) \<or> (ev = Goto local_url \<and> length tr > 1)
        then Some ''Target closed'' else None)\<rparr>"

definition all_enabled :: "(string \<times> bool) list" where
  "all_enabled =
     [(''screenshot'', True), (''dom_analysis'', True), (''performance'', True),
      (''accessibility'', True), (''responsive'', True), (''console_logs'', True)]"

definition full_session :: FrontendCapture where
  "full_session = \<lparr>s_playwright = Some 0, s_browser = Some 1, s_context = Some 2\<rparr>"

text \<open>An action as the request schema builds it when only the type is given.\<close>

definition action :: "string \<Rightarrow> InteractionAction" where
  "action t = \<lparr>a_type = t, a_selector = None, a_value = None, a_coordinates = None,
               a_duration = None, a_url = None\<rparr>"

definition click_on :: "string \<Rightarrow> InteractionAction" where
  "click_on sel = (action ''click'')\<lparr>a_selector := Some sel\<rparr>"

definition fill_in :: "string \<Rightarrow> string \<Rightarrow> InteractionAction" where
  "fill_in sel v = (action ''fill'')\<lparr>a_selector := Some sel, a_value := Some v\<rparr>"

definition wait_for :: "int \<Rightarrow> InteractionAction" where
  "wait_for d = (action ''wait'')\<lparr>a_duration := Some d\<rparr>"

definition navigate_to :: "string \<Rightarrow> InteractionAction" where
  "navigate_to u = (action ''navigate'')\<lparr>a_url := Some u\<rparr>"

section \<open>Facts about driver calls\<close>

lemmas world_defs =
  quiet_world_def failing_on_def offline_world_def missing_element_world_def
  audit_failure_world_def stage_failure_world_def viewport_failure_world_def
  context_stuck_world_def partial_failure_world_def flaky_world_def local_url_def

lemmas action_defs = action_def click_on_def fill_in_def wait_for_def navigate_to_def

lemma call_trace: "snd (call w ev tr) = tr @ [ev]"
  by (simp add: call_def split: option.splits)

lemma call_value_trace: "snd (call_value w ev f tr) = tr @ [ev]"
  by (simp add: call_value_def split: option.splits)

lemma call_ok: "raises w tr ev = None \<Longrightarrow> call w ev tr = (Inr (), tr @ [ev])"
  by (simp add: call_def)

lemma call_raises: "raises w tr ev = Some e \<Longrightarrow> call w ev tr = (Inl e, tr @ [ev])"
  by (simp add: call_def)

lemma call_value_ok: "raises w tr ev = None \<Longrightarrow> call_value w ev f tr = (Inr (f tr), tr @ [ev])"
  by (simp add: call_value_def)

lemma call_value_raises: "raises w tr ev = Some e \<Longrightarrow> call_value w ev f tr = (Inl e, tr @ [ev])"
  by (simp add: call_value_def)

lemma quiet_preamble:
  "\<forall>t. raises (failing_on evs msg) t ev = (if ev \<in> set evs then Some msg else None)"
  "\<forall>t. viewport_size (failing_on evs msg) t \<noteq> None"
  "\<forall>t. raises quiet_world t ev = None"
  "\<forall>t. viewport_size quiet_world t \<noteq> None"
  by (simp_all add: failing_on_def quiet_world_def)

section \<open>Session teardown\<close>

lemma cleanup_never_raises: "fst (cleanup w s tr) = None"
  by (simp add: cleanup_def split: prod.splits sum.splits)

lemma step_ok:
  "and_then (if c then call w ev tr else (Inr (), tr)) f =
     (if c then (case raises w tr ev of None \<Rightarrow> f () (tr @ [ev]) | Some e \<Rightarrow> (Inl e, tr @ [ev]))
      else f () tr)"
  by (simp add: and_then_def call_def split: option.splits)

lemma cleanup_trace:
  "snd (cleanup w s tr) = tr @
     (let c = (s_context s \<noteq> None); b = (s_browser s \<noteq> None); p = (s_playwright s \<noteq> None);
          n1 = (if c then [ContextClose] else []);
          n2 = n1 @ (if b then [BrowserClose] else []);
          n3 = n2 @ (if p then [PlaywrightStop] else [])
      in if c \<and> raises w tr ContextClose \<noteq> None
         then n1 @ [LogError (''Error during cleanup: '' @ the (raises w tr ContextClose))]
         else if b \<and> raises w (tr @ n1) BrowserClose \<noteq> None
         then n2 @ [LogError (''Error during cleanup: '' @ the (raises w (tr @ n1) BrowserClose))]
         else if p \<and> raises w (tr @ n2) PlaywrightStop \<noteq> None
         then n3 @ [LogError (''Error during cleanup: '' @ the (raises w (tr @ n2) PlaywrightStop))]
         else n3 @ [LogInfo ''Capture system cleaned up''])"
  unfolding cleanup_def cleanup_body_def step_ok Let_def
  by (cases "s_context s \<noteq> None"; cases "s_browser s \<noteq> None"; cases "s_playwright s \<noteq> None";
      simp split: option.splits)

lemma cleanup_steps_in_order:
  "prefix (close_steps (drop (length tr) (snd (cleanup w s tr)))) (due_steps s)"
  by (cases "s_context s \<noteq> None"; cases "s_browser s \<noteq> None"; cases "s_playwright s \<noteq> None";
      simp add: cleanup_trace close_steps_def due_steps_def Let_def)

lemma cleanup_teardown_events:
  "snd (cleanup w s tr) = tr @ teardown_events w (due_steps s) tr"
  by (cases "s_context s \<noteq> None"; cases "s_browser s \<noteq> None"; cases "s_playwright s \<noteq> None";
      simp add: cleanup_trace due_steps_def Let_def split: option.splits)

lemma teardown_events_complete:
  "(\<forall>i < length evs. raises w (tr @ take i evs) (evs ! i) = None)
     \<Longrightarrow> teardown_events w evs tr = evs @ [LogInfo ''Capture system cleaned up'']"
proof (induction evs arbitrary: tr)
  case Nil
  then show ?case by simp
next
  case (Cons ev evs)
  have h: "raises w tr ev = None" using Cons.prems [rule_format, of 0] by simp
  have "\<forall>i < length evs. raises w ((tr @ [ev]) @ take i evs) (evs ! i) = None"
  proof (intro allI impI)
    fix i assume "i < length evs"
    then show "raises w ((tr @ [ev]) @ take i evs) (evs ! i) = None"
      using Cons.prems [rule_format, of "Suc i"] by simp
  qed
  then show ?case using Cons.IH h by simp
qed

lemma teardown_events_failure:
  "(\<forall>i < length pre. raises w (tr @ take i pre) (pre ! i) = None)
     \<Longrightarrow> raises w (tr @ pre) ev = Some e
     \<Longrightarrow> teardown_events w (pre @ ev # post) tr
           = pre @ [ev, LogError (''Error during cleanup: '' @ e)]"
proof (induction pre arbitrary: tr)
  case Nil
  then show ?case by simp
next
  case (Cons p pre)
  have h: "raises w tr p = None" using Cons.prems(1) [rule_format, of 0] by simp
  have "\<forall>i < length pre. raises w ((tr @ [p]) @ take i pre) (pre ! i) = None"
  proof (intro allI impI)
    fix i assume "i < length pre"
    then show "raises w ((tr @ [p]) @ take i pre) (pre ! i) = None"
      using Cons.prems(1) [rule_format, of "Suc i"] by simp
  qed
  moreover have "raises w ((tr @ [p]) @ pre) ev = Some e" using Cons.prems(2) by simp
  ultimately show ?case using Cons.IH h by simp
qed

text \<open>
  C6 (as the claim states it, refuted). With all three handles set and a context whose
  close raises, \<^verbatim>\<open>cleanup\<close> attempts the context close, logs, and returns: the browser
  and the driver are never closed.
\<close>

theorem cleanup_stops_at_first_failure:
  "snd (cleanup context_stuck_world full_session [])
     = [ContextClose, LogError ''Error during cleanup: Connection closed'']
   \<and> BrowserClose \<notin> set (snd (cleanup context_stuck_world full_session []))
   \<and> PlaywrightStop \<notin> set (snd (cleanup context_stuck_world full_session []))"
  by (simp add: cleanup_trace world_defs full_session_def)

text \<open>
  C6 (amended). \<^verbatim>\<open>cleanup\<close> never lets an exception out. The close steps that are due
  are context, browser, driver, in that order, without those that are not set. What
  \<^verbatim>\<open>cleanup\<close> adds to the trace is the teardown over the due steps: each close is tried
  in the trace that the closes before it left. When no due step raises, all of them are
  made, in that order, and success is logged. When one of them raises, whichever of the
  three it is, and the steps before it did not, the steps before it and the failing one
  are made, the error is logged with the message of the exception, and nothing else is
  attempted: the remaining steps are skipped. In every case the close steps made are an
  initial part of the due steps.
\<close>

theorem cleanup_is_best_effort:
  "fst (cleanup w s tr) = None
   \<and> snd (cleanup w s tr) = tr @ teardown_events w (due_steps s) tr
   \<and> ((\<forall>i < length (due_steps s). raises w (tr @ take i (due_steps s)) (due_steps s ! i) = None)
        \<longrightarrow> snd (cleanup w s tr) = tr @ due_steps s @ [LogInfo ''Capture system cleaned up''])
   \<and> (\<forall>pre ev post e.
          due_steps s = pre @ ev # post
          \<and> (\<forall>i < length pre. raises w (tr @ take i pre) (pre ! i) = None)
          \<and> raises w (tr @ pre) ev = Some e
        \<longrightarrow> snd (cleanup w s tr) = tr @ pre @ [ev, LogError (''Error during cleanup: '' @ e)])
   \<and> prefix (close_steps (drop (length tr) (snd (cleanup w s tr)))) (due_steps s)"
proof (intro conjI impI allI)
  show "prefix (close_steps (drop (length tr) (snd (cleanup w s tr)))) (due_steps s)"
    by (rule cleanup_steps_in_order)
  show "fst (cleanup w s tr) = None" by (rule cleanup_never_raises)
  show "snd (cleanup w s tr) = tr @ teardown_events w (due_steps s) tr"
    by (rule cleanup_teardown_events)
  show "snd (cleanup w s tr) = tr @ due_steps s @ [LogInfo ''Capture system cleaned up'']"
    if "\<forall>i < length (due_steps s). raises w (tr @ take i (due_steps s)) (due_steps s ! i) = None"
    using teardown_events_complete [OF that] by (simp add: cleanup_teardown_events)
  show "snd (cleanup w s tr) = tr @ pre @ [ev, LogError (''Error during cleanup: '' @ e)]"
    if "due_steps s = pre @ ev # post
          \<and> (\<forall>i < length pre. raises w (tr @ take i pre) (pre ! i) = None)
          \<and> raises w (tr @ pre) ev = Some e" for pre ev post e
    using that teardown_events_failure [of pre w tr ev e post]
    by (simp add: cleanup_teardown_events)
qed

theorem cleanup_is_best_effort_witness:
  "snd (cleanup quiet_world full_session [])
     = [ContextClose, BrowserClose, PlaywrightStop, LogInfo ''Capture system cleaned up'']
   \<and> fst (cleanup context_stuck_world full_session []) = None
   \<and> snd (cleanup context_stuck_world full_session [])
     = [ContextClose, LogError ''Error during cleanup: Connection closed'']
   \<and> snd (cleanup (failing_on [BrowserClose] ''Browser has been closed'') full_session [])
     = [ContextClose, BrowserClose, LogError ''Error during cleanup: Browser has been closed'']
   \<and> snd (cleanup (failing_on [PlaywrightStop] ''Connection lost'') full_session [])
     = [ContextClose, BrowserClose, PlaywrightStop, LogError ''Error during cleanup: Connection lost'']"
proof -
  have d: "due_steps full_session = [ContextClose, BrowserClose, PlaywrightStop]"
    by (simp add: due_steps_def full_session_def)
  have q: "\<forall>i < length (due_steps full_session).
             raises quiet_world ([] @ take i (due_steps full_session)) (due_steps full_session ! i) = None"
    by (simp add: quiet_world_def)
  have a: "snd (cleanup quiet_world full_session [])
     = [ContextClose, BrowserClose, PlaywrightStop, LogInfo ''Capture system cleaned up'']"
    using cleanup_is_best_effort [of quiet_world full_session "[]",
            THEN conjunct2, THEN conjunct2, THEN conjunct1, THEN mp, OF q]
    by (simp add: d)
  have b1: "fst (cleanup context_stuck_world full_session []) = None"
    using cleanup_is_best_effort [of context_stuck_world full_session "[]"] by (rule conjunct1)
  have s2: "due_steps full_session = [] @ ContextClose # [BrowserClose, PlaywrightStop]
          \<and> (\<forall>i < length ([] :: event list).
                 raises context_stuck_world ([] @ take i []) ([] ! i) = None)
          \<and> raises context_stuck_world ([] @ []) ContextClose = Some ''Connection closed''"
    by (simp add: d world_defs)
  have b2: "snd (cleanup context_stuck_world full_session [])
       = [ContextClose, LogError ''Error during cleanup: Connection closed'']"
    using cleanup_is_best_effort [of context_stuck_world full_session "[]",
            THEN conjunct2, THEN conjunct2, THEN conjunct2, THEN conjunct1,
            THEN spec, THEN spec, THEN spec, THEN spec, THEN mp, OF s2]
    by simp
  have s3: "due_steps full_session = [ContextClose] @ BrowserClose # [PlaywrightStop]
          \<and> (\<forall>i < length [ContextClose].
                 raises (failing_on [BrowserClose] ''Browser has been closed'')
                   ([] @ take i [ContextClose]) ([ContextClose] ! i) = None)
          \<and> raises (failing_on [BrowserClose] ''Browser has been closed'') ([] @ [ContextClose])
                BrowserClose = Some ''Browser has been closed''"
    by (simp add: d world_defs)
  have c: "snd (cleanup (failing_on [BrowserClose] ''Browser has been closed'') full_session [])
     = [ContextClose, BrowserClose, LogError ''Error during cleanup: Browser has been closed'']"
    using cleanup_is_best_effort [of "failing_on [BrowserClose] ''Browser has been closed''"
            full_session "[]", THEN conjunct2, THEN conjunct2, THEN conjunct2, THEN conjunct1,
            THEN spec, THEN spec, THEN spec, THEN spec, THEN mp, OF s3]
    by simp
  have s4: "due_steps full_session = [ContextClose, BrowserClose] @ PlaywrightStop # []
          \<and> (\<forall>i < length [ContextClose, BrowserClose].
                 raises (failing_on [PlaywrightStop] ''Connection lost'')
                   ([] @ take i [ContextClose, BrowserClose]) ([ContextClose, BrowserClose] ! i) = None)
          \<and> raises (failing_on [PlaywrightStop] ''Connection lost'') ([] @ [ContextClose, BrowserClose])
                PlaywrightStop = Some ''Connection lost''"
    by (simp add: d world_defs less_Suc_eq)
  have e: "snd (cleanup (failing_on [PlaywrightStop] ''Connection lost'') full_session [])
     = [ContextClose, BrowserClose, PlaywrightStop, LogError ''Error during cleanup: Connection lost'']"
    using cleanup_is_best_effort [of "failing_on [PlaywrightStop] ''Connection lost''"
            full_session "[]", THEN conjunct2, THEN conjunct2, THEN conjunct2, THEN conjunct1,
            THEN spec, THEN spec, THEN spec, THEN spec, THEN mp, OF s4]
    by simp
  show ?thesis using a b1 b2 c e by simp
qed

section \<open>Interaction replay\<close>

lemma fst_handler:
  "fst (case x of (Inr r', t) \<Rightarrow> (r', t) | (Inl e, t) \<Rightarrow> (g e, h e t))
     = (case fst x of Inr r' \<Rightarrow> r' | Inl e \<Rightarrow> g e)"
  by (cases x; cases "fst x"; simp)

lemma snd_handler:
  "snd (case x of (Inr r', t) \<Rightarrow> (r', t) | (Inl e, t) \<Rightarrow> (g e, h e t))
     = (case fst x of Inr r' \<Rightarrow> snd x | Inl e \<Rightarrow> h e (snd x))"
  by (cases x; cases "fst x"; simp)

lemma success_type:
  "r_action (case fst (and_then m (\<lambda>_ t. (Inr (r\<lparr>r_success := True\<rparr>), t))) of
               Inr r' \<Rightarrow> r' | Inl e \<Rightarrow> r\<lparr>r_error := Some e\<rparr>) = r_action r"
  by (cases m; cases "fst m"; simp add: and_then_def)

lemma try_action_type:
  "r_action (case fst (try_action w a r tr) of
               Inr r' \<Rightarrow> r' | Inl e \<Rightarrow> r\<lparr>r_error := Some e\<rparr>) = r_action r"
  unfolding try_action_def
  by (simp add: success_type Let_def split: option.splits)

lemma perform_action_type: "r_action (fst (perform_action w a tr)) = a_type a"
  unfolding perform_action_def Let_def fst_handler
  by (subst try_action_type) simp

lemma action_loop_step:
  "action_loop w (a # rest) results tr =
     (if raises w (snd (perform_action w a tr)) (WaitForTimeout 500) = None
      then action_loop w rest (results @ [fst (perform_action w a tr)])
             (snd (perform_action w a tr) @ [WaitForTimeout 500])
      else (Inl (the (raises w (snd (perform_action w a tr)) (WaitForTimeout 500))),
            results @ [fst (perform_action w a tr)],
            snd (perform_action w a tr) @ [WaitForTimeout 500]))"
  by (cases "perform_action w a tr"; cases "raises w (snd (perform_action w a tr)) (WaitForTimeout 500)")
     (simp_all add: call_def)

lemma action_loop_results:
  "\<exists>rs. fst (snd (action_loop w acts acc tr)) = acc @ rs \<and> length rs \<le> length acts
      \<and> map r_action rs = map a_type (take (length rs) acts)"
proof (induction acts arbitrary: acc tr)
  case Nil
  then show ?case by simp
next
  case (Cons a acts)
  let ?r = "fst (perform_action w a tr)" and ?t = "snd (perform_action w a tr)"
  show ?case
  proof (cases "raises w ?t (WaitForTimeout 500) = None")
    case True
    obtain rs where rs:
      "fst (snd (action_loop w acts (acc @ [?r]) (?t @ [WaitForTimeout 500]))) = (acc @ [?r]) @ rs"
      "length rs \<le> length acts" "map r_action rs = map a_type (take (length rs) acts)"
      using Cons.IH by blast
    show ?thesis
      by (rule exI[of _ "?r # rs"]) (simp add: action_loop_step True rs perform_action_type del: action_loop.simps)
  next
    case False
    show ?thesis
      by (rule exI[of _ "[?r]"]) (simp add: action_loop_step False perform_action_type del: action_loop.simps)
  qed
qed

lemma action_loop_complete:
  "delays_succeed w acts tr \<Longrightarrow>
   length (fst (snd (action_loop w acts acc tr))) = length acc + length acts"
  by (induction acts arbitrary: acc tr) (simp_all add: action_loop_step del: action_loop.simps(2))

lemma action_loop_head:
  "fst (snd (action_loop w (a # rest) acc tr)) ! length acc = fst (perform_action w a tr)"
proof -
  let ?r = "fst (perform_action w a tr)" and ?t = "snd (perform_action w a tr)"
  show ?thesis
  proof (cases "raises w ?t (WaitForTimeout 500) = None")
    case True
    obtain rs where
      "fst (snd (action_loop w rest (acc @ [?r]) (?t @ [WaitForTimeout 500]))) = (acc @ [?r]) @ rs"
      using action_loop_results by blast
    then show ?thesis by (simp add: action_loop_step True nth_append del: action_loop.simps)
  next
    case False
    then show ?thesis by (auto simp add: action_loop_step simp del: action_loop.simps)
  qed
qed

lemma interact_returned:
  "returned (interact_with_page w url actions tr) = Some results
     \<Longrightarrow> results = fst (interaction_session w url actions (tr @ [NewPage]))"
  by (cases "raises w tr NewPage";
      cases "raises w (snd (interaction_session w url actions (tr @ [NewPage]))) PageClose";
      cases "interaction_session w url actions (tr @ [NewPage])")
     (simp_all add: returned_def interact_with_page_def call_def)

lemma session_results:
  "fst (interaction_session w url actions tr) =
     (if raises w tr (Goto url) = None
      then fst (snd (action_loop w actions [] (tr @ [Goto url]))) else [])"
  by (cases "raises w tr (Goto url)"; cases "action_loop w actions [] (tr @ [Goto url])";
      cases "fst (action_loop w actions [] (tr @ [Goto url]))")
     (simp_all add: interaction_session_def call_def)

text \<open>
  C1 (as the claim states it, refuted). When the initial navigation raises, the outer
  handler logs and the empty result list is returned, although one action was given.
\<close>

theorem navigation_failure_gives_no_results:
  "returned (interact_with_page offline_world local_url [wait_for 1000] []) = Some []
   \<and> length ([] :: InteractionResult list) \<noteq> length [wait_for 1000]"
  by (simp add: returned_def interact_with_page_def interaction_session_def call_def world_defs)

text \<open>
  C1 (amended). Whenever \<^verbatim>\<open>interact_with_page\<close> returns a list, the list has one result
  for each action of an initial part of the input, in input order, and the \<open>i\<close>-th
  result carries the type of the \<open>i\<close>-th action. When the initial navigation does not
  raise and the fixed delay after each action does not raise, each in the trace in
  which it is made, the list has one result for every action, whatever the actions
  themselves do: an action may fail, also a wait of 500 ms or a navigation back to the
  same address. When the initial navigation raises, the list is empty.
\<close>

theorem interaction_results_follow_actions:
  assumes "returned (interact_with_page w url actions tr) = Some results"
  shows "length results \<le> length actions
     \<and> map r_action results = map a_type (take (length results) actions)
     \<and> (raises w (tr @ [NewPage]) (Goto url) = None
          \<and> delays_succeed w actions (tr @ [NewPage, Goto url])
          \<longrightarrow> length results = length actions)
     \<and> (raises w (tr @ [NewPage]) (Goto url) \<noteq> None \<longrightarrow> results = [])"
proof -
  have r: "results = (if raises w (tr @ [NewPage]) (Goto url) = None
             then fst (snd (action_loop w actions [] (tr @ [NewPage, Goto url]))) else [])"
    using interact_returned [OF assms] by (simp add: session_results)
  obtain rs where rs:
    "fst (snd (action_loop w actions [] (tr @ [NewPage, Goto url]))) = [] @ rs"
    "length rs \<le> length actions" "map r_action rs = map a_type (take (length rs) actions)"
    using action_loop_results by blast
  have full: "length (fst (snd (action_loop w actions [] (tr @ [NewPage, Goto url]))))
               = length actions"
    if "delays_succeed w actions (tr @ [NewPage, Goto url])"
    using action_loop_complete [OF that, of "[]"] by simp
  show ?thesis
  proof (cases "raises w (tr @ [NewPage]) (Goto url) = None")
    case True
    then have "results = rs" using r rs(1) by simp
    then show ?thesis using rs True full r by auto
  next
    case False
    then have "results = []" using r by auto
    then show ?thesis using False by auto
  qed
qed

lemma replay_with_failing_actions:
  "interact_with_page flaky_world local_url [wait_for 500, navigate_to local_url] []
     = (Inr [\<lparr>r_action = ''wait'', r_success = False, r_error = Some ''Target closed'',
               r_result_data = None, r_timestamp = 2\<rparr>,
             \<lparr>r_action = ''navigate'', r_success = False, r_error = Some ''Target closed'',
               r_result_data = None, r_timestamp = 5\<rparr>],
        [NewPage, Goto ''http://localhost:3000/'', WaitForTimeout 500,
         LogError ''Action wait failed: Target closed'', WaitForTimeout 500,
         Goto ''http://localhost:3000/'', LogError ''Action navigate failed: Target closed'',
         WaitForTimeout 500, PageClose])"
  by (simp add: interact_with_page_def interaction_session_def perform_action_def
        try_action_def and_then_def call_def world_defs action_defs)

lemma flaky_delays:
  "raises flaky_world ([] @ [NewPage]) (Goto local_url) = None
   \<and> delays_succeed flaky_world [wait_for 500, navigate_to local_url] ([] @ [NewPage, Goto local_url])"
  by (simp add: perform_action_def try_action_def and_then_def call_def world_defs action_defs)

theorem interaction_results_follow_actions_witness:
  "returned (interact_with_page flaky_world local_url [wait_for 500, navigate_to local_url] [])
     = Some [\<lparr>r_action = ''wait'', r_success = False, r_error = Some ''Target closed'',
               r_result_data = None, r_timestamp = 2\<rparr>,
             \<lparr>r_action = ''navigate'', r_success = False, r_error = Some ''Target closed'',
               r_result_data = None, r_timestamp = 5\<rparr>]
   \<and> raises flaky_world [NewPage, Goto local_url] (WaitForTimeout 500) \<noteq> None
   \<and> raises flaky_world [NewPage, Goto local_url] (Goto local_url) \<noteq> None
   \<and> raises flaky_world [NewPage] (Goto local_url) = None
   \<and> delays_succeed flaky_world [wait_for 500, navigate_to local_url] [NewPage, Goto local_url]
   \<and> length (the (returned (interact_with_page flaky_world local_url
                               [wait_for 500, navigate_to local_url] [])))
       = length [wait_for 500, navigate_to local_url]
   \<and> map r_action (the (returned (interact_with_page flaky_world local_url
                               [wait_for 500, navigate_to local_url] [])))
       = map a_type [wait_for 500, navigate_to local_url]
   \<and> returned (interact_with_page offline_world local_url [wait_for 1000] []) = Some []"
proof -
  let ?rs = "[\<lparr>r_action = ''wait'', r_success = False, r_error = Some ''Target closed'',
               r_result_data = None, r_timestamp = 2\<rparr>,
             \<lparr>r_action = ''navigate'', r_success = False, r_error = Some ''Target closed'',
               r_result_data = None, r_timestamp = 5\<rparr>]"
  have h: "returned (interact_with_page flaky_world local_url
             [wait_for 500, navigate_to local_url] []) = Some ?rs"
    by (simp add: returned_def replay_with_failing_actions)
  have g: "returned (interact_with_page offline_world local_url [wait_for 1000] []) = Some []"
    by (simp add: returned_def interact_with_page_def interaction_session_def call_def world_defs)
  have f: "raises flaky_world [NewPage, Goto local_url] (WaitForTimeout 500) \<noteq> None"
    "raises flaky_world [NewPage, Goto local_url] (Goto local_url) \<noteq> None"
    by (simp_all add: world_defs)
  have l: "length ?rs = length [wait_for 500, navigate_to local_url]"
    using interaction_results_follow_actions [OF h] flaky_delays by simp
  have m: "map r_action ?rs
             = map a_type (take (length ?rs) [wait_for 500, navigate_to local_url])"
    using interaction_results_follow_actions [OF h] by blast
  have e: "raises offline_world ([] @ [NewPage]) (Goto local_url) \<noteq> None"
    by (simp add: world_defs)
  have z: "([] :: InteractionResult list) = []"
    using interaction_results_follow_actions [OF g] e by blast
  show ?thesis
    using h g f l m flaky_delays by simp
qed

lemma perform_fill:
  assumes "a_type a = ''fill''" "a_selector a = Some s" "s \<noteq> []" "a_value a = Some v" "v \<noteq> []"
  shows "perform_action w a tr =
     (case raises w tr (Fill s v) of
        None \<Rightarrow>
          (\<lparr>r_action = ''fill'', r_success = True, r_error = None, r_result_data = None,
            r_timestamp = now w tr\<rparr>, tr @ [Fill s v])
      | Some e \<Rightarrow>
          (\<lparr>r_action = ''fill'', r_success = False, r_error = Some e, r_result_data = None,
            r_timestamp = now w tr\<rparr>,
           tr @ [Fill s v, LogError (''Action fill failed: '' @ e)]))"
  using assms
  by (simp add: perform_action_def try_action_def and_then_def call_def split: option.splits)

lemma perform_fill_incomplete:
  assumes "a_type a = ''fill''" "truthy_str (a_selector a) = None \<or> truthy_str (a_value a) = None"
  shows "perform_action w a tr =
     (\<lparr>r_action = ''fill'', r_success = False, r_error = None, r_result_data = None,
       r_timestamp = now w tr\<rparr>, tr)"
  using assms
  by (auto simp add: perform_action_def try_action_def Let_def split: option.splits)

lemma falsy_str: "x \<in> {None, Some []} \<Longrightarrow> truthy_str x = None"
  by auto

text \<open>
  C8 (as the claim states it, refuted). A fill action that carries a selector and a
  value, on a page where no element matches the selector: the fill call raises, and the
  result has \<open>success = False\<close> and the message. And a fill action that carries a
  selector and the empty text as its value: no fill call is made, and the result has
  \<open>success = False\<close> and no message.
\<close>

theorem fill_with_selector_and_value_can_fail:
  "interact_with_page missing_element_world local_url [fill_in ''#missing'' ''Ada''] []
     = (Inr [\<lparr>r_action = ''fill'', r_success = False,
               r_error = Some ''Timeout 5000ms exceeded'', r_result_data = None,
               r_timestamp = 2\<rparr>],
        [NewPage, Goto ''http://localhost:3000/'', Fill ''#missing'' ''Ada'',
         LogError ''Action fill failed: Timeout 5000ms exceeded'', WaitForTimeout 500,
         PageClose])
   \<and> interact_with_page quiet_world local_url [fill_in ''#name'' []] []
     = (Inr [\<lparr>r_action = ''fill'', r_success = False, r_error = None,
               r_result_data = None, r_timestamp = 2\<rparr>],
        [NewPage, Goto ''http://localhost:3000/'', WaitForTimeout 500, PageClose])"
  by (simp add: interact_with_page_def interaction_session_def perform_action_def
        try_action_def and_then_def call_def world_defs action_defs)

text \<open>
  C8 (amended). In the action loop, the result stored for a pending fill action is the
  one \<^verbatim>\<open>perform_action\<close> builds. When the action carries a selector and a value that
  are both not empty, the fill call is made on the page with them and is the only
  driver call; the result has \<open>success = True\<close> exactly when that call does not raise,
  and otherwise carries the message of the exception, which is also logged. When the
  selector or the value is missing or is the empty text, no driver call is made and the
  result has \<open>success = False\<close> and no message.
\<close>

theorem fill_result:
  assumes "a_type a = ''fill''"
  shows "fst (snd (action_loop w (a # rest) results tr)) ! length results
           = fst (perform_action w a tr)
     \<and> (a_selector a = Some s \<and> s \<noteq> [] \<and> a_value a = Some v \<and> v \<noteq> [] \<longrightarrow>
          r_success (fst (perform_action w a tr)) = (raises w tr (Fill s v) = None)
          \<and> r_error (fst (perform_action w a tr)) = raises w tr (Fill s v)
          \<and> snd (perform_action w a tr)
              = tr @ [Fill s v]
                  @ (case raises w tr (Fill s v) of
                       None \<Rightarrow> []
                     | Some e \<Rightarrow> [LogError (''Action fill failed: '' @ e)]))
     \<and> (a_selector a \<in> {None, Some []} \<or> a_value a \<in> {None, Some []} \<longrightarrow>
          \<not> r_success (fst (perform_action w a tr))
          \<and> r_error (fst (perform_action w a tr)) = None
          \<and> snd (perform_action w a tr) = tr)"
proof (intro conjI impI)
  show "fst (snd (action_loop w (a # rest) results tr)) ! length results
           = fst (perform_action w a tr)"
    by (rule action_loop_head)
next
  assume h: "a_selector a = Some s \<and> s \<noteq> [] \<and> a_value a = Some v \<and> v \<noteq> []"
  then have p: "perform_action w a tr =
     (case raises w tr (Fill s v) of
        None \<Rightarrow>
          (\<lparr>r_action = ''fill'', r_success = True, r_error = None, r_result_data = None,
            r_timestamp = now w tr\<rparr>, tr @ [Fill s v])
      | Some e \<Rightarrow>
          (\<lparr>r_action = ''fill'', r_success = False, r_error = Some e, r_result_data = None,
            r_timestamp = now w tr\<rparr>,
           tr @ [Fill s v, LogError (''Action fill failed: '' @ e)]))"
    using perform_fill [OF assms] by blast
  show "r_success (fst (perform_action w a tr)) = (raises w tr (Fill s v) = None)"
    by (cases "raises w tr (Fill s v)") (simp_all add: p)
  show "r_error (fst (perform_action w a tr)) = raises w tr (Fill s v)"
    by (cases "raises w tr (Fill s v)") (simp_all add: p)
  show "snd (perform_action w a tr)
          = tr @ [Fill s v]
              @ (case raises w tr (Fill s v) of
                   None \<Rightarrow> []
                 | Some e \<Rightarrow> [LogError (''Action fill failed: '' @ e)])"
    by (cases "raises w tr (Fill s v)") (simp_all add: p)
next
  assume "a_selector a \<in> {None, Some []} \<or> a_value a \<in> {None, Some []}"
  then have h: "truthy_str (a_selector a) = None \<or> truthy_str (a_value a) = None"
    by (elim disjE) (simp_all add: falsy_str)
  show "\<not> r_success (fst (perform_action w a tr))"
    by (simp add: perform_fill_incomplete [OF assms h])
  show "r_error (fst (perform_action w a tr)) = None"
    by (simp add: perform_fill_incomplete [OF assms h])
  show "snd (perform_action w a tr) = tr"
    by (simp add: perform_fill_incomplete [OF assms h])
qed

theorem fill_result_witness:
  "r_success (fst (perform_action quiet_world (fill_in ''#name'' ''Ada'') [NewPage]))
   \<and> snd (perform_action quiet_world (fill_in ''#name'' ''Ada'') [NewPage])
        = [NewPage, Fill ''#name'' ''Ada'']
   \<and> \<not> r_success (fst (perform_action missing_element_world (fill_in ''#missing'' ''Ada'') [NewPage]))
   \<and> r_error (fst (perform_action missing_element_world (fill_in ''#missing'' ''Ada'') [NewPage]))
        = Some ''Timeout 5000ms exceeded''
   \<and> \<not> r_success (fst (perform_action quiet_world (action ''fill'') [NewPage]))
   \<and> snd (perform_action quiet_world (action ''fill'') [NewPage]) = [NewPage]
   \<and> \<not> r_success (fst (perform_action quiet_world (fill_in ''#name'' []) [NewPage]))
   \<and> snd (perform_action quiet_world (fill_in ''#name'' []) [NewPage]) = [NewPage]"
  using fill_result [of "fill_in ''#name'' ''Ada''" quiet_world "[]" "[]" "[NewPage]" "''#name''" "''Ada''"]
        fill_result [of "fill_in ''#missing'' ''Ada''" missing_element_world "[]" "[]" "[NewPage]"
                        "''#missing''" "''Ada''"]
        fill_result [of "action ''fill''" quiet_world "[]" "[]" "[NewPage]" "''x''" "''y''"]
        fill_result [of "fill_in ''#name'' []" quiet_world "[]" "[]" "[NewPage]" "''x''" "''y''"]
  by (simp add: world_defs action_defs perform_action_def try_action_def and_then_def call_def)

text \<open>
  C9 (the code at the failing input). A click action with neither a selector nor
  coordinates, followed by a wait: no driver call is made for the click, and its result
  has \<open>success = True\<close>. The session goes on to the wait.
\<close>

theorem click_without_target_reports_success:
  "interact_with_page quiet_world local_url [action ''click'', action ''wait''] []
     = (Inr [\<lparr>r_action = ''click'', r_success = True, r_error = None,
               r_result_data = None, r_timestamp = 2\<rparr>,
             \<lparr>r_action = ''wait'', r_success = True, r_error = None,
               r_result_data = None, r_timestamp = 3\<rparr>],
        [NewPage, Goto ''http://localhost:3000/'', WaitForTimeout 500,
         WaitForTimeout 1000, WaitForTimeout 500, PageClose])"
  by (simp add: interact_with_page_def interaction_session_def perform_action_def
        try_action_def and_then_def call_def world_defs action_defs)

section \<open>Live extraction of interactive elements\<close>

lemma live_element_fields:
  assumes "and_then (call_value w (TextContent h) (\<lambda>t. text_content w t h) tr) (\<lambda>txt tr.
           and_then (call_value w (IsVisible h) (\<lambda>t. is_visible w t h) tr) (\<lambda>vis tr.
           (Inr \<lparr>ie_type = ''clickable'', ie_text = stripped_text txt, ie_href = None,
                 ie_selector = sel, ie_clickable = True, ie_focusable = False,
                 ie_visible = vis\<rparr>, tr))) = (Inr e, tr')"
  shows "ie_type e = ''clickable'' \<and> ie_clickable e \<and> \<not> ie_focusable e \<and> ie_selector e = sel"
  using assms
  by (cases "raises w tr (TextContent h)"; cases "raises w (tr @ [TextContent h]) (IsVisible h)")
     (auto simp: and_then_def call_value_def)

lemma interactive_of_selector_shape:
  "\<exists>new. fst (interactive_of_selector w sel hs acc tr) = acc @ new
          \<and> length new \<le> length hs
          \<and> (\<forall>e \<in> set new. ie_type e = ''clickable'' \<and> ie_clickable e \<and> \<not> ie_focusable e
                              \<and> ie_selector e = sel)"
proof (induction hs arbitrary: acc tr)
  case Nil
  then show ?case by simp
next
  case (Cons h hs)
  obtain x tr' where eq:
    "and_then (call_value w (TextContent h) (\<lambda>t. text_content w t h) tr) (\<lambda>txt tr.
     and_then (call_value w (IsVisible h) (\<lambda>t. is_visible w t h) tr) (\<lambda>vis tr.
     (Inr \<lparr>ie_type = ''clickable'', ie_text = stripped_text txt, ie_href = None,
           ie_selector = sel, ie_clickable = True, ie_focusable = False,
           ie_visible = vis\<rparr>, tr))) = (x, tr')"
    by (meson surj_pair)
  show ?case
  proof (cases x)
    case (Inl err)
    obtain new where "fst (interactive_of_selector w sel hs acc tr') = acc @ new"
      "length new \<le> length hs"
      "\<forall>e \<in> set new. ie_type e = ''clickable'' \<and> ie_clickable e \<and> \<not> ie_focusable e
                        \<and> ie_selector e = sel"
      using Cons.IH by blast
    then show ?thesis using eq Inl by (intro exI[of _ new]) simp
  next
    case (Inr e)
    obtain new where "fst (interactive_of_selector w sel hs (acc @ [e]) tr') = (acc @ [e]) @ new"
      "length new \<le> length hs"
      "\<forall>e \<in> set new. ie_type e = ''clickable'' \<and> ie_clickable e \<and> \<not> ie_focusable e
                        \<and> ie_selector e = sel"
      using Cons.IH by blast
    moreover have "ie_type e = ''clickable'' \<and> ie_clickable e \<and> \<not> ie_focusable e \<and> ie_selector e = sel"
      using live_element_fields eq Inr by blast
    ultimately show ?thesis using eq Inr by (intro exI[of _ "e # new"]) simp
  qed
qed

lemma interactive_of_selectors_step:
  "interactive_of_selectors w (sel # sels) acc tr =
     (if raises w tr (QuerySelectorAll sel) = None
      then interactive_of_selectors w sels
             (fst (interactive_of_selector w sel (take 10 (selected w tr sel)) acc
                     (tr @ [QuerySelectorAll sel])))
             (snd (interactive_of_selector w sel (take 10 (selected w tr sel)) acc
                     (tr @ [QuerySelectorAll sel])))
      else interactive_of_selectors w sels acc (tr @ [QuerySelectorAll sel]))"
  by (cases "raises w tr (QuerySelectorAll sel)";
      cases "interactive_of_selector w sel (take 10 (selected w tr sel)) acc (tr @ [QuerySelectorAll sel])")
     (simp_all add: call_value_def)

lemma from_selector_same:
  "\<forall>e \<in> set es. ie_selector e = sel \<Longrightarrow> from_selector s es = (if s = sel then es else [])"
  by (induction es) (auto simp: from_selector_def)

lemma from_selector_append: "from_selector s (xs @ ys) = from_selector s xs @ from_selector s ys"
  by (simp add: from_selector_def)

lemma from_selector_none:
  "\<forall>e \<in> set es. ie_selector e \<in> set sels \<Longrightarrow> s \<notin> set sels \<Longrightarrow> from_selector s es = []"
  by (induction es) (auto simp: from_selector_def)

lemma interactive_of_selectors_shape:
  "distinct sels \<Longrightarrow>
   \<exists>new. fst (interactive_of_selectors w sels acc tr) = acc @ new
      \<and> (\<forall>e \<in> set new. ie_type e = ''clickable'' \<and> ie_clickable e \<and> \<not> ie_focusable e
                          \<and> ie_selector e \<in> set sels)
      \<and> (\<forall>s. length (from_selector s new) \<le> 10)"
proof (induction sels arbitrary: acc tr)
  case Nil
  then show ?case by (simp add: from_selector_def)
next
  case (Cons sel sels)
  then have d: "distinct sels" and ni: "sel \<notin> set sels" by simp_all
  show ?case
  proof (cases "raises w tr (QuerySelectorAll sel) = None")
    case False
    obtain new where n: "fst (interactive_of_selectors w sels acc (tr @ [QuerySelectorAll sel])) = acc @ new"
      "\<forall>e \<in> set new. ie_type e = ''clickable'' \<and> ie_clickable e \<and> \<not> ie_focusable e
                        \<and> ie_selector e \<in> set sels"
      "\<forall>s. length (from_selector s new) \<le> 10"
      using Cons.IH [OF d] by blast
    show ?thesis
      using n False
      by (intro exI[of _ new]) (auto simp add: interactive_of_selectors_step simp del: interactive_of_selectors.simps)
  next
    case True
    let ?inner = "interactive_of_selector w sel (take 10 (selected w tr sel)) acc (tr @ [QuerySelectorAll sel])"
    obtain n1 where n1: "fst ?inner = acc @ n1" "length n1 \<le> length (take 10 (selected w tr sel))"
      "\<forall>e \<in> set n1. ie_type e = ''clickable'' \<and> ie_clickable e \<and> \<not> ie_focusable e
                        \<and> ie_selector e = sel"
      using interactive_of_selector_shape by blast
    obtain n2 where n2: "fst (interactive_of_selectors w sels (acc @ n1) (snd ?inner)) = (acc @ n1) @ n2"
      "\<forall>e \<in> set n2. ie_type e = ''clickable'' \<and> ie_clickable e \<and> \<not> ie_focusable e
                        \<and> ie_selector e \<in> set sels"
      "\<forall>s. length (from_selector s n2) \<le> 10"
      using Cons.IH [OF d] by blast
    have len1: "length n1 \<le> 10" using n1(2) by simp
    have f1: "from_selector s n1 = (if s = sel then n1 else [])" for s
      using from_selector_same n1(3) by blast
    have f2: "from_selector sel n2 = []"
      using from_selector_none n2(2) ni by blast
    have count: "length (from_selector s (n1 @ n2)) \<le> 10" for s
    proof (cases "s = sel")
      case True
      then show ?thesis using f1 f2 len1 by (simp add: from_selector_append)
    next
      case False
      then show ?thesis using f1 n2(3) by (simp add: from_selector_append)
    qed
    have res: "fst (interactive_of_selectors w (sel # sels) acc tr) = acc @ (n1 @ n2)"
      using True n1(1) n2(1)
      by (simp add: interactive_of_selectors_step del: interactive_of_selectors.simps)
    show ?thesis
      using res n1(3) n2(2) count by (intro exI[of _ "n1 @ n2"]) auto
  qed
qed

lemma from_selector_take: "length (from_selector s (take n xs)) \<le> length (from_selector s xs)"
proof -
  have "from_selector s xs = from_selector s (take n xs) @ from_selector s (drop n xs)"
    using from_selector_append [of s "take n xs" "drop n xs"] by simp
  then show ?thesis by simp
qed

lemma distinct_clickable_selectors: "distinct clickable_selectors"
  by (simp add: clickable_selectors_def dq_def)

lemma extract_interactive_shape:
  "length (fst (extract_interactive_elements w tr)) \<le> 30
   \<and> (\<forall>s. length (from_selector s (fst (extract_interactive_elements w tr))) \<le> 10)
   \<and> (\<forall>e \<in> set (fst (extract_interactive_elements w tr)).
         ie_type e = ''clickable'' \<and> ie_clickable e \<and> \<not> ie_focusable e
         \<and> ie_selector e \<in> set clickable_selectors)"
proof -
  obtain new where n: "fst (interactive_of_selectors w clickable_selectors [] tr) = [] @ new"
    "\<forall>e \<in> set new. ie_type e = ''clickable'' \<and> ie_clickable e \<and> \<not> ie_focusable e
                      \<and> ie_selector e \<in> set clickable_selectors"
    "\<forall>s. length (from_selector s new) \<le> 10"
    using interactive_of_selectors_shape [OF distinct_clickable_selectors] by blast
  have e: "fst (extract_interactive_elements w tr) = take 30 new"
    using n(1) by (cases "interactive_of_selectors w clickable_selectors [] tr")
                  (simp add: extract_interactive_elements_def)
  have "length (from_selector s (take 30 new)) \<le> 10" for s
    using from_selector_take [of s 30 new] n(3) by (meson order_trans)
  moreover have "\<forall>e \<in> set (take 30 new). ie_type e = ''clickable'' \<and> ie_clickable e
      \<and> \<not> ie_focusable e \<and> ie_selector e \<in> set clickable_selectors"
    using n(2) by (meson in_set_takeD)
  ultimately show ?thesis unfolding e by simp
qed

lemma sample_page_interactive:
  "fst (extract_interactive_elements quiet_world [])
     = [\<lparr>ie_type = ''clickable'', ie_text = Some ''Join'', ie_href = None,
         ie_selector = ''button'', ie_clickable = True, ie_focusable = False,
         ie_visible = True\<rparr>,
        \<lparr>ie_type = ''clickable'', ie_text = Some ''About'', ie_href = None,
         ie_selector = ''a[href]'', ie_clickable = True, ie_focusable = False,
         ie_visible = True\<rparr>]"
  by (simp add: extract_interactive_elements_def clickable_selectors_def dq_def call_value_def
        and_then_def stripped_text_def strip_def py_space_def world_defs clickable_query_def
        focusable_query_def)

section \<open>Accessibility audit\<close>

lemma analyze_accessibility_cases:
  "fst (analyze_accessibility w tr) =
     (if raises w tr (Evaluate AccessibilityScript) = None
      then accessibility_script (document w tr)
      else \<lparr>ar_issues = [], ar_score = 0\<rparr>)"
  by (cases "raises w tr (Evaluate AccessibilityScript)")
     (simp_all add: analyze_accessibility_def call_value_def)

lemma accessibility_script_score:
  "ar_score (accessibility_script d)
     = max 0 (100 - 10 * int (length (ar_issues (accessibility_script d))))"
  by (simp add: accessibility_script_def Let_def)

text \<open>
  C4 (as the claim states it, refuted). When the evaluation of the script raises, the
  result has no issues and score 0, which is not \<open>max 0 (100 - 10 * 0) = 100\<close>.
\<close>

theorem failed_audit_breaks_score_formula:
  "ar_issues (fst (analyze_accessibility audit_failure_world [])) = []
   \<and> ar_score (fst (analyze_accessibility audit_failure_world [])) = 0
   \<and> ar_score (fst (analyze_accessibility audit_failure_world []))
       \<noteq> max 0 (100 - 10 * int (length (ar_issues (fst (analyze_accessibility audit_failure_world [])))))"
  by (simp add: analyze_accessibility_cases world_defs)

text \<open>
  C4 (amended). When the evaluation of the accessibility script does not raise, the
  result is what the script computes and its score is
  \<open>max 0 (100 - 10 * length issues)\<close>. When the evaluation raises, the result has an
  empty issue list and score 0.
\<close>

theorem accessibility_score:
  "(raises w tr (Evaluate AccessibilityScript) = None \<longrightarrow>
      fst (analyze_accessibility w tr) = accessibility_script (document w tr)
      \<and> ar_score (fst (analyze_accessibility w tr))
          = max 0 (100 - 10 * int (length (ar_issues (fst (analyze_accessibility w tr))))))
   \<and> (raises w tr (Evaluate AccessibilityScript) \<noteq> None \<longrightarrow>
      ar_issues (fst (analyze_accessibility w tr)) = []
      \<and> ar_score (fst (analyze_accessibility w tr)) = 0)"
  by (simp add: analyze_accessibility_cases accessibility_script_score)

theorem accessibility_score_witness:
  "length (ar_issues (fst (analyze_accessibility quiet_world []))) = 3
   \<and> ar_score (fst (analyze_accessibility quiet_world [])) = 70
   \<and> ar_issues (fst (analyze_accessibility audit_failure_world [])) = []
   \<and> ar_score (fst (analyze_accessibility audit_failure_world [])) = 0"
  using accessibility_score [of quiet_world "[]"] accessibility_score [of audit_failure_world "[]"]
  by (simp add: world_defs accessibility_script_def sample_document_def js_truthy_def)

section \<open>Form extraction\<close>








section \<open>The capture pipeline\<close>

lemma screenshot_stage_ctx:
  "fst (screenshot_stage w options s) =
     (if option_get options ''screenshot'' True
      then (fst s)\<lparr>fc_screenshot := Some (fst (capture_screenshot w (snd s)))\<rparr> else fst s)"
  by (cases s; cases "capture_screenshot w (snd s)") (simp add: screenshot_stage_def)

lemma analyze_dom_ctx:
  "fst (analyze_dom w ctx tr) =
     (if raises w tr Content = None
      then ctx\<lparr>fc_raw_html := Some (html w tr),
               fc_elements := extract_dom_elements w (parse w (html w tr)),
               fc_forms := extract_forms w (parse w (html w tr)),
               fc_buttons := extract_buttons w (parse w (html w tr)),
               fc_links := extract_links w (parse w (html w tr)),
               fc_inputs := extract_inputs w (parse w (html w tr)),
               fc_interactive := fst (extract_interactive_elements w (tr @ [Content]))\<rparr>
      else ctx)"
  by (cases "raises w tr Content"; cases "extract_interactive_elements w (tr @ [Content])")
     (simp_all add: analyze_dom_def call_value_def Let_def)

lemma dom_stage_ctx:
  "fst (dom_stage w options s) =
     (if option_get options ''dom_analysis'' True then fst (analyze_dom w (fst s) (snd s)) else fst s)"
  by (cases s) (simp add: dom_stage_def)

lemma performance_stage_ctx:
  "fst (performance_stage w options lt s) =
     (if option_get options ''performance'' True
      then (fst s)\<lparr>fc_performance := Some (fst (analyze_performance w lt (snd s)))\<rparr> else fst s)"
  by (cases s; cases "analyze_performance w lt (snd s)") (simp add: performance_stage_def)

lemma accessibility_stage_ctx:
  "fst (accessibility_stage w options s) =
     (if option_get options ''accessibility'' True
      then (fst s)\<lparr>fc_accessibility := Some (fst (analyze_accessibility w (snd s)))\<rparr> else fst s)"
  by (cases s; cases "analyze_accessibility w (snd s)") (simp add: accessibility_stage_def)

lemma responsive_stage_ctx:
  "fst (responsive_stage w options s) =
     (if option_get options ''responsive'' False
      then (fst s)\<lparr>fc_responsive := Some (fst (test_responsive w (snd s)))\<rparr> else fst s)"
  by (cases s; cases "test_responsive w (snd s)") (simp add: responsive_stage_def)

lemma analyze_interactions_ctx:
  "\<exists>i. fst (analyze_interactions w ctx tr) = ctx\<lparr>fc_interactions := Some i\<rparr>"
  unfolding analyze_interactions_def interactions_failed_def Let_def
  by (auto split: prod.splits sum.splits)

lemma interactions_stage_ctx:
  "\<exists>i. fst (interactions_stage w s) = (fst s)\<lparr>fc_interactions := Some i\<rparr>"
  using analyze_interactions_ctx [of w "fst s" "snd s"] by (cases s) (simp add: interactions_stage_def)

lemma capture_body_returned:
  assumes "fst (capture_body w url options tr) = Inr ctx"
  shows "\<exists>lt ts u ti vp lg t0.
           capture_body w url options tr =
             (Inr (fst (run_stages w options lt (initial_context ts u ti vp lg, t0))),
              snd (run_stages w options lt (initial_context ts u ti vp lg, t0))
                @ [LogInfo (''Successfully captured context for '' @ url)])"
proof -
  let ?t1 = "tr @ [OnConsole]"
  let ?t2 = "?t1 @ [Goto url]"
  let ?t3 = "?t2 @ [Title]"
  from assms have g: "raises w ?t1 (Goto url) = None"
    by (cases "raises w ?t1 (Goto url)") (simp_all add: capture_body_def and_then_def call_def Let_def)
  from assms g have t: "raises w ?t2 Title = None"
    by (cases "raises w ?t2 Title")
       (simp_all add: capture_body_def and_then_def call_def call_value_def Let_def)
  from assms g t obtain vp where v: "viewport_size w ?t3 = Some vp"
    by (cases "viewport_size w ?t3")
       (simp_all add: capture_body_def and_then_def call_def call_value_def Let_def)
  let ?S = "run_stages w options (now w ?t2 - now w ?t1)
                 (initial_context (now w ?t3) (page_url w ?t3) (page_title w ?t2) vp (console w ?t3), ?t3)"
  have "capture_body w url options tr =
          (Inr (fst ?S), snd ?S @ [LogInfo (''Successfully captured context for '' @ url)])"
    using g t v
    by (cases ?S) (simp add: capture_body_def and_then_def call_def call_value_def Let_def)
  then show ?thesis by blast
qed

lemma capture_frontend_returned:
  assumes "returned (capture_frontend w url options viewport tr) = Some ctx"
  shows "\<exists>opts t. fst (capture_body w url opts t) = Inr ctx"
proof -
  let ?o = "case options of None \<Rightarrow> default_options | Some os \<Rightarrow> os"
  let ?t1 = "tr @ [NewPage]"
  from assms have n: "raises w tr NewPage = None"
    by (cases "raises w tr NewPage")
       (simp_all add: returned_def capture_frontend_def call_def Let_def)
  show ?thesis
  proof (cases "truthy_dict viewport")
    case None
    obtain x t3 where b: "capture_body w url ?o ?t1 = (x, t3)" by (meson surj_pair)
    show ?thesis
    proof (cases x)
      case (Inl e)
      then have False using assms n None b
        by (cases "raises w (t3 @ [LogError (''Error capturing frontend context: '' @ e)]) PageClose")
           (simp_all add: returned_def capture_frontend_def call_def Let_def)
      then show ?thesis ..
    next
      case (Inr c)
      then have "c = ctx" using assms n None b
        by (cases "raises w t3 PageClose")
           (simp_all add: returned_def capture_frontend_def call_def Let_def)
      then show ?thesis using b Inr by (intro exI[of _ ?o] exI[of _ ?t1]) simp
    qed
  next
    case (Some v)
    let ?t2 = "?t1 @ [SetViewportSize v]"
    from assms n Some have s: "raises w ?t1 (SetViewportSize v) = None"
      by (cases "raises w ?t1 (SetViewportSize v)")
         (simp_all add: returned_def capture_frontend_def call_def Let_def)
    obtain x t3 where b: "capture_body w url ?o ?t2 = (x, t3)" by (meson surj_pair)
    show ?thesis
    proof (cases x)
      case (Inl e)
      then have False using assms n Some s b
        by (cases "raises w (t3 @ [LogError (''Error capturing frontend context: '' @ e)]) PageClose")
           (simp_all add: returned_def capture_frontend_def call_def Let_def)
      then show ?thesis ..
    next
      case (Inr c)
      then have "c = ctx" using assms n Some s b
        by (cases "raises w t3 PageClose")
           (simp_all add: returned_def capture_frontend_def call_def Let_def)
      then show ?thesis using b Inr by (intro exI[of _ ?o] exI[of _ ?t2]) simp
    qed
  qed
qed

lemma capture_body_succeeds:
  assumes "\<forall>t. raises w t (Goto url) = None" "\<forall>t. raises w t Title = None"
    "\<forall>t. viewport_size w t \<noteq> None"
  shows "\<exists>lt ts u ti vp lg t0.
           capture_body w url options tr =
             (Inr (fst (run_stages w options lt (initial_context ts u ti vp lg, t0))),
              snd (run_stages w options lt (initial_context ts u ti vp lg, t0))
                @ [LogInfo (''Successfully captured context for '' @ url)])"
proof -
  let ?t1 = "tr @ [OnConsole]"
  let ?t2 = "?t1 @ [Goto url]"
  let ?t3 = "?t2 @ [Title]"
  obtain vp where v: "viewport_size w ?t3 = Some vp" using assms(3) by (meson option.exhaust)
  let ?S = "run_stages w options (now w ?t2 - now w ?t1)
                 (initial_context (now w ?t3) (page_url w ?t3) (page_title w ?t2) vp (console w ?t3), ?t3)"
  have "capture_body w url options tr =
          (Inr (fst ?S), snd ?S @ [LogInfo (''Successfully captured context for '' @ url)])"
    using assms(1,2) v
    by (cases ?S) (simp add: capture_body_def and_then_def call_def call_value_def Let_def)
  then show ?thesis by blast
qed

lemma capture_frontend_succeeds:
  assumes "\<forall>t. raises w t NewPage = None" "\<forall>t. raises w t (Goto url) = None"
    "\<forall>t. raises w t Title = None" "\<forall>t. viewport_size w t \<noteq> None"
    "\<forall>t. raises w t PageClose = None"
    "\<forall>v. truthy_dict viewport = Some v \<longrightarrow> raises w (tr @ [NewPage]) (SetViewportSize v) = None"
  shows "\<exists>lt ts u ti vp lg t0.
           capture_frontend w url options viewport tr =
             (Inr (fst (run_stages w (case options of None \<Rightarrow> default_options | Some os \<Rightarrow> os) lt
                          (initial_context ts u ti vp lg, t0))),
              snd (run_stages w (case options of None \<Rightarrow> default_options | Some os \<Rightarrow> os) lt
                          (initial_context ts u ti vp lg, t0))
                @ [LogInfo (''Successfully captured context for '' @ url), PageClose])"
proof -
  let ?o = "case options of None \<Rightarrow> default_options | Some os \<Rightarrow> os"
  let ?t = "case truthy_dict viewport of None \<Rightarrow> tr @ [NewPage]
            | Some v \<Rightarrow> tr @ [NewPage, SetViewportSize v]"
  obtain lt ts u ti vp lg t0 where b:
    "capture_body w url ?o ?t =
       (Inr (fst (run_stages w ?o lt (initial_context ts u ti vp lg, t0))),
        snd (run_stages w ?o lt (initial_context ts u ti vp lg, t0))
          @ [LogInfo (''Successfully captured context for '' @ url)])"
    using capture_body_succeeds [OF assms(2,3,4), of ?o ?t] by blast
  have "capture_frontend w url options viewport tr =
          (Inr (fst (run_stages w ?o lt (initial_context ts u ti vp lg, t0))),
           snd (run_stages w ?o lt (initial_context ts u ti vp lg, t0))
             @ [LogInfo (''Successfully captured context for '' @ url), PageClose])"
    using assms(1,5,6) b
    by (cases "truthy_dict viewport") (simp_all add: capture_frontend_def call_def Let_def)
  then show ?thesis by blast
qed

lemma screenshot_fallback:
  assumes "\<forall>t. raises w t Screenshot \<noteq> None"
  shows "fst (capture_screenshot w tr) = []"
proof -
  have "raises w tr Screenshot \<noteq> None" using assms by blast
  then obtain e where "raises w tr Screenshot = Some e" by auto
  then show ?thesis
    by (simp add: capture_screenshot_def call_value_def)
qed

lemma dom_fallback:
  assumes "\<forall>t. raises w t Content \<noteq> None"
  shows "fst (analyze_dom w ctx tr) = ctx"
proof -
  have "raises w tr Content \<noteq> None" using assms by blast
  then obtain e where "raises w tr Content = Some e" by auto
  then show ?thesis
    by (simp add: analyze_dom_ctx)
qed

lemma performance_fallback:
  assumes "\<forall>t. raises w t (Evaluate PerformanceScript) \<noteq> None"
  shows "fst (analyze_performance w lt tr) =
     \<lparr>pm_load_time = lt, pm_first_contentful_paint = None, pm_largest_contentful_paint = None,
      pm_dom_content_loaded = None, pm_errors = [], pm_warnings = []\<rparr>"
proof -
  have "raises w tr (Evaluate PerformanceScript) \<noteq> None" using assms by blast
  then obtain e where "raises w tr (Evaluate PerformanceScript) = Some e" by auto
  then show ?thesis
    by (simp add: analyze_performance_def call_value_def)
qed

lemma accessibility_fallback:
  assumes "\<forall>t. raises w t (Evaluate AccessibilityScript) \<noteq> None"
  shows "fst (analyze_accessibility w tr) = \<lparr>ar_issues = [], ar_score = 0\<rparr>"
proof -
  have "raises w tr (Evaluate AccessibilityScript) \<noteq> None" using assms by blast
  then obtain e where "raises w tr (Evaluate AccessibilityScript) = Some e" by auto
  then show ?thesis
    by (simp add: analyze_accessibility_cases)
qed

lemma responsive_fallback:
  assumes "\<forall>t. raises w t (SetViewportSize [(''width'', 375), (''height'', 667)]) \<noteq> None"
  shows "fst (test_responsive w tr) = \<lparr>rr_breakpoints = [], rr_issues = []\<rparr>"
proof -
  have "raises w tr (SetViewportSize [(''width'', 375), (''height'', 667)]) \<noteq> None" using assms by blast
  then obtain e where "raises w tr (SetViewportSize [(''width'', 375), (''height'', 667)]) = Some e" by auto
  then show ?thesis
    by (simp add: test_responsive_def breakpoints_def and_then_def call_def)
qed

lemma interactions_fallback:
  assumes "\<forall>t. raises w t (QuerySelectorAll clickable_query) \<noteq> None"
  shows "fst (analyze_interactions w ctx tr) =
     ctx\<lparr>fc_interactions := Some \<lparr>is_clickable_count = 0, is_focusable_count = 0,
              is_form_count = length (fc_forms ctx), is_navigation_links = [],
              is_can_scroll = False\<rparr>\<rparr>"
proof -
  have "raises w tr (QuerySelectorAll clickable_query) \<noteq> None" using assms by blast
  then obtain e where "raises w tr (QuerySelectorAll clickable_query) = Some e" by auto
  then show ?thesis
    by (simp add: analyze_interactions_def interactions_failed_def call_value_def Let_def)
qed

lemma initial_context_caps:
  "within_caps (initial_context ts u ti vp lg)
   \<and> (\<forall>sel. length (from_selector sel (fc_interactive (initial_context ts u ti vp lg))) \<le> 10)"
  by (simp add: within_caps_def initial_context_def from_selector_def)

lemma analyze_dom_caps:
  assumes "within_caps ctx" "\<forall>sel. length (from_selector sel (fc_interactive ctx)) \<le> 10"
  shows "within_caps (fst (analyze_dom w ctx tr))
     \<and> (\<forall>sel. length (from_selector sel (fc_interactive (fst (analyze_dom w ctx tr)))) \<le> 10)"
  using assms extract_interactive_shape [of w "tr @ [Content]"]
  by (simp add: analyze_dom_ctx within_caps_def extract_dom_elements_def extract_buttons_def
        extract_links_def)

lemma run_stages_caps:
  assumes "within_caps (fst s)" "\<forall>sel. length (from_selector sel (fc_interactive (fst s))) \<le> 10"
  shows "within_caps (fst (run_stages w options lt s))
     \<and> (\<forall>sel. length (from_selector sel (fc_interactive (fst (run_stages w options lt s)))) \<le> 10)"
proof -
  let ?s1 = "screenshot_stage w options s"
  let ?s2 = "dom_stage w options ?s1"
  let ?s3 = "performance_stage w options lt ?s2"
  let ?s4 = "accessibility_stage w options ?s3"
  let ?s5 = "responsive_stage w options ?s4"
  have c1: "within_caps (fst ?s1) \<and> (\<forall>sel. length (from_selector sel (fc_interactive (fst ?s1))) \<le> 10)"
    using assms by (simp add: screenshot_stage_ctx within_caps_def)
  have c2: "within_caps (fst ?s2) \<and> (\<forall>sel. length (from_selector sel (fc_interactive (fst ?s2))) \<le> 10)"
    using c1 analyze_dom_caps [of "fst ?s1" w "snd ?s1"] by (simp add: dom_stage_ctx)
  have c3: "within_caps (fst ?s3) \<and> (\<forall>sel. length (from_selector sel (fc_interactive (fst ?s3))) \<le> 10)"
    using c2 by (simp add: performance_stage_ctx within_caps_def)
  have c4: "within_caps (fst ?s4) \<and> (\<forall>sel. length (from_selector sel (fc_interactive (fst ?s4))) \<le> 10)"
    using c3 by (simp add: accessibility_stage_ctx within_caps_def)
  have c5: "within_caps (fst ?s5) \<and> (\<forall>sel. length (from_selector sel (fc_interactive (fst ?s5))) \<le> 10)"
    using c4 by (simp add: responsive_stage_ctx within_caps_def)
  obtain i where "fst (interactions_stage w ?s5) = (fst ?s5)\<lparr>fc_interactions := Some i\<rparr>"
    using interactions_stage_ctx by blast
  then show ?thesis using c5 by (simp add: run_stages_def within_caps_def)
qed

text \<open>
  C5. Whatever the world, the option set and the viewport, a context that
  \<^verbatim>\<open>capture_frontend\<close> returns holds at most 100 elements, 20 buttons, 30 links and 30
  interactive elements, and at most 10 interactive elements for any one selector.
\<close>

theorem capture_respects_caps:
  assumes "returned (capture_frontend w url options viewport tr) = Some ctx"
  shows "length (fc_elements ctx) \<le> 100 \<and> length (fc_buttons ctx) \<le> 20
     \<and> length (fc_links ctx) \<le> 30 \<and> length (fc_interactive ctx) \<le> 30
     \<and> (\<forall>sel. length (from_selector sel (fc_interactive ctx)) \<le> 10)"
proof -
  obtain opts t where "fst (capture_body w url opts t) = Inr ctx"
    using capture_frontend_returned [OF assms] by blast
  then obtain lt ts u ti vp lg t0 where
    "ctx = fst (run_stages w opts lt (initial_context ts u ti vp lg, t0))"
    using capture_body_returned [of w url opts t ctx] by auto
  then have "within_caps ctx \<and> (\<forall>sel. length (from_selector sel (fc_interactive ctx)) \<le> 10)"
    using run_stages_caps [of "(initial_context ts u ti vp lg, t0)" w opts lt] initial_context_caps
    by simp
  then show ?thesis by (simp add: within_caps_def)
qed

theorem capture_respects_caps_witness:
  "\<exists>ctx. returned (capture_frontend quiet_world local_url None None []) = Some ctx
     \<and> length (fc_elements ctx) \<le> 100 \<and> length (fc_buttons ctx) \<le> 20
     \<and> length (fc_links ctx) \<le> 30 \<and> length (fc_interactive ctx) \<le> 30
     \<and> length (from_selector ''button'' (fc_interactive ctx)) \<le> 10"
proof -
  obtain ctx where c: "returned (capture_frontend quiet_world local_url None None []) = Some ctx"
    using capture_frontend_succeeds [where w = quiet_world and url = local_url and options = None
            and viewport = None and tr = "[]"]
    by (auto simp add: quiet_preamble returned_def)
  from capture_respects_caps [OF c] c show ?thesis by blast
qed

section \<open>What a capture adds to the trace\<close>

lemma call_grows: "prefix t0 tr \<Longrightarrow> prefix t0 (snd (call w ev tr))"
  by (simp add: call_trace prefix_order.trans)

lemma call_value_grows: "prefix t0 tr \<Longrightarrow> prefix t0 (snd (call_value w ev f tr))"
  by (simp add: call_value_trace prefix_order.trans)

lemma and_then_grows:
  assumes "prefix t0 (snd m)" "\<And>x t. prefix t0 t \<Longrightarrow> prefix t0 (snd (f x t))"
  shows "prefix t0 (snd (and_then m f))"
  using assms by (cases m; cases "fst m") (auto simp: and_then_def)

lemma interactive_of_selector_grows:
  "prefix t0 tr \<Longrightarrow> prefix t0 (snd (interactive_of_selector w sel hs acc tr))"
proof (induction hs arbitrary: acc tr)
  case Nil
  then show ?case by simp
next
  case (Cons h hs)
  let ?m = "and_then (call_value w (TextContent h) (\<lambda>t. text_content w t h) tr) (\<lambda>txt tr.
            and_then (call_value w (IsVisible h) (\<lambda>t. is_visible w t h) tr) (\<lambda>vis tr.
            (Inr \<lparr>ie_type = ''clickable'', ie_text = stripped_text txt, ie_href = None,
                  ie_selector = sel, ie_clickable = True, ie_focusable = False,
                  ie_visible = vis\<rparr>, tr)))"
  have g: "prefix t0 (snd ?m)"
    using Cons.prems by (intro and_then_grows call_value_grows) simp_all
  obtain x tr' where m: "?m = (x, tr')" by (meson surj_pair)
  then have p: "prefix t0 tr'" using g by simp
  show ?case
    using m Cons.IH [OF p] by (cases x) simp_all
qed

lemma interactive_of_selectors_grows:
  "prefix t0 tr \<Longrightarrow> prefix t0 (snd (interactive_of_selectors w sels acc tr))"
proof (induction sels arbitrary: acc tr)
  case Nil
  then show ?case by simp
next
  case (Cons sel sels)
  have p: "prefix t0 (tr @ [QuerySelectorAll sel])"
    using Cons.prems by (simp add: prefix_order.trans)
  show ?case
    using Cons.IH [OF p] Cons.IH [OF interactive_of_selector_grows [OF p]]
    by (simp add: interactive_of_selectors_step del: interactive_of_selectors.simps)
qed

lemma navigation_links_grows:
  "prefix t0 tr \<Longrightarrow> prefix t0 (snd (navigation_links w hs links tr))"
proof (induction hs arbitrary: links tr)
  case Nil
  then show ?case by simp
next
  case (Cons h hs)
  let ?m = "and_then (call_value w (GetAttribute h ''href'') (\<lambda>t. get_attribute w t h ''href'') tr) (\<lambda>href tr.
            and_then (call_value w (TextContent h) (\<lambda>t. text_content w t h) tr) (\<lambda>txt tr.
            (Inr (href, txt), tr)))"
  have g: "prefix t0 (snd ?m)"
    using Cons.prems by (intro and_then_grows call_value_grows) simp_all
  obtain x tr' where m: "?m = (x, tr')" by (meson surj_pair)
  then have p: "prefix t0 tr'" using g by simp
  show ?case
    using m Cons.IH [OF p] by (cases x) (auto split: option.splits prod.splits)
qed

lemma responsive_loop_grows:
  "prefix t0 tr \<Longrightarrow> prefix t0 (snd (snd (responsive_loop w bps data tr)))"
proof (induction bps arbitrary: data tr)
  case Nil
  then show ?case by simp
next
  case (Cons bp bps)
  obtain name width height where bp: "bp = (name, width, height)" by (cases bp) auto
  let ?m = "and_then (call w (SetViewportSize [(''width'', width), (''height'', height)]) tr) (\<lambda>_ tr.
            and_then (call w (WaitForTimeout 1000) tr) (\<lambda>_ tr.
            call_value w (Evaluate OverflowScript)
              (\<lambda>t. doc_scroll_width (document w t) > doc_client_width (document w t)) tr))"
  have g: "prefix t0 (snd ?m)"
    using Cons.prems by (intro and_then_grows call_grows call_value_grows) simp_all
  obtain x tr' where m: "?m = (x, tr')" by (meson surj_pair)
  then have p: "prefix t0 tr'" using g by simp
  show ?case
    using m p Cons.IH [OF p] by (cases x) (simp_all add: bp)
qed

section \<open>Where an interactive element comes from\<close>

lemma interactive_of_selector_step:
  "interactive_of_selector w sel (h # hs) acc tr =
     (if raises w tr (TextContent h) = None
      then (if raises w (tr @ [TextContent h]) (IsVisible h) = None
            then interactive_of_selector w sel hs
                   (acc @ [\<lparr>ie_type = ''clickable'', ie_text = stripped_text (text_content w tr h),
                            ie_href = None, ie_selector = sel, ie_clickable = True,
                            ie_focusable = False,
                            ie_visible = is_visible w (tr @ [TextContent h]) h\<rparr>])
                   (tr @ [TextContent h, IsVisible h])
            else interactive_of_selector w sel hs acc (tr @ [TextContent h, IsVisible h]))
      else interactive_of_selector w sel hs acc (tr @ [TextContent h]))"
  by (cases "raises w tr (TextContent h)"; cases "raises w (tr @ [TextContent h]) (IsVisible h)")
     (simp_all add: and_then_def call_value_def)

lemma interactive_of_selector_origin:
  "\<exists>new. fst (interactive_of_selector w sel hs acc tr) = acc @ new
      \<and> (\<forall>e \<in> set new. \<exists>h t1. h \<in> set hs \<and> prefix tr t1
             \<and> prefix (t1 @ [TextContent h, IsVisible h])
                      (snd (interactive_of_selector w sel hs acc tr))
             \<and> raises w t1 (TextContent h) = None
             \<and> raises w (t1 @ [TextContent h]) (IsVisible h) = None
             \<and> e = \<lparr>ie_type = ''clickable'', ie_text = stripped_text (text_content w t1 h),
                      ie_href = None, ie_selector = sel, ie_clickable = True,
                      ie_focusable = False,
                      ie_visible = is_visible w (t1 @ [TextContent h]) h\<rparr>)"
proof (induction hs arbitrary: acc tr)
  case Nil
  then show ?case by simp
next
  case (Cons h hs)
  let ?P = "\<lambda>hs' t0 final e. \<exists>h t1. h \<in> set hs' \<and> prefix t0 t1
             \<and> prefix (t1 @ [TextContent h, IsVisible h]) final
             \<and> raises w t1 (TextContent h) = None
             \<and> raises w (t1 @ [TextContent h]) (IsVisible h) = None
             \<and> e = \<lparr>ie_type = ''clickable'', ie_text = stripped_text (text_content w t1 h),
                      ie_href = None, ie_selector = sel, ie_clickable = True,
                      ie_focusable = False,
                      ie_visible = is_visible w (t1 @ [TextContent h]) h\<rparr>"
  have weaken: "?P (h # hs) tr final e" if "?P hs t0 final e" "prefix tr t0" for t0 final e
  proof -
    from that(1) obtain h' t1 where a: "h' \<in> set hs" "prefix t0 t1"
      "prefix (t1 @ [TextContent h', IsVisible h']) final"
      "raises w t1 (TextContent h') = None"
      "raises w (t1 @ [TextContent h']) (IsVisible h') = None"
      "e = \<lparr>ie_type = ''clickable'', ie_text = stripped_text (text_content w t1 h'),
                      ie_href = None, ie_selector = sel, ie_clickable = True,
                      ie_focusable = False,
                      ie_visible = is_visible w (t1 @ [TextContent h']) h'\<rparr>"
      by blast
    have "prefix tr t1" using that(2) a(2) by (rule prefix_order.trans)
    moreover have "h' \<in> set (h # hs)" using a(1) by simp
    ultimately show ?thesis using a(3,4,5,6) by blast
  qed
  show ?case
  proof (cases "raises w tr (TextContent h) = None")
    case False
    let ?t = "tr @ [TextContent h]"
    have eq: "interactive_of_selector w sel (h # hs) acc tr = interactive_of_selector w sel hs acc ?t"
      using False by (auto simp add: interactive_of_selector_step simp del: interactive_of_selector.simps)
    obtain new where n: "fst (interactive_of_selector w sel hs acc ?t) = acc @ new"
      "\<forall>e \<in> set new. ?P hs ?t (snd (interactive_of_selector w sel hs acc ?t)) e"
      using Cons.IH [of acc ?t] by blast
    have "\<forall>e \<in> set new. ?P (h # hs) tr (snd (interactive_of_selector w sel hs acc ?t)) e"
    proof
      fix e assume "e \<in> set new"
      then have "?P hs ?t (snd (interactive_of_selector w sel hs acc ?t)) e" using n(2) by blast
      then show "?P (h # hs) tr (snd (interactive_of_selector w sel hs acc ?t)) e"
        by (rule weaken) simp
    qed
    then show ?thesis unfolding eq using n(1) by blast
  next
    case True
    show ?thesis
    proof (cases "raises w (tr @ [TextContent h]) (IsVisible h) = None")
      case False
      let ?t = "tr @ [TextContent h, IsVisible h]"
      have eq: "interactive_of_selector w sel (h # hs) acc tr = interactive_of_selector w sel hs acc ?t"
        using True False by (auto simp add: interactive_of_selector_step simp del: interactive_of_selector.simps)
      obtain new where n: "fst (interactive_of_selector w sel hs acc ?t) = acc @ new"
        "\<forall>e \<in> set new. ?P hs ?t (snd (interactive_of_selector w sel hs acc ?t)) e"
        using Cons.IH [of acc ?t] by blast
      have "\<forall>e \<in> set new. ?P (h # hs) tr (snd (interactive_of_selector w sel hs acc ?t)) e"
      proof
        fix e assume "e \<in> set new"
        then have "?P hs ?t (snd (interactive_of_selector w sel hs acc ?t)) e" using n(2) by blast
        then show "?P (h # hs) tr (snd (interactive_of_selector w sel hs acc ?t)) e"
          by (rule weaken) simp
      qed
      then show ?thesis unfolding eq using n(1) by blast
    next
      case vis: True
      let ?t = "tr @ [TextContent h, IsVisible h]"
      let ?e0 = "\<lparr>ie_type = ''clickable'', ie_text = stripped_text (text_content w tr h),
                  ie_href = None, ie_selector = sel, ie_clickable = True,
                  ie_focusable = False,
                  ie_visible = is_visible w (tr @ [TextContent h]) h\<rparr>"
      have eq: "interactive_of_selector w sel (h # hs) acc tr
                  = interactive_of_selector w sel hs (acc @ [?e0]) ?t"
        using True vis by (auto simp add: interactive_of_selector_step simp del: interactive_of_selector.simps)
      let ?final = "snd (interactive_of_selector w sel hs (acc @ [?e0]) ?t)"
      obtain new where n: "fst (interactive_of_selector w sel hs (acc @ [?e0]) ?t) = (acc @ [?e0]) @ new"
        "\<forall>e \<in> set new. ?P hs ?t ?final e"
        using Cons.IH [of "acc @ [?e0]" ?t] by blast
      have g: "prefix ?t ?final"
        by (rule interactive_of_selector_grows) simp
      have first: "?P (h # hs) tr ?final ?e0"
        using True vis g by (intro exI [of _ h] exI [of _ tr]) simp
      have rest: "\<forall>e \<in> set new. ?P (h # hs) tr ?final e"
      proof
        fix e assume "e \<in> set new"
        then have "?P hs ?t ?final e" using n(2) by blast
        then show "?P (h # hs) tr ?final e"
          by (rule weaken) simp
      qed
      have "\<forall>e \<in> set (?e0 # new). ?P (h # hs) tr ?final e"
        using first rest by simp
      moreover have "fst (interactive_of_selector w sel hs (acc @ [?e0]) ?t) = acc @ (?e0 # new)"
        using n(1) by simp
      ultimately show ?thesis unfolding eq by blast
    qed
  qed
qed

lemma interactive_of_selectors_origin:
  "\<exists>new. fst (interactive_of_selectors w sels acc tr) = acc @ new
      \<and> (\<forall>e \<in> set new. \<exists>sel t h t1. sel \<in> set sels \<and> prefix tr t
             \<and> prefix (t1 @ [TextContent h, IsVisible h])
                      (snd (interactive_of_selectors w sels acc tr))
             \<and> read_from_match w sel t h t1 e)"
proof (induction sels arbitrary: acc tr)
  case Nil
  then show ?case by simp
next
  case (Cons sel sels)
  let ?Q = "\<lambda>ss t0 final e. \<exists>s t h t1. s \<in> set ss \<and> prefix t0 t
             \<and> prefix (t1 @ [TextContent h, IsVisible h]) final
             \<and> read_from_match w s t h t1 e"
  let ?q = "tr @ [QuerySelectorAll sel]"
  have weaken: "?Q (sel # sels) tr final e" if "?Q sels t0 final e" "prefix tr t0" for t0 final e
  proof -
    from that(1) obtain s t h t1 where a: "s \<in> set sels" "prefix t0 t"
      "prefix (t1 @ [TextContent h, IsVisible h]) final" "read_from_match w s t h t1 e"
      by blast
    have "prefix tr t" using that(2) a(2) by (rule prefix_order.trans)
    moreover have "s \<in> set (sel # sels)" using a(1) by simp
    ultimately show ?thesis using a(3,4) by blast
  qed
  show ?case
  proof (cases "raises w tr (QuerySelectorAll sel) = None")
    case False
    have eq: "interactive_of_selectors w (sel # sels) acc tr = interactive_of_selectors w sels acc ?q"
      using False by (auto simp add: interactive_of_selectors_step simp del: interactive_of_selectors.simps)
    obtain new where n: "fst (interactive_of_selectors w sels acc ?q) = acc @ new"
      "\<forall>e \<in> set new. ?Q sels ?q (snd (interactive_of_selectors w sels acc ?q)) e"
      using Cons.IH [of acc ?q] by blast
    have "\<forall>e \<in> set new. ?Q (sel # sels) tr (snd (interactive_of_selectors w sels acc ?q)) e"
    proof
      fix e assume "e \<in> set new"
      then have "?Q sels ?q (snd (interactive_of_selectors w sels acc ?q)) e" using n(2) by blast
      then show "?Q (sel # sels) tr (snd (interactive_of_selectors w sels acc ?q)) e"
        by (rule weaken) simp
    qed
    then show ?thesis unfolding eq using n(1) by blast
  next
    case True
    let ?hs = "take 10 (selected w tr sel)"
    let ?inner = "interactive_of_selector w sel ?hs acc ?q"
    have eq: "interactive_of_selectors w (sel # sels) acc tr
                = interactive_of_selectors w sels (fst ?inner) (snd ?inner)"
      using True by (auto simp add: interactive_of_selectors_step simp del: interactive_of_selectors.simps)
    let ?final = "snd (interactive_of_selectors w sels (fst ?inner) (snd ?inner))"
    obtain n1 where n1: "fst ?inner = acc @ n1"
      "\<forall>e \<in> set n1. \<exists>h t1. h \<in> set ?hs \<and> prefix ?q t1
             \<and> prefix (t1 @ [TextContent h, IsVisible h]) (snd ?inner)
             \<and> raises w t1 (TextContent h) = None
             \<and> raises w (t1 @ [TextContent h]) (IsVisible h) = None
             \<and> e = \<lparr>ie_type = ''clickable'', ie_text = stripped_text (text_content w t1 h),
                      ie_href = None, ie_selector = sel, ie_clickable = True,
                      ie_focusable = False,
                      ie_visible = is_visible w (t1 @ [TextContent h]) h\<rparr>"
      using interactive_of_selector_origin [of w sel ?hs acc ?q] by blast
    obtain n2 where n2: "fst (interactive_of_selectors w sels (fst ?inner) (snd ?inner)) = fst ?inner @ n2"
      "\<forall>e \<in> set n2. ?Q sels (snd ?inner) ?final e"
      using Cons.IH [of "fst ?inner" "snd ?inner"] by blast
    have gi: "prefix ?q (snd ?inner)"
      by (rule interactive_of_selector_grows) simp
    have gf: "prefix (snd ?inner) ?final"
      by (rule interactive_of_selectors_grows) simp
    have p1: "\<forall>e \<in> set n1. ?Q (sel # sels) tr ?final e"
    proof
      fix e assume "e \<in> set n1"
      then obtain h t1 where a: "h \<in> set ?hs" "prefix ?q t1"
        "prefix (t1 @ [TextContent h, IsVisible h]) (snd ?inner)"
        "raises w t1 (TextContent h) = None"
        "raises w (t1 @ [TextContent h]) (IsVisible h) = None"
        "e = \<lparr>ie_type = ''clickable'', ie_text = stripped_text (text_content w t1 h),
                      ie_href = None, ie_selector = sel, ie_clickable = True,
                      ie_focusable = False,
                      ie_visible = is_visible w (t1 @ [TextContent h]) h\<rparr>"
        using n1(2) by blast
      have m: "read_from_match w sel tr h t1 e"
        unfolding read_from_match_def using True a(1,2,4,5,6) by blast
      have "prefix (t1 @ [TextContent h, IsVisible h]) ?final"
        using a(3) gf by (rule prefix_order.trans)
      then show "?Q (sel # sels) tr ?final e"
        using m by (intro exI [of _ sel] exI [of _ tr] exI [of _ h] exI [of _ t1]) simp
    qed
    have p2: "\<forall>e \<in> set n2. ?Q (sel # sels) tr ?final e"
    proof
      fix e assume "e \<in> set n2"
      then have "?Q sels (snd ?inner) ?final e" using n2(2) by blast
      moreover have "prefix tr (snd ?inner)"
        using gi by (meson append_prefixD)
      ultimately show "?Q (sel # sels) tr ?final e" by (rule weaken)
    qed
    have "\<forall>e \<in> set (n1 @ n2). ?Q (sel # sels) tr ?final e"
      using p1 p2 by auto
    moreover have "fst (interactive_of_selectors w sels (fst ?inner) (snd ?inner)) = acc @ (n1 @ n2)"
      using n1(1) n2(1) by simp
    ultimately show ?thesis unfolding eq by blast
  qed
qed

lemma extract_interactive_origin:
  assumes "e \<in> set (fst (extract_interactive_elements w tr))"
  shows "\<exists>sel t h t1. sel \<in> set clickable_selectors \<and> prefix tr t
           \<and> prefix (t1 @ [TextContent h, IsVisible h]) (snd (extract_interactive_elements w tr))
           \<and> read_from_match w sel t h t1 e"
proof -
  let ?r = "interactive_of_selectors w clickable_selectors [] tr"
  obtain new where n: "fst ?r = [] @ new"
    "\<forall>e \<in> set new. \<exists>sel t h t1. sel \<in> set clickable_selectors \<and> prefix tr t
             \<and> prefix (t1 @ [TextContent h, IsVisible h]) (snd ?r)
             \<and> read_from_match w sel t h t1 e"
    using interactive_of_selectors_origin [of w clickable_selectors "[]" tr] by blast
  have f: "fst (extract_interactive_elements w tr) = take 30 new"
    and s: "snd (extract_interactive_elements w tr) = snd ?r"
    using n(1) by (cases ?r; simp add: extract_interactive_elements_def)+
  have "e \<in> set new" using assms f by (metis in_set_takeD)
  then show ?thesis using n(2) s by simp
qed

text \<open>
  C10. Every element that the live extraction returns has type \<open>clickable\<close>, is marked
  clickable and not focusable (the page is never asked about focus) and has no link
  target. Its selector is one of the six fixed patterns, and it is the pattern of the
  query that matched the element: during the extraction the query for that very pattern
  was made and did not raise, the element is one of the first ten that this query
  returned, and the text and the visibility of the record were read from that element
  after the query. So the selector names the pattern, not the element: all elements
  matched by one pattern carry the same selector.
\<close>

theorem interactive_elements_are_generic:
  "\<forall>e \<in> set (fst (extract_interactive_elements w tr)).
     ie_type e = ''clickable'' \<and> ie_clickable e \<and> \<not> ie_focusable e \<and> ie_href e = None
     \<and> ie_selector e \<in> set clickable_selectors
     \<and> (\<exists>t h t1. prefix tr t
          \<and> raises w t (QuerySelectorAll (ie_selector e)) = None
          \<and> h \<in> set (take 10 (selected w t (ie_selector e)))
          \<and> prefix (t @ [QuerySelectorAll (ie_selector e)]) t1
          \<and> raises w t1 (TextContent h) = None
          \<and> raises w (t1 @ [TextContent h]) (IsVisible h) = None
          \<and> prefix (t1 @ [TextContent h, IsVisible h]) (snd (extract_interactive_elements w tr))
          \<and> ie_text e = stripped_text (text_content w t1 h)
          \<and> ie_visible e = is_visible w (t1 @ [TextContent h]) h)"
proof
  fix e assume "e \<in> set (fst (extract_interactive_elements w tr))"
  then obtain sel t h t1 where a: "sel \<in> set clickable_selectors" "prefix tr t"
    "prefix (t1 @ [TextContent h, IsVisible h]) (snd (extract_interactive_elements w tr))"
    "read_from_match w sel t h t1 e"
    using extract_interactive_origin by blast
  have e: "e = \<lparr>ie_type = ''clickable'', ie_text = stripped_text (text_content w t1 h),
                 ie_href = None, ie_selector = sel, ie_clickable = True, ie_focusable = False,
                 ie_visible = is_visible w (t1 @ [TextContent h]) h\<rparr>"
    using a(4) by (simp add: read_from_match_def)
  have s: "ie_selector e = sel" by (simp add: e)
  have m: "raises w t (QuerySelectorAll sel) = None" "h \<in> set (take 10 (selected w t sel))"
    "prefix (t @ [QuerySelectorAll sel]) t1" "raises w t1 (TextContent h) = None"
    "raises w (t1 @ [TextContent h]) (IsVisible h) = None"
    using a(4) by (simp_all add: read_from_match_def)
  have f: "ie_type e = ''clickable''" "ie_clickable e" "\<not> ie_focusable e" "ie_href e = None"
    "ie_text e = stripped_text (text_content w t1 h)"
    "ie_visible e = is_visible w (t1 @ [TextContent h]) h"
    by (simp_all add: e)
  show "ie_type e = ''clickable'' \<and> ie_clickable e \<and> \<not> ie_focusable e \<and> ie_href e = None
     \<and> ie_selector e \<in> set clickable_selectors
     \<and> (\<exists>t h t1. prefix tr t
          \<and> raises w t (QuerySelectorAll (ie_selector e)) = None
          \<and> h \<in> set (take 10 (selected w t (ie_selector e)))
          \<and> prefix (t @ [QuerySelectorAll (ie_selector e)]) t1
          \<and> raises w t1 (TextContent h) = None
          \<and> raises w (t1 @ [TextContent h]) (IsVisible h) = None
          \<and> prefix (t1 @ [TextContent h, IsVisible h]) (snd (extract_interactive_elements w tr))
          \<and> ie_text e = stripped_text (text_content w t1 h)
          \<and> ie_visible e = is_visible w (t1 @ [TextContent h]) h)"
    unfolding s
    apply (intro conjI f a(1))
    apply (rule exI [of _ t], rule exI [of _ h], rule exI [of _ t1])
    apply (intro conjI a(2) a(3) m f(5) f(6))
    done
qed

theorem interactive_elements_are_generic_witness:
  "map ie_selector (fst (extract_interactive_elements quiet_world [])) = [''button'', ''a[href]'']
   \<and> map ie_type (fst (extract_interactive_elements quiet_world [])) = [''clickable'', ''clickable'']
   \<and> map ie_clickable (fst (extract_interactive_elements quiet_world [])) = [True, True]
   \<and> map ie_focusable (fst (extract_interactive_elements quiet_world [])) = [False, False]
   \<and> selected quiet_world [] ''button'' = [1]
   \<and> selected quiet_world [QuerySelectorAll ''button'', TextContent 1, IsVisible 1] ''a[href]'' = [2]"
proof -
  let ?b = "\<lparr>ie_type = ''clickable'', ie_text = Some ''Join'', ie_href = None,
             ie_selector = ''button'', ie_clickable = True, ie_focusable = False,
             ie_visible = True\<rparr>"
  let ?a = "\<lparr>ie_type = ''clickable'', ie_text = Some ''About'', ie_href = None,
             ie_selector = ''a[href]'', ie_clickable = True, ie_focusable = False,
             ie_visible = True\<rparr>"
  have r: "fst (extract_interactive_elements quiet_world []) = [?b, ?a]"
    by (rule sample_page_interactive)
  have b: "?b \<in> set (fst (extract_interactive_elements quiet_world []))" by (simp add: r)
  have a: "?a \<in> set (fst (extract_interactive_elements quiet_world []))" by (simp add: r)
  have fb: "ie_type ?b = ''clickable'' \<and> ie_clickable ?b \<and> \<not> ie_focusable ?b
            \<and> ie_selector ?b \<in> set clickable_selectors"
    using interactive_elements_are_generic [of quiet_world "[]", THEN bspec, OF b] by blast
  have fa: "ie_type ?a = ''clickable'' \<and> ie_clickable ?a \<and> \<not> ie_focusable ?a
            \<and> ie_selector ?a \<in> set clickable_selectors"
    using interactive_elements_are_generic [of quiet_world "[]", THEN bspec, OF a] by blast
  have s: "selected quiet_world [] ''button'' = [1]"
    "selected quiet_world [QuerySelectorAll ''button'', TextContent 1, IsVisible 1] ''a[href]'' = [2]"
    by (simp_all add: quiet_world_def)
  show ?thesis using fa fb s by (simp add: r)
qed

lemma capture_screenshot_starts:
  "prefix (tr @ [Screenshot]) (snd (capture_screenshot w tr))"
  by (cases "raises w tr Screenshot") (simp_all add: capture_screenshot_def call_value_def)

lemma analyze_dom_starts: "prefix (tr @ [Content]) (snd (analyze_dom w ctx tr))"
proof (cases "raises w tr Content")
  case None
  have "prefix (tr @ [Content]) (snd (extract_interactive_elements w (tr @ [Content])))"
    using interactive_of_selectors_grows [of "tr @ [Content]" "tr @ [Content]" w clickable_selectors "[]"]
    by (cases "interactive_of_selectors w clickable_selectors [] (tr @ [Content])")
       (simp add: extract_interactive_elements_def)
  then show ?thesis
    using None
    by (cases "extract_interactive_elements w (tr @ [Content])")
       (simp add: analyze_dom_def call_value_def Let_def)
next
  case (Some e)
  then show ?thesis by (simp add: analyze_dom_def call_value_def)
qed

lemma analyze_performance_starts:
  "prefix (tr @ [Evaluate PerformanceScript]) (snd (analyze_performance w lt tr))"
  by (cases "raises w tr (Evaluate PerformanceScript)"; cases "performance_script (document w tr)")
     (simp_all add: analyze_performance_def call_value_def)

lemma analyze_accessibility_starts:
  "prefix (tr @ [Evaluate AccessibilityScript]) (snd (analyze_accessibility w tr))"
  by (cases "raises w tr (Evaluate AccessibilityScript)")
     (simp_all add: analyze_accessibility_def call_value_def)

lemma responsive_loop_starts:
  "prefix (tr @ [SetViewportSize [(''width'', width), (''height'', height)]])
          (snd (snd (responsive_loop w ((name, width, height) # bps) data tr)))"
proof -
  let ?ev = "SetViewportSize [(''width'', width), (''height'', height)]"
  let ?t0 = "tr @ [?ev]"
  let ?m = "and_then (call w ?ev tr) (\<lambda>_ tr.
            and_then (call w (WaitForTimeout 1000) tr) (\<lambda>_ tr.
            call_value w (Evaluate OverflowScript)
              (\<lambda>t. doc_scroll_width (document w t) > doc_client_width (document w t)) tr))"
  have g: "prefix ?t0 (snd ?m)"
  proof (rule and_then_grows)
    show "prefix ?t0 (snd (call w ?ev tr))" by (simp add: call_trace)
  next
    fix x :: unit and t
    assume "prefix ?t0 t"
    then show "prefix ?t0 (snd (and_then (call w (WaitForTimeout 1000) t) (\<lambda>_ tr.
            call_value w (Evaluate OverflowScript)
              (\<lambda>t. doc_scroll_width (document w t) > doc_client_width (document w t)) tr)))"
      by (intro and_then_grows call_grows call_value_grows)
  qed
  obtain x tr' where m: "?m = (x, tr')" by (meson surj_pair)
  then have p: "prefix ?t0 tr'" using g by simp
  show ?thesis
    using m p responsive_loop_grows [OF p] by (cases x) simp_all
qed

lemma test_responsive_starts:
  "prefix (tr @ [SetViewportSize [(''width'', 375), (''height'', 667)]]) (snd (test_responsive w tr))"
proof -
  let ?t0 = "tr @ [SetViewportSize [(''width'', 375), (''height'', 667)]]"
  let ?r = "responsive_loop w breakpoints \<lparr>rr_breakpoints = [], rr_issues = []\<rparr> tr"
  have "prefix ?t0 (snd (snd ?r))"
    unfolding breakpoints_def by (rule responsive_loop_starts)
  then show ?thesis
    by (cases ?r; cases "fst ?r") (simp_all add: test_responsive_def prefix_order.trans)
qed

lemma navigation_links_pair:
  "navigation_links w hs links t = (ls, t') \<Longrightarrow> prefix t0 t \<Longrightarrow> prefix t0 t'"
  using navigation_links_grows [of t0 t w hs links] by simp

lemma analyze_interactions_starts:
  "prefix (tr @ [QuerySelectorAll clickable_query]) (snd (analyze_interactions w ctx tr))"
  unfolding analyze_interactions_def interactions_failed_def Let_def call_value_def
  by (auto split: option.splits prod.splits intro: navigation_links_pair)

lemma run_stages_fallbacks:
  "option_get options ''screenshot'' True \<and> (\<forall>t. raises w t Screenshot \<noteq> None)
     \<longrightarrow> fc_screenshot (fst (run_stages w options lt s)) = Some []"
  "option_get options ''dom_analysis'' True \<and> (\<forall>t. raises w t Content \<noteq> None)
     \<longrightarrow> fc_elements (fst (run_stages w options lt s)) = fc_elements (fst s)
         \<and> fc_forms (fst (run_stages w options lt s)) = fc_forms (fst s)
         \<and> fc_buttons (fst (run_stages w options lt s)) = fc_buttons (fst s)
         \<and> fc_links (fst (run_stages w options lt s)) = fc_links (fst s)
         \<and> fc_inputs (fst (run_stages w options lt s)) = fc_inputs (fst s)
         \<and> fc_interactive (fst (run_stages w options lt s)) = fc_interactive (fst s)
         \<and> fc_raw_html (fst (run_stages w options lt s)) = fc_raw_html (fst s)"
  "option_get options ''performance'' True \<and> (\<forall>t. raises w t (Evaluate PerformanceScript) \<noteq> None)
     \<longrightarrow> fc_performance (fst (run_stages w options lt s)) =
           Some \<lparr>pm_load_time = lt, pm_first_contentful_paint = None,
                 pm_largest_contentful_paint = None, pm_dom_content_loaded = None,
                 pm_errors = [], pm_warnings = []\<rparr>"
  "option_get options ''accessibility'' True \<and> (\<forall>t. raises w t (Evaluate AccessibilityScript) \<noteq> None)
     \<longrightarrow> fc_accessibility (fst (run_stages w options lt s)) = Some \<lparr>ar_issues = [], ar_score = 0\<rparr>"
  "option_get options ''responsive'' False
     \<and> (\<forall>t. raises w t (SetViewportSize [(''width'', 375), (''height'', 667)]) \<noteq> None)
     \<longrightarrow> fc_responsive (fst (run_stages w options lt s)) = Some \<lparr>rr_breakpoints = [], rr_issues = []\<rparr>"
  "(\<forall>t. raises w t (QuerySelectorAll clickable_query) \<noteq> None)
     \<longrightarrow> fc_interactions (fst (run_stages w options lt s)) =
           Some \<lparr>is_clickable_count = 0, is_focusable_count = 0,
                 is_form_count = length (fc_forms (fst (run_stages w options lt s))),
                 is_navigation_links = [], is_can_scroll = False\<rparr>"
proof -
  let ?final = "fst (run_stages w options lt s)"
  let ?s1 = "screenshot_stage w options s"
  let ?s2 = "dom_stage w options ?s1"
  let ?s3 = "performance_stage w options lt ?s2"
  let ?s4 = "accessibility_stage w options ?s3"
  let ?s5 = "responsive_stage w options ?s4"
  obtain i where f: "?final = (fst ?s5)\<lparr>fc_interactions := Some i\<rparr>"
    using interactions_stage_ctx [of w ?s5] by (auto simp: run_stages_def)
  have shot: "fc_screenshot ?final = Some []"
    if "option_get options ''screenshot'' True" "\<forall>t. raises w t Screenshot \<noteq> None"
    using that
    by (simp add: f responsive_stage_ctx accessibility_stage_ctx performance_stage_ctx
          dom_stage_ctx analyze_dom_ctx screenshot_stage_ctx screenshot_fallback)
  have dom: "fc_elements ?final = fc_elements (fst s) \<and> fc_forms ?final = fc_forms (fst s)
                \<and> fc_buttons ?final = fc_buttons (fst s) \<and> fc_links ?final = fc_links (fst s)
                \<and> fc_inputs ?final = fc_inputs (fst s) \<and> fc_interactive ?final = fc_interactive (fst s)
                \<and> fc_raw_html ?final = fc_raw_html (fst s)"
    if "option_get options ''dom_analysis'' True" "\<forall>t. raises w t Content \<noteq> None"
    using that
    by (simp add: f responsive_stage_ctx accessibility_stage_ctx performance_stage_ctx
          dom_stage_ctx dom_fallback screenshot_stage_ctx)
  have perf: "fc_performance ?final =
                  Some \<lparr>pm_load_time = lt, pm_first_contentful_paint = None,
                        pm_largest_contentful_paint = None, pm_dom_content_loaded = None,
                        pm_errors = [], pm_warnings = []\<rparr>"
    if "option_get options ''performance'' True" "\<forall>t. raises w t (Evaluate PerformanceScript) \<noteq> None"
    using that
    by (simp add: f responsive_stage_ctx accessibility_stage_ctx performance_stage_ctx
          performance_fallback)
  have a11y: "fc_accessibility ?final = Some \<lparr>ar_issues = [], ar_score = 0\<rparr>"
    if "option_get options ''accessibility'' True" "\<forall>t. raises w t (Evaluate AccessibilityScript) \<noteq> None"
    using that
    by (simp add: f responsive_stage_ctx accessibility_stage_ctx accessibility_fallback)
  have resp: "fc_responsive ?final = Some \<lparr>rr_breakpoints = [], rr_issues = []\<rparr>"
    if "option_get options ''responsive'' False"
       "\<forall>t. raises w t (SetViewportSize [(''width'', 375), (''height'', 667)]) \<noteq> None"
    using that
    by (simp add: f responsive_stage_ctx responsive_fallback)
  have inter: "fc_interactions ?final =
                  Some \<lparr>is_clickable_count = 0, is_focusable_count = 0,
                        is_form_count = length (fc_forms ?final), is_navigation_links = [],
                        is_can_scroll = False\<rparr>"
    if h: "\<forall>t. raises w t (QuerySelectorAll clickable_query) \<noteq> None"
  proof -
    have "?final = fst (analyze_interactions w (fst ?s5) (snd ?s5))"
      by (cases ?s5) (simp add: run_stages_def interactions_stage_def)
    then show ?thesis
      by (simp add: interactions_fallback [OF h])
  qed
  show "option_get options ''screenshot'' True \<and> (\<forall>t. raises w t Screenshot \<noteq> None)
     \<longrightarrow> fc_screenshot (fst (run_stages w options lt s)) = Some []"
    using shot by blast
  show "option_get options ''dom_analysis'' True \<and> (\<forall>t. raises w t Content \<noteq> None)
     \<longrightarrow> fc_elements (fst (run_stages w options lt s)) = fc_elements (fst s)
         \<and> fc_forms (fst (run_stages w options lt s)) = fc_forms (fst s)
         \<and> fc_buttons (fst (run_stages w options lt s)) = fc_buttons (fst s)
         \<and> fc_links (fst (run_stages w options lt s)) = fc_links (fst s)
         \<and> fc_inputs (fst (run_stages w options lt s)) = fc_inputs (fst s)
         \<and> fc_interactive (fst (run_stages w options lt s)) = fc_interactive (fst s)
         \<and> fc_raw_html (fst (run_stages w options lt s)) = fc_raw_html (fst s)"
    using dom by blast
  show "option_get options ''performance'' True \<and> (\<forall>t. raises w t (Evaluate PerformanceScript) \<noteq> None)
     \<longrightarrow> fc_performance (fst (run_stages w options lt s)) =
           Some \<lparr>pm_load_time = lt, pm_first_contentful_paint = None,
                 pm_largest_contentful_paint = None, pm_dom_content_loaded = None,
                 pm_errors = [], pm_warnings = []\<rparr>"
    using perf by blast
  show "option_get options ''accessibility'' True \<and> (\<forall>t. raises w t (Evaluate AccessibilityScript) \<noteq> None)
     \<longrightarrow> fc_accessibility (fst (run_stages w options lt s)) = Some \<lparr>ar_issues = [], ar_score = 0\<rparr>"
    using a11y by blast
  show "option_get options ''responsive'' False
     \<and> (\<forall>t. raises w t (SetViewportSize [(''width'', 375), (''height'', 667)]) \<noteq> None)
     \<longrightarrow> fc_responsive (fst (run_stages w options lt s)) = Some \<lparr>rr_breakpoints = [], rr_issues = []\<rparr>"
    using resp by blast
  show "(\<forall>t. raises w t (QuerySelectorAll clickable_query) \<noteq> None)
     \<longrightarrow> fc_interactions (fst (run_stages w options lt s)) =
           Some \<lparr>is_clickable_count = 0, is_focusable_count = 0,
                 is_form_count = length (fc_forms (fst (run_stages w options lt s))),
                 is_navigation_links = [], is_can_scroll = False\<rparr>"
    using inter by blast
qed

section \<open>What each stage leaves in the context\<close>

lemma capture_screenshot_cases:
  "fst (capture_screenshot w tr) =
     (if raises w tr Screenshot = None then screenshot_b64 w tr else [])"
  by (cases "raises w tr Screenshot") (simp_all add: capture_screenshot_def call_value_def)

lemma analyze_performance_cases:
  "fst (analyze_performance w lt tr) =
     (if raises w tr (Evaluate PerformanceScript) = None
      then \<lparr>pm_load_time = lt,
            pm_first_contentful_paint = snd (performance_script (document w tr)),
            pm_largest_contentful_paint = None,
            pm_dom_content_loaded = Some (fst (performance_script (document w tr))),
            pm_errors = [], pm_warnings = []\<rparr>
      else \<lparr>pm_load_time = lt, pm_first_contentful_paint = None,
            pm_largest_contentful_paint = None, pm_dom_content_loaded = None,
            pm_errors = [], pm_warnings = []\<rparr>)"
  by (cases "raises w tr (Evaluate PerformanceScript)"; cases "performance_script (document w tr)")
     (simp_all add: analyze_performance_def call_value_def)

lemma responsive_loop_step:
  "responsive_loop w ((name, width, height) # bps) data tr =
     (let ev = SetViewportSize [(''width'', width), (''height'', height)];
          t1 = tr @ [ev]; t2 = t1 @ [WaitForTimeout 1000]; t3 = t2 @ [Evaluate OverflowScript]
      in if raises w tr ev \<noteq> None then (Inl (the (raises w tr ev)), data, t1)
         else if raises w t1 (WaitForTimeout 1000) \<noteq> None
         then (Inl (the (raises w t1 (WaitForTimeout 1000))), data, t2)
         else if raises w t2 (Evaluate OverflowScript) \<noteq> None
         then (Inl (the (raises w t2 (Evaluate OverflowScript))), data, t3)
         else responsive_loop w bps
                \<lparr>rr_breakpoints = rr_breakpoints data @
                   [\<lparr>bp_name = name, bp_width = width, bp_height = height,
                     bp_has_horizontal_scroll =
                       (doc_scroll_width (document w t2) > doc_client_width (document w t2))\<rparr>],
                 rr_issues = rr_issues data @
                   (if doc_scroll_width (document w t2) > doc_client_width (document w t2)
                    then [\<lparr>ri_breakpoint = name, ri_issue = ''horizontal_overflow'',
                           ri_description = ''Page has horizontal overflow at '' @ name @ '' viewport''\<rparr>]
                    else [])\<rparr> t3)"
  by (cases "raises w tr (SetViewportSize [(''width'', width), (''height'', height)])";
      cases "raises w (tr @ [SetViewportSize [(''width'', width), (''height'', height)]])
               (WaitForTimeout 1000)";
      cases "raises w (tr @ [SetViewportSize [(''width'', width), (''height'', height)],
                             WaitForTimeout 1000]) (Evaluate OverflowScript)")
     (simp_all add: and_then_def call_def call_value_def Let_def)

lemma responsive_loop_data:
  "fst (snd (responsive_loop w bps data tr)) =
     \<lparr>rr_breakpoints = rr_breakpoints data @ completed_breakpoints w bps tr,
      rr_issues = rr_issues data @ overflow_issues (completed_breakpoints w bps tr)\<rparr>"
proof (induction bps arbitrary: data tr)
  case Nil
  then show ?case by (simp add: overflow_issues_def)
next
  case (Cons bp bps)
  obtain name width height where bp: "bp = (name, width, height)" by (cases bp) auto
  show ?case
    unfolding bp
    by (subst responsive_loop_step)
       (simp add: Let_def Cons.IH overflow_issues_def del: responsive_loop.simps)
qed

lemma test_responsive_completed:
  "fst (test_responsive w tr) =
     \<lparr>rr_breakpoints = completed_breakpoints w breakpoints tr,
      rr_issues = overflow_issues (completed_breakpoints w breakpoints tr)\<rparr>"
proof -
  let ?r = "responsive_loop w breakpoints \<lparr>rr_breakpoints = [], rr_issues = []\<rparr> tr"
  have "fst (test_responsive w tr) = fst (snd ?r)"
    by (cases ?r; cases "fst ?r") (simp_all add: test_responsive_def)
  then show ?thesis by (simp add: responsive_loop_data)
qed

lemma analyze_interactions_filled:
  "fst (analyze_interactions w ctx tr) =
     ctx\<lparr>fc_interactions := Some (summary_filled w (length (fc_forms ctx)) tr)\<rparr>"
proof -
  let ?t1 = "tr @ [QuerySelectorAll clickable_query]"
  let ?t2 = "?t1 @ [QuerySelectorAll focusable_query]"
  let ?t3 = "?t2 @ [Evaluate ScrollHeightScript]"
  let ?t4 = "?t3 @ [Evaluate ClientHeightScript]"
  let ?t5 = "?t4 @ [QuerySelectorAll nav_query]"
  show ?thesis
  proof (cases "raises w tr (QuerySelectorAll clickable_query)")
    case (Some e)
    then show ?thesis
      by (simp add: analyze_interactions_def interactions_failed_def call_value_def Let_def
            summary_filled_def)
  next
    case n1: None
    show ?thesis
    proof (cases "raises w ?t1 (QuerySelectorAll focusable_query)")
      case (Some e)
      then show ?thesis using n1
        by (simp add: analyze_interactions_def interactions_failed_def call_value_def Let_def
              summary_filled_def)
    next
      case n2: None
      show ?thesis
      proof (cases "raises w ?t2 (Evaluate ScrollHeightScript)")
        case (Some e)
        then show ?thesis using n1 n2
          by (simp add: analyze_interactions_def interactions_failed_def call_value_def Let_def
                summary_filled_def)
      next
        case n3: None
        show ?thesis
        proof (cases "raises w ?t3 (Evaluate ClientHeightScript)")
          case (Some e)
          then show ?thesis using n1 n2 n3
            by (simp add: analyze_interactions_def interactions_failed_def call_value_def Let_def
                  summary_filled_def)
        next
          case n4: None
          show ?thesis
          proof (cases "raises w ?t4 (QuerySelectorAll nav_query)")
            case (Some e)
            then show ?thesis using n1 n2 n3 n4
              by (simp add: analyze_interactions_def interactions_failed_def call_value_def Let_def
                    summary_filled_def)
          next
            case n5: None
            show ?thesis using n1 n2 n3 n4 n5
              by (cases "navigation_links w (take 10 (selected w ?t4 nav_query)) [] ?t5")
                 (simp add: analyze_interactions_def interactions_failed_def call_value_def Let_def
                    summary_filled_def)
          qed
        qed
      qed
    qed
  qed
qed

lemma interactions_stage_filled:
  "fst (interactions_stage w s) =
     (fst s)\<lparr>fc_interactions := Some (summary_filled w (length (fc_forms (fst s))) (snd s))\<rparr>"
  by (cases s) (simp add: interactions_stage_def analyze_interactions_filled)

lemma stage_starts:
  "option_get options ''screenshot'' True \<longrightarrow>
     prefix (snd s @ [Screenshot]) (snd (screenshot_stage w options s))"
  "option_get options ''dom_analysis'' True \<longrightarrow>
     prefix (snd s @ [Content]) (snd (dom_stage w options s))"
  "option_get options ''performance'' True \<longrightarrow>
     prefix (snd s @ [Evaluate PerformanceScript]) (snd (performance_stage w options lt s))"
  "option_get options ''accessibility'' True \<longrightarrow>
     prefix (snd s @ [Evaluate AccessibilityScript]) (snd (accessibility_stage w options s))"
  "option_get options ''responsive'' False \<longrightarrow>
     prefix (snd s @ [SetViewportSize [(''width'', 375), (''height'', 667)]])
            (snd (responsive_stage w options s))"
  "prefix (snd s @ [QuerySelectorAll clickable_query]) (snd (interactions_stage w s))"
proof -
  show "option_get options ''screenshot'' True \<longrightarrow>
     prefix (snd s @ [Screenshot]) (snd (screenshot_stage w options s))"
    using capture_screenshot_starts [of "snd s" w]
    by (cases s; cases "capture_screenshot w (snd s)") (simp add: screenshot_stage_def)
  show "option_get options ''dom_analysis'' True \<longrightarrow>
     prefix (snd s @ [Content]) (snd (dom_stage w options s))"
    using analyze_dom_starts [of "snd s" w "fst s"]
    by (cases s) (simp add: dom_stage_def)
  show "option_get options ''performance'' True \<longrightarrow>
     prefix (snd s @ [Evaluate PerformanceScript]) (snd (performance_stage w options lt s))"
    using analyze_performance_starts [of "snd s" w lt]
    by (cases s; cases "analyze_performance w lt (snd s)") (simp add: performance_stage_def)
  show "option_get options ''accessibility'' True \<longrightarrow>
     prefix (snd s @ [Evaluate AccessibilityScript]) (snd (accessibility_stage w options s))"
    using analyze_accessibility_starts [of "snd s" w]
    by (cases s; cases "analyze_accessibility w (snd s)") (simp add: accessibility_stage_def)
  show "option_get options ''responsive'' False \<longrightarrow>
     prefix (snd s @ [SetViewportSize [(''width'', 375), (''height'', 667)]])
            (snd (responsive_stage w options s))"
    using test_responsive_starts [of "snd s" w]
    by (cases s; cases "test_responsive w (snd s)") (simp add: responsive_stage_def)
  show "prefix (snd s @ [QuerySelectorAll clickable_query]) (snd (interactions_stage w s))"
    using analyze_interactions_starts [of "snd s" w "fst s"]
    by (cases s) (simp add: interactions_stage_def)
qed

section \<open>When a capture reaches its stages\<close>

lemma capture_body_reaches:
  assumes "raises w (t0 @ [OnConsole]) (Goto url) = None"
    "raises w (t0 @ [OnConsole, Goto url]) Title = None"
    "viewport_size w (t0 @ [OnConsole, Goto url, Title]) = Some vp"
  shows "capture_body w url opts t0 =
     (Inr (fst (run_stages w opts (now w (t0 @ [OnConsole, Goto url]) - now w (t0 @ [OnConsole]))
                  (initial_context (now w (t0 @ [OnConsole, Goto url, Title]))
                     (page_url w (t0 @ [OnConsole, Goto url, Title]))
                     (page_title w (t0 @ [OnConsole, Goto url])) vp
                     (console w (t0 @ [OnConsole, Goto url, Title])),
                   t0 @ [OnConsole, Goto url, Title]))),
      snd (run_stages w opts (now w (t0 @ [OnConsole, Goto url]) - now w (t0 @ [OnConsole]))
                  (initial_context (now w (t0 @ [OnConsole, Goto url, Title]))
                     (page_url w (t0 @ [OnConsole, Goto url, Title]))
                     (page_title w (t0 @ [OnConsole, Goto url])) vp
                     (console w (t0 @ [OnConsole, Goto url, Title])),
                   t0 @ [OnConsole, Goto url, Title]))
        @ [LogInfo (''Successfully captured context for '' @ url)])"
proof -
  let ?S = "run_stages w opts (now w (t0 @ [OnConsole, Goto url]) - now w (t0 @ [OnConsole]))
                  (initial_context (now w (t0 @ [OnConsole, Goto url, Title]))
                     (page_url w (t0 @ [OnConsole, Goto url, Title]))
                     (page_title w (t0 @ [OnConsole, Goto url])) vp
                     (console w (t0 @ [OnConsole, Goto url, Title])),
                   t0 @ [OnConsole, Goto url, Title])"
  show ?thesis
    using assms
    by (cases ?S) (simp add: capture_body_def and_then_def call_def call_value_def Let_def)
qed

lemma capture_body_fails:
  assumes "\<not> (raises w (t0 @ [OnConsole]) (Goto url) = None
              \<and> raises w (t0 @ [OnConsole, Goto url]) Title = None
              \<and> viewport_size w (t0 @ [OnConsole, Goto url, Title]) \<noteq> None)"
  shows "\<exists>e. fst (capture_body w url opts t0) = Inl e"
proof (cases "raises w (t0 @ [OnConsole]) (Goto url)")
  case (Some e)
  then show ?thesis
    by (simp add: capture_body_def and_then_def call_def Let_def)
next
  case g: None
  show ?thesis
  proof (cases "raises w (t0 @ [OnConsole, Goto url]) Title")
    case (Some e)
    then show ?thesis using g
      by (simp add: capture_body_def and_then_def call_def call_value_def Let_def)
  next
    case t: None
    then have "viewport_size w (t0 @ [OnConsole, Goto url, Title]) = None"
      using assms g by blast
    then show ?thesis using g t
      by (simp add: capture_body_def and_then_def call_def call_value_def Let_def)
  qed
qed

lemma close_after_failure:
  "fst (capture_body w url opts t0) = Inl e \<Longrightarrow>
   returned (case capture_body w url opts t0 of
               (Inr ctx, tr3) \<Rightarrow>
                 (case call w PageClose tr3 of
                    (Inl e', tr4) \<Rightarrow> (Inl e', tr4)
                  | (Inr _, tr4) \<Rightarrow> (Inr ctx, tr4))
             | (Inl e, tr3) \<Rightarrow>
                 (case call w PageClose
                         (tr3 @ [LogError (''Error capturing frontend context: '' @ e)]) of
                    (Inl e', tr4) \<Rightarrow> (Inl e', tr4)
                  | (Inr _, tr4) \<Rightarrow> (Inl e, tr4))) = None"
  by (cases "capture_body w url opts t0";
      cases "raises w (snd (capture_body w url opts t0)
                       @ [LogError (''Error capturing frontend context: '' @ e)]) PageClose")
     (simp_all add: returned_def call_def)

lemma capture_frontend_fails:
  assumes "\<not> reaches_stages w url viewport tr"
  shows "returned (capture_frontend w url options viewport tr) = None"
proof (cases "raises w tr NewPage")
  case (Some e)
  then show ?thesis by (simp add: capture_frontend_def call_def returned_def Let_def)
next
  case n: None
  let ?o = "case options of None \<Rightarrow> default_options | Some os \<Rightarrow> os"
  show ?thesis
  proof (cases "truthy_dict viewport")
    case None
    then have "\<exists>e. fst (capture_body w url ?o (tr @ [NewPage])) = Inl e"
      using assms n capture_body_fails [of w "tr @ [NewPage]" url ?o]
      by (simp add: reaches_stages_def entry_trace_def)
    then obtain e where "fst (capture_body w url ?o (tr @ [NewPage])) = Inl e" by blast
    from close_after_failure [OF this] show ?thesis
      using n None by (simp add: capture_frontend_def call_def Let_def)
  next
    case (Some v)
    show ?thesis
    proof (cases "raises w (tr @ [NewPage]) (SetViewportSize v)")
      case s: (Some e)
      then show ?thesis using n Some
        by (simp add: capture_frontend_def call_def returned_def Let_def)
    next
      case s: None
      then have "\<exists>e. fst (capture_body w url ?o (tr @ [NewPage, SetViewportSize v])) = Inl e"
        using assms n Some capture_body_fails [of w "tr @ [NewPage, SetViewportSize v]" url ?o]
        by (simp add: reaches_stages_def entry_trace_def)
      then obtain e where "fst (capture_body w url ?o (tr @ [NewPage, SetViewportSize v])) = Inl e"
        by blast
      from close_after_failure [OF this] show ?thesis
        using n Some s by (simp add: capture_frontend_def call_def Let_def)
    qed
  qed
qed

lemma capture_frontend_reaches:
  assumes "reaches_stages w url viewport tr"
    and "t1 = entry_trace viewport tr @ [OnConsole, Goto url, Title]"
    and "S = run_stages w (case options of None \<Rightarrow> default_options | Some os \<Rightarrow> os)
               (now w (entry_trace viewport tr @ [OnConsole, Goto url])
                  - now w (entry_trace viewport tr @ [OnConsole]))
               (initial_context (now w t1) (page_url w t1)
                  (page_title w (entry_trace viewport tr @ [OnConsole, Goto url]))
                  (the (viewport_size w t1)) (console w t1), t1)"
  shows "capture_frontend w url options viewport tr =
     ((case raises w (snd S @ [LogInfo (''Successfully captured context for '' @ url)]) PageClose of
         None \<Rightarrow> Inr (fst S) | Some e \<Rightarrow> Inl e),
      snd S @ [LogInfo (''Successfully captured context for '' @ url), PageClose])"
proof -
  let ?o = "case options of None \<Rightarrow> default_options | Some os \<Rightarrow> os"
  let ?t0 = "entry_trace viewport tr"
  obtain vp where vp: "viewport_size w (?t0 @ [OnConsole, Goto url, Title]) = Some vp"
    using assms(1) by (auto simp: reaches_stages_def)
  have g: "raises w (?t0 @ [OnConsole]) (Goto url) = None"
    "raises w (?t0 @ [OnConsole, Goto url]) Title = None"
    using assms(1) by (simp_all add: reaches_stages_def)
  have b: "capture_body w url ?o ?t0 =
             (Inr (fst S), snd S @ [LogInfo (''Successfully captured context for '' @ url)])"
    using capture_body_reaches [OF g vp, of ?o] by (simp add: assms(2,3) vp)
  have n: "raises w tr NewPage = None" using assms(1) by (simp add: reaches_stages_def)
  show ?thesis
  proof (cases "truthy_dict viewport")
    case None
    then have t: "?t0 = tr @ [NewPage]" by (simp add: entry_trace_def)
    show ?thesis
      using n None b [unfolded t]
      by (cases "raises w (snd S @ [LogInfo (''Successfully captured context for '' @ url)]) PageClose")
         (simp_all add: capture_frontend_def call_def Let_def)
  next
    case (Some v)
    then have t: "?t0 = tr @ [NewPage, SetViewportSize v]" by (simp add: entry_trace_def)
    have s: "raises w (tr @ [NewPage]) (SetViewportSize v) = None"
      using assms(1) Some by (simp add: reaches_stages_def)
    show ?thesis
      using n Some s b [unfolded t]
      by (cases "raises w (snd S @ [LogInfo (''Successfully captured context for '' @ url)]) PageClose")
         (simp_all add: capture_frontend_def call_def Let_def)
  qed
qed

section \<open>Stage failures of a capture\<close>

text \<open>
  C2 (as the claim states it, refuted). With the default options and a page on which
  the accessibility script cannot be evaluated, the capture returns a context whose
  accessibility field is the fallback record with no issues and score 0, not the
  default empty dictionary the field has in a fresh context.
\<close>

theorem failed_stage_field_is_not_default:
  "map_option fc_accessibility
     (returned (capture_frontend audit_failure_world local_url None None []))
     = Some (Some \<lparr>ar_issues = [], ar_score = 0\<rparr>)
   \<and> fc_accessibility (initial_context 0 [] [] (0, 0) []) = None"
proof -
  let ?w = audit_failure_world
  obtain lt ts u ti vp lg t0 where c:
    "capture_frontend ?w local_url None None [] =
       (Inr (fst (run_stages ?w default_options lt (initial_context ts u ti vp lg, t0))),
        snd (run_stages ?w default_options lt (initial_context ts u ti vp lg, t0))
          @ [LogInfo (''Successfully captured context for '' @ local_url), PageClose])"
    using capture_frontend_succeeds [where w = ?w and url = local_url and options = None
            and viewport = None and tr = "[]"]
    by (auto simp add: audit_failure_world_def quiet_preamble)
  have "fc_accessibility (fst (run_stages ?w default_options lt (initial_context ts u ti vp lg, t0)))
          = Some \<lparr>ar_issues = [], ar_score = 0\<rparr>"
    using run_stages_fallbacks(4) [where options = default_options and w = ?w and lt = lt
            and s = "(initial_context ts u ti vp lg, t0)"]
    by (simp add: audit_failure_world_def quiet_preamble option_get_def default_options_def)
  then show ?thesis by (simp add: c returned_def initial_context_def)
qed

text \<open>
  C2 (amended). The capture reaches its stages exactly when requesting the page, setting
  a requested viewport, the navigation and reading the title do not raise and the page
  reports a viewport size; otherwise it fails before any stage. Once the stages are
  reached, no failure inside a stage makes the capture fail: the page is closed last,
  and the context is returned unless closing the page raises. Every enabled stage is
  started in the trace that the stage before it left, whatever that stage did, and the
  interaction summary always is. The field of a stage holds the result of the stage
  when its calls return, and otherwise its fallback: the empty string for the
  screenshot; the empty DOM collections and no markup, as in a fresh context, when the
  markup cannot be fetched; a performance record that holds only the load time, which
  is measured around the navigation; the accessibility record with no issues and score
  0; the responsive record with the breakpoints completed before the failing call and
  the overflow issues of those; the interaction summary with the entries filled before
  the failing call, the others at their initial values, and the number of forms. The
  field of a disabled stage keeps its default.
\<close>

theorem capture_absorbs_stage_failures:
  assumes "opts = (case options of None \<Rightarrow> default_options | Some os \<Rightarrow> os)"
    and "t1 = entry_trace viewport tr @ [OnConsole, Goto url, Title]"
    and "load_time = now w (entry_trace viewport tr @ [OnConsole, Goto url])
                       - now w (entry_trace viewport tr @ [OnConsole])"
    and "s0 = (initial_context (now w t1) (page_url w t1)
                 (page_title w (entry_trace viewport tr @ [OnConsole, Goto url]))
                 (the (viewport_size w t1)) (console w t1), t1)"
    and "s1 = screenshot_stage w opts s0"
    and "s2 = dom_stage w opts s1"
    and "s3 = performance_stage w opts load_time s2"
    and "s4 = accessibility_stage w opts s3"
    and "s5 = responsive_stage w opts s4"
    and "s6 = interactions_stage w s5"
    and "closing = snd s6 @ [LogInfo (''Successfully captured context for '' @ url)]"
  shows "(\<not> reaches_stages w url viewport tr
            \<longrightarrow> returned (capture_frontend w url options viewport tr) = None)
     \<and> (reaches_stages w url viewport tr
            \<longrightarrow> capture_frontend w url options viewport tr
                  = ((case raises w closing PageClose of
                        None \<Rightarrow> Inr (fst s6) | Some e \<Rightarrow> Inl e),
                     closing @ [PageClose]))
     \<and> (option_get opts ''screenshot'' True \<longrightarrow> prefix (snd s0 @ [Screenshot]) (snd s1))
     \<and> (option_get opts ''dom_analysis'' True \<longrightarrow> prefix (snd s1 @ [Content]) (snd s2))
     \<and> (option_get opts ''performance'' True
            \<longrightarrow> prefix (snd s2 @ [Evaluate PerformanceScript]) (snd s3))
     \<and> (option_get opts ''accessibility'' True
            \<longrightarrow> prefix (snd s3 @ [Evaluate AccessibilityScript]) (snd s4))
     \<and> (option_get opts ''responsive'' False
            \<longrightarrow> prefix (snd s4 @ [SetViewportSize [(''width'', 375), (''height'', 667)]]) (snd s5))
     \<and> prefix (snd s5 @ [QuerySelectorAll clickable_query]) (snd s6)
     \<and> fc_screenshot (fst s6) =
           (if option_get opts ''screenshot'' True
            then Some (if raises w (snd s0) Screenshot = None then screenshot_b64 w (snd s0) else [])
            else None)
     \<and> (option_get opts ''dom_analysis'' True \<and> raises w (snd s1) Content = None
            \<longrightarrow> fc_raw_html (fst s6) = Some (html w (snd s1))
                \<and> fc_elements (fst s6) = extract_dom_elements w (parse w (html w (snd s1)))
                \<and> fc_forms (fst s6) = extract_forms w (parse w (html w (snd s1)))
                \<and> fc_buttons (fst s6) = extract_buttons w (parse w (html w (snd s1)))
                \<and> fc_links (fst s6) = extract_links w (parse w (html w (snd s1)))
                \<and> fc_inputs (fst s6) = extract_inputs w (parse w (html w (snd s1)))
                \<and> fc_interactive (fst s6)
                    = fst (extract_interactive_elements w (snd s1 @ [Content])))
     \<and> (\<not> (option_get opts ''dom_analysis'' True \<and> raises w (snd s1) Content = None)
            \<longrightarrow> fc_raw_html (fst s6) = None \<and> fc_elements (fst s6) = []
                \<and> fc_forms (fst s6) = [] \<and> fc_buttons (fst s6) = []
                \<and> fc_links (fst s6) = [] \<and> fc_inputs (fst s6) = []
                \<and> fc_interactive (fst s6) = [])
     \<and> fc_performance (fst s6) =
           (if option_get opts ''performance'' True
            then Some (if raises w (snd s2) (Evaluate PerformanceScript) = None
                       then \<lparr>pm_load_time = load_time,
                             pm_first_contentful_paint = snd (performance_script (document w (snd s2))),
                             pm_largest_contentful_paint = None,
                             pm_dom_content_loaded = Some (fst (performance_script (document w (snd s2)))),
                             pm_errors = [], pm_warnings = []\<rparr>
                       else \<lparr>pm_load_time = load_time, pm_first_contentful_paint = None,
                             pm_largest_contentful_paint = None, pm_dom_content_loaded = None,
                             pm_errors = [], pm_warnings = []\<rparr>)
            else None)
     \<and> fc_accessibility (fst s6) =
           (if option_get opts ''accessibility'' True
            then Some (if raises w (snd s3) (Evaluate AccessibilityScript) = None
                       then accessibility_script (document w (snd s3))
                       else \<lparr>ar_issues = [], ar_score = 0\<rparr>)
            else None)
     \<and> fc_responsive (fst s6) =
           (if option_get opts ''responsive'' False
            then Some \<lparr>rr_breakpoints = completed_breakpoints w breakpoints (snd s4),
                       rr_issues = overflow_issues (completed_breakpoints w breakpoints (snd s4))\<rparr>
            else None)
     \<and> fc_interactions (fst s6)
           = Some (summary_filled w (length (fc_forms (fst s6))) (snd s5))"
proof -
  have c1: "fst s1 = (if option_get opts ''screenshot'' True
      then (fst s0)\<lparr>fc_screenshot := Some (fst (capture_screenshot w (snd s0)))\<rparr> else fst s0)"
    unfolding assms(5) by (rule screenshot_stage_ctx)
  have c2: "fst s2 = (if option_get opts ''dom_analysis'' True \<and> raises w (snd s1) Content = None
      then (fst s1)\<lparr>fc_raw_html := Some (html w (snd s1)),
               fc_elements := extract_dom_elements w (parse w (html w (snd s1))),
               fc_forms := extract_forms w (parse w (html w (snd s1))),
               fc_buttons := extract_buttons w (parse w (html w (snd s1))),
               fc_links := extract_links w (parse w (html w (snd s1))),
               fc_inputs := extract_inputs w (parse w (html w (snd s1))),
               fc_interactive := fst (extract_interactive_elements w (snd s1 @ [Content]))\<rparr>
      else fst s1)"
    unfolding assms(6) by (simp add: dom_stage_ctx analyze_dom_ctx)
  have c3: "fst s3 = (if option_get opts ''performance'' True
      then (fst s2)\<lparr>fc_performance := Some (fst (analyze_performance w load_time (snd s2)))\<rparr>
      else fst s2)"
    unfolding assms(7) by (rule performance_stage_ctx)
  have c4: "fst s4 = (if option_get opts ''accessibility'' True
      then (fst s3)\<lparr>fc_accessibility := Some (fst (analyze_accessibility w (snd s3)))\<rparr>
      else fst s3)"
    unfolding assms(8) by (rule accessibility_stage_ctx)
  have c5: "fst s5 = (if option_get opts ''responsive'' False
      then (fst s4)\<lparr>fc_responsive := Some (fst (test_responsive w (snd s4)))\<rparr> else fst s4)"
    unfolding assms(9) by (rule responsive_stage_ctx)
  have c6: "fst s6 = (fst s5)\<lparr>fc_interactions :=
              Some (summary_filled w (length (fc_forms (fst s5))) (snd s5))\<rparr>"
    unfolding assms(10) by (rule interactions_stage_filled)
  have i0: "fc_screenshot (fst s0) = None" "fc_raw_html (fst s0) = None"
    "fc_elements (fst s0) = []" "fc_forms (fst s0) = []" "fc_buttons (fst s0) = []"
    "fc_links (fst s0) = []" "fc_inputs (fst s0) = []" "fc_interactive (fst s0) = []"
    "fc_performance (fst s0) = None" "fc_accessibility (fst s0) = None"
    "fc_responsive (fst s0) = None"
    unfolding assms(4) by (simp_all add: initial_context_def)
  have fails: "\<not> reaches_stages w url viewport tr
            \<longrightarrow> returned (capture_frontend w url options viewport tr) = None"
    using capture_frontend_fails by blast
  have S: "s6 = run_stages w (case options of None \<Rightarrow> default_options | Some os \<Rightarrow> os)
               (now w (entry_trace viewport tr @ [OnConsole, Goto url])
                  - now w (entry_trace viewport tr @ [OnConsole]))
               (initial_context (now w t1) (page_url w t1)
                  (page_title w (entry_trace viewport tr @ [OnConsole, Goto url]))
                  (the (viewport_size w t1)) (console w t1), t1)"
    unfolding assms(10) assms(9) assms(8) assms(7) assms(6) assms(5) assms(4) assms(3) assms(1)
    by (simp add: run_stages_def)
  have returns: "reaches_stages w url viewport tr
            \<longrightarrow> capture_frontend w url options viewport tr
                  = ((case raises w closing PageClose of
                        None \<Rightarrow> Inr (fst s6) | Some e \<Rightarrow> Inl e),
                     closing @ [PageClose])"
    using capture_frontend_reaches [OF _ assms(2) S] by (simp add: assms(11))
  have r1: "option_get opts ''screenshot'' True \<longrightarrow> prefix (snd s0 @ [Screenshot]) (snd s1)"
    unfolding assms(5) by (rule stage_starts(1))
  have r2: "option_get opts ''dom_analysis'' True \<longrightarrow> prefix (snd s1 @ [Content]) (snd s2)"
    unfolding assms(6) by (rule stage_starts(2))
  have r3: "option_get opts ''performance'' True
            \<longrightarrow> prefix (snd s2 @ [Evaluate PerformanceScript]) (snd s3)"
    unfolding assms(7) by (rule stage_starts(3))
  have r4: "option_get opts ''accessibility'' True
            \<longrightarrow> prefix (snd s3 @ [Evaluate AccessibilityScript]) (snd s4)"
    unfolding assms(8) by (rule stage_starts(4))
  have r5: "option_get opts ''responsive'' False
            \<longrightarrow> prefix (snd s4 @ [SetViewportSize [(''width'', 375), (''height'', 667)]]) (snd s5)"
    unfolding assms(9) by (rule stage_starts(5))
  have r6: "prefix (snd s5 @ [QuerySelectorAll clickable_query]) (snd s6)"
    unfolding assms(10) by (rule stage_starts(6))
  have f1: "fc_screenshot (fst s6) =
           (if option_get opts ''screenshot'' True
            then Some (if raises w (snd s0) Screenshot = None then screenshot_b64 w (snd s0) else [])
            else None)"
    by (simp add: c6 c5 c4 c3 c2 c1 i0 capture_screenshot_cases)
  have f2: "option_get opts ''dom_analysis'' True \<and> raises w (snd s1) Content = None
            \<longrightarrow> fc_raw_html (fst s6) = Some (html w (snd s1))
                \<and> fc_elements (fst s6) = extract_dom_elements w (parse w (html w (snd s1)))
                \<and> fc_forms (fst s6) = extract_forms w (parse w (html w (snd s1)))
                \<and> fc_buttons (fst s6) = extract_buttons w (parse w (html w (snd s1)))
                \<and> fc_links (fst s6) = extract_links w (parse w (html w (snd s1)))
                \<and> fc_inputs (fst s6) = extract_inputs w (parse w (html w (snd s1)))
                \<and> fc_interactive (fst s6)
                    = fst (extract_interactive_elements w (snd s1 @ [Content]))"
    by (simp add: c6 c5 c4 c3 c2)
  have f3: "\<not> (option_get opts ''dom_analysis'' True \<and> raises w (snd s1) Content = None)
            \<longrightarrow> fc_raw_html (fst s6) = None \<and> fc_elements (fst s6) = []
                \<and> fc_forms (fst s6) = [] \<and> fc_buttons (fst s6) = []
                \<and> fc_links (fst s6) = [] \<and> fc_inputs (fst s6) = []
                \<and> fc_interactive (fst s6) = []"
    by (simp add: c6 c5 c4 c3 c2 c1 i0)
  have f4: "fc_performance (fst s6) =
           (if option_get opts ''performance'' True
            then Some (if raises w (snd s2) (Evaluate PerformanceScript) = None
                       then \<lparr>pm_load_time = load_time,
                             pm_first_contentful_paint = snd (performance_script (document w (snd s2))),
                             pm_largest_contentful_paint = None,
                             pm_dom_content_loaded = Some (fst (performance_script (document w (snd s2)))),
                             pm_errors = [], pm_warnings = []\<rparr>
                       else \<lparr>pm_load_time = load_time, pm_first_contentful_paint = None,
                             pm_largest_contentful_paint = None, pm_dom_content_loaded = None,
                             pm_errors = [], pm_warnings = []\<rparr>)
            else None)"
    by (simp add: c6 c5 c4 c3 c2 c1 i0 analyze_performance_cases)
  have f5: "fc_accessibility (fst s6) =
           (if option_get opts ''accessibility'' True
            then Some (if raises w (snd s3) (Evaluate AccessibilityScript) = None
                       then accessibility_script (document w (snd s3))
                       else \<lparr>ar_issues = [], ar_score = 0\<rparr>)
            else None)"
    by (simp add: c6 c5 c4 c3 c2 c1 i0 analyze_accessibility_cases)
  have f6: "fc_responsive (fst s6) =
           (if option_get opts ''responsive'' False
            then Some \<lparr>rr_breakpoints = completed_breakpoints w breakpoints (snd s4),
                       rr_issues = overflow_issues (completed_breakpoints w breakpoints (snd s4))\<rparr>
            else None)"
    by (simp add: c6 c5 c4 c3 c2 c1 i0 test_responsive_completed)
  have f7: "fc_interactions (fst s6)
           = Some (summary_filled w (length (fc_forms (fst s6))) (snd s5))"
    by (simp add: c6)
  show ?thesis
    apply (insert fails returns r1 r2 r3 r4 r5 r6 f1 f2 f3 f4 f5 f6 f7)
    apply (intro conjI; assumption)
    done
qed

lemma partial_failure_raises:
  "raises partial_failure_world t Screenshot = Some ''Target crashed''"
  "raises partial_failure_world t Content = None"
  "raises partial_failure_world t (Evaluate PerformanceScript) = Some ''Target crashed''"
  "raises partial_failure_world t (Evaluate AccessibilityScript) = None"
  "raises partial_failure_world t PageClose = None"
  by (simp_all add: world_defs)

lemma partial_failure_sweep:
  "completed_breakpoints partial_failure_world breakpoints t
     = [\<lparr>bp_name = ''mobile'', bp_width = 375, bp_height = 667, bp_has_horizontal_scroll = False\<rparr>]"
  by (simp add: breakpoints_def world_defs sample_document_def Let_def)

lemma partial_failure_summary:
  "summary_filled partial_failure_world n t
     = \<lparr>is_clickable_count = 2, is_focusable_count = 0, is_form_count = n,
        is_navigation_links = [], is_can_scroll = False\<rparr>"
  by (simp add: summary_filled_def Let_def world_defs clickable_query_def focusable_query_def dq_def)

lemma sample_forms: "length (extract_forms w sample_soup) = 2"
  by (simp add: extract_forms_def find_all_def sample_soup_def)

lemma sample_audit: "ar_score (accessibility_script sample_document) = 70"
  by (simp add: accessibility_script_def sample_document_def js_truthy_def)

theorem capture_absorbs_stage_failures_witness:
  "reaches_stages partial_failure_world local_url None []
   \<and> (\<exists>ctx tr'. capture_frontend partial_failure_world local_url (Some all_enabled) None []
                    = (Inr ctx, tr')
        \<and> last tr' = PageClose
        \<and> fc_screenshot ctx = Some []
        \<and> fc_raw_html ctx = Some ''<html></html>''
        \<and> length (fc_forms ctx) = 2
        \<and> fc_performance ctx =
              Some \<lparr>pm_load_time = 1, pm_first_contentful_paint = None,
                    pm_largest_contentful_paint = None, pm_dom_content_loaded = None,
                    pm_errors = [], pm_warnings = []\<rparr>
        \<and> map_option ar_score (fc_accessibility ctx) = Some 70
        \<and> fc_responsive ctx =
              Some \<lparr>rr_breakpoints = [\<lparr>bp_name = ''mobile'', bp_width = 375, bp_height = 667,
                                        bp_has_horizontal_scroll = False\<rparr>],
                    rr_issues = []\<rparr>
        \<and> fc_interactions ctx =
              Some \<lparr>is_clickable_count = 2, is_focusable_count = 0, is_form_count = 2,
                    is_navigation_links = [], is_can_scroll = False\<rparr>)
   \<and> \<not> reaches_stages offline_world local_url None []
   \<and> returned (capture_frontend offline_world local_url (Some all_enabled) None []) = None"
proof -
  let ?w = partial_failure_world
  define opts where "opts = (case Some all_enabled of None \<Rightarrow> default_options | Some os \<Rightarrow> os)"
  define t1 where "t1 = entry_trace None [] @ [OnConsole, Goto local_url, Title]"
  define load_time where "load_time = now ?w (entry_trace None [] @ [OnConsole, Goto local_url])
                       - now ?w (entry_trace None [] @ [OnConsole])"
  define s0 where "s0 = (initial_context (now ?w t1) (page_url ?w t1)
                 (page_title ?w (entry_trace None [] @ [OnConsole, Goto local_url]))
                 (the (viewport_size ?w t1)) (console ?w t1), t1)"
  define s1 where "s1 = screenshot_stage ?w opts s0"
  define s2 where "s2 = dom_stage ?w opts s1"
  define s3 where "s3 = performance_stage ?w opts load_time s2"
  define s4 where "s4 = accessibility_stage ?w opts s3"
  define s5 where "s5 = responsive_stage ?w opts s4"
  define s6 where "s6 = interactions_stage ?w s5"
  define closing where
    "closing = snd s6 @ [LogInfo (''Successfully captured context for '' @ local_url)]"
  note T = capture_absorbs_stage_failures
    [OF opts_def t1_def load_time_def s0_def s1_def s2_def s3_def s4_def s5_def s6_def closing_def]
  note k2 = T [THEN conjunct2]
  note k3 = k2 [THEN conjunct2]
  note k4 = k3 [THEN conjunct2]
  note k5 = k4 [THEN conjunct2]
  note k6 = k5 [THEN conjunct2]
  note k7 = k6 [THEN conjunct2]
  note k8 = k7 [THEN conjunct2]
  note k9 = k8 [THEN conjunct2]
  note k10 = k9 [THEN conjunct2]
  note k11 = k10 [THEN conjunct2]
  note k12 = k11 [THEN conjunct2]
  note k13 = k12 [THEN conjunct2]
  note k14 = k13 [THEN conjunct2]
  note k15 = k14 [THEN conjunct2]
  have o: "option_get opts ''screenshot'' True" "option_get opts ''dom_analysis'' True"
    "option_get opts ''performance'' True" "option_get opts ''accessibility'' True"
    "option_get opts ''responsive'' False"
    by (simp_all add: opts_def option_get_def all_enabled_def)
  have R: "reaches_stages ?w local_url None []"
    by (simp add: reaches_stages_def entry_trace_def world_defs)
  have lt: "load_time = 1"
    by (simp add: load_time_def entry_trace_def world_defs)
  have ret: "capture_frontend ?w local_url (Some all_enabled) None []
               = (Inr (fst s6), closing @ [PageClose])"
    using k2 [THEN conjunct1, THEN mp, OF R] by (simp add: partial_failure_raises)
  have f1: "fc_screenshot (fst s6) = Some []"
    using k9 [THEN conjunct1] o by (simp add: partial_failure_raises)
  have dom: "fc_raw_html (fst s6) = Some (html ?w (snd s1))
                \<and> fc_elements (fst s6) = extract_dom_elements ?w (parse ?w (html ?w (snd s1)))
                \<and> fc_forms (fst s6) = extract_forms ?w (parse ?w (html ?w (snd s1)))
                \<and> fc_buttons (fst s6) = extract_buttons ?w (parse ?w (html ?w (snd s1)))
                \<and> fc_links (fst s6) = extract_links ?w (parse ?w (html ?w (snd s1)))
                \<and> fc_inputs (fst s6) = extract_inputs ?w (parse ?w (html ?w (snd s1)))
                \<and> fc_interactive (fst s6)
                    = fst (extract_interactive_elements ?w (snd s1 @ [Content]))"
    using k10 [THEN conjunct1, THEN mp] o partial_failure_raises(2) by blast
  have f2: "fc_raw_html (fst s6) = Some ''<html></html>''"
    using dom by (simp add: world_defs)
  have f3: "length (fc_forms (fst s6)) = 2"
    using dom by (simp add: world_defs sample_forms)
  have f4: "fc_performance (fst s6) =
              Some \<lparr>pm_load_time = 1, pm_first_contentful_paint = None,
                    pm_largest_contentful_paint = None, pm_dom_content_loaded = None,
                    pm_errors = [], pm_warnings = []\<rparr>"
    using k12 [THEN conjunct1] o by (simp add: partial_failure_raises lt)
  have f5: "map_option ar_score (fc_accessibility (fst s6)) = Some 70"
    using k13 [THEN conjunct1] o sample_audit by (simp add: partial_failure_raises world_defs)
  have f6: "fc_responsive (fst s6) =
              Some \<lparr>rr_breakpoints = [\<lparr>bp_name = ''mobile'', bp_width = 375, bp_height = 667,
                                        bp_has_horizontal_scroll = False\<rparr>],
                    rr_issues = []\<rparr>"
    using k14 [THEN conjunct1] o by (simp add: partial_failure_sweep overflow_issues_def)
  have f7: "fc_interactions (fst s6) =
              Some \<lparr>is_clickable_count = 2, is_focusable_count = 0, is_form_count = 2,
                    is_navigation_links = [], is_can_scroll = False\<rparr>"
    using k15 f3 by (simp add: partial_failure_summary)
  have l: "last (closing @ [PageClose]) = PageClose" by simp
  have X: "\<exists>ctx tr'. capture_frontend ?w local_url (Some all_enabled) None [] = (Inr ctx, tr')
        \<and> last tr' = PageClose
        \<and> fc_screenshot ctx = Some []
        \<and> fc_raw_html ctx = Some ''<html></html>''
        \<and> length (fc_forms ctx) = 2
        \<and> fc_performance ctx =
              Some \<lparr>pm_load_time = 1, pm_first_contentful_paint = None,
                    pm_largest_contentful_paint = None, pm_dom_content_loaded = None,
                    pm_errors = [], pm_warnings = []\<rparr>
        \<and> map_option ar_score (fc_accessibility ctx) = Some 70
        \<and> fc_responsive ctx =
              Some \<lparr>rr_breakpoints = [\<lparr>bp_name = ''mobile'', bp_width = 375, bp_height = 667,
                                        bp_has_horizontal_scroll = False\<rparr>],
                    rr_issues = []\<rparr>
        \<and> fc_interactions ctx =
              Some \<lparr>is_clickable_count = 2, is_focusable_count = 0, is_form_count = 2,
                    is_navigation_links = [], is_can_scroll = False\<rparr>"
    apply (rule exI [of _ "fst s6"], rule exI [of _ "closing @ [PageClose]"])
    apply (intro conjI ret l f1 f2 f3 f4 f5 f6 f7)
    done
  have N: "\<not> reaches_stages offline_world local_url None []"
    by (simp add: reaches_stages_def entry_trace_def world_defs)
  have F: "returned (capture_frontend offline_world local_url (Some all_enabled) None []) = None"
    using capture_absorbs_stage_failures
            [OF refl refl refl refl refl refl refl refl refl refl refl,
             where w = offline_world and url = local_url and options = "Some all_enabled"
               and viewport = None and tr = "[]", THEN conjunct1, THEN mp, OF N]
    by simp
  show ?thesis using R X N F by blast
qed

section \<open>Release of the page\<close>

text \<open>Once the page has been obtained, \<^verbatim>\<open>interact_with_page\<close> ends with closing it,
  whatever the navigation and the actions do. \<^verbatim>\<open>capture_frontend\<close> does so once the
  \<^verbatim>\<open>try\<close> is entered, that is when no viewport is requested or setting it does not
  raise.\<close>

lemma interact_with_page_closes_page:
  "raises w tr NewPage = None \<Longrightarrow> last (snd (interact_with_page w url actions tr)) = PageClose"
  by (cases "interaction_session w url actions (tr @ [NewPage])";
      cases "raises w (snd (interaction_session w url actions (tr @ [NewPage]))) PageClose")
     (simp_all add: interact_with_page_def call_def)

lemma capture_frontend_closes_page:
  assumes "raises w tr NewPage = None"
    "\<forall>v. truthy_dict viewport = Some v \<longrightarrow> raises w (tr @ [NewPage]) (SetViewportSize v) = None"
  shows "last (snd (capture_frontend w url options viewport tr)) = PageClose"
proof -
  let ?o = "case options of None \<Rightarrow> default_options | Some os \<Rightarrow> os"
  let ?t = "case truthy_dict viewport of None \<Rightarrow> tr @ [NewPage]
            | Some v \<Rightarrow> tr @ [NewPage, SetViewportSize v]"
  obtain x t3 where b: "capture_body w url ?o ?t = (x, t3)" by (meson surj_pair)
  show ?thesis
  proof (cases x)
    case (Inl e)
    then show ?thesis
      using assms b
      by (cases "truthy_dict viewport";
          cases "raises w (t3 @ [LogError (''Error capturing frontend context: '' @ e)]) PageClose")
         (simp_all add: capture_frontend_def call_def Let_def)
  next
    case (Inr c)
    then show ?thesis
      using assms b
      by (cases "truthy_dict viewport"; cases "raises w t3 PageClose")
         (simp_all add: capture_frontend_def call_def Let_def)
  qed
qed

text \<open>
  C3 (the code at the failing input). A capture with a viewport that the driver
  rejects: the page is requested, setting the viewport raises before the \<^verbatim>\<open>try\<close> is
  entered, and the call ends with that exception and without closing the page.
\<close>

theorem viewport_failure_leaks_page:
  "capture_frontend viewport_failure_world local_url None (Some [(''width'', 1280)]) []
     = (Inl ''viewportSize.height: expected integer'',
        [NewPage, SetViewportSize [(''width'', 1280)]])
   \<and> PageClose \<notin> set (snd (capture_frontend viewport_failure_world local_url None
                                (Some [(''width'', 1280)]) []))"
  by (simp add: capture_frontend_def call_def world_defs)

end
